(* ===== verification/Prelude.thy ===== *)
theory Prelude
  imports Main "HOL-Library.Word"
begin

text \<open>
  Shared ground of the development: the names of the machine types of the C sources, the
  theorem collections that the component theories fill and use, and generic lemmas on lists
  and words.
\<close>

unbundle bit_operations_syntax

section \<open>Machine types and theorem collections\<close>

type_synonym u8 = "8 word"    \<comment> \<open>\<^verbatim>\<open>uint8_t\<close>\<close>
type_synonym u16 = "16 word"  \<comment> \<open>\<^verbatim>\<open>uint16_t\<close>\<close>
type_synonym u32 = "32 word"  \<comment> \<open>\<^verbatim>\<open>unsigned\<close>, and \<^verbatim>\<open>int\<close> where only its bits matter\<close>
type_synonym bytes = "u8 list"

named_theorems frame_simps \<open>what an operation leaves unchanged\<close>
named_theorems inv_intros \<open>preservation of the handle invariants\<close>

section \<open>Lists\<close>

lemma length_eq_Suc_0 [simp]: "length xs = Suc 0 \<longleftrightarrow> (\<exists>x. xs = [x])"
  by (cases xs) auto

lemma take_list_update_end:
  "n < length xs \<Longrightarrow> take (Suc n) (xs[n := x]) = take n xs @ [x]"
  by (simp add: take_Suc_conv_app_nth)

text \<open>Writing the bytes \<open>bs\<close> to the front of a buffer, as consecutive assignments
  \<^verbatim>\<open>buf[0] = ...; buf[1] = ...\<close> do.\<close>

definition overwrite :: "'a list \<Rightarrow> 'a list \<Rightarrow> 'a list" where
  "overwrite bs buf = bs @ drop (length bs) buf"

lemma length_overwrite [simp]:
  "length bs \<le> length buf \<Longrightarrow> length (overwrite bs buf) = length buf"
  by (simp add: overwrite_def)

lemma take_overwrite [simp]: "take (length bs) (overwrite bs buf) = bs"
  by (simp add: overwrite_def)

lemma take_overwrite_eq: "n = length bs \<Longrightarrow> take n (overwrite bs buf) = bs"
  by (simp add: overwrite_def)

lemma nth_overwrite: "i < length bs \<Longrightarrow> overwrite bs buf ! i = bs ! i"
  by (simp add: overwrite_def nth_append)

lemma overwrite_Cons_neq_Nil [simp]: "overwrite (b # bs) buf \<noteq> []"
  by (simp add: overwrite_def)

section \<open>Numbers in texts\<close>

text \<open>The conversions \<^verbatim>\<open>%u\<close>, \<^verbatim>\<open>%d\<close> and \<^verbatim>\<open>%X\<close> of \<^verbatim>\<open>printf\<close>.\<close>

fun digits :: "nat \<Rightarrow> nat \<Rightarrow> nat list" where
  "digits b n = (if n < b \<or> b < 2 then [n] else digits b (n div b) @ [n mod b])"

declare digits.simps [simp del]

definition digit_char :: "nat \<Rightarrow> char" where
  "digit_char d = (if d < 10 then char_of (48 + d) else char_of (55 + d))"

definition show_nat :: "nat \<Rightarrow> string" where
  "show_nat n = map digit_char (digits 10 n)"

definition show_int :: "int \<Rightarrow> string" where
  "show_int i = (if i < 0 then CHR ''-'' # show_nat (nat (- i)) else show_nat (nat i))"

definition show_hex :: "nat \<Rightarrow> string" where
  "show_hex n = map digit_char (digits 16 n)"

section \<open>Words\<close>

lemma unat_u8_less [simp]: "unat (x :: u8) < 256"
proof -
  have "unat x < 2 ^ LENGTH(8)" by (rule unsigned_less)
  then show ?thesis by simp
qed

lemma unat_u8_le [simp]: "unat (x :: u8) \<le> 255"
  using unat_u8_less [of x] by linarith

lemma unat_u16_less [simp]: "unat (x :: u16) < 65536"
proof -
  have "unat x < 2 ^ LENGTH(16)" by (rule unsigned_less)
  then show ?thesis by simp
qed

text \<open>A universally quantified fact about bytes is decided by the 256 cases.\<close>

lemma all_u8_iff: "(\<forall>x :: u8. P x) \<longleftrightarrow> (\<forall>n \<in> set [0..<256]. P (word_of_nat n))"
proof
  assume r: "\<forall>n \<in> set [0..<256]. P (word_of_nat n :: u8)"
  show "\<forall>x. P x"
  proof
    fix x :: u8
    have "unat x \<in> set [0..<256]" by simp
    with r have "P (word_of_nat (unat x))" by blast
    then show "P x" by simp
  qed
qed simp

lemma all_less_8:
  "(\<forall>i < (8::nat). P i) \<longleftrightarrow> P 0 \<and> P 1 \<and> P 2 \<and> P 3 \<and> P 4 \<and> P 5 \<and> P 6 \<and> P 7"
  by (auto simp: eval_nat_numeral All_less_Suc)

lemma take_bit_Suc_xor:
  "take_bit (Suc n) (y :: 'a::len word) = take_bit n y XOR (if bit y n then 2 ^ n else 0)"
  by (rule bit_word_eqI) (auto simp: bit_simps less_Suc_eq)

text \<open>Two functions on bytes that are linear over exclusive or agree if they agree on the
  eight single bits.\<close>

lemma u8_linear_eqI:
  fixes f g :: "u8 \<Rightarrow> 'a::ring_bit_operations"
  assumes f: "\<And>x y. f (x XOR y) = f x XOR f y" and g: "\<And>x y. g (x XOR y) = g x XOR g y"
    and basis: "\<forall>i < 8. f (2 ^ i) = g (2 ^ i)"
  shows "f y = g y"
proof -
  have z: "f 0 = 0" "g 0 = 0" using f [of 0 0] g [of 0 0] by simp_all
  have "n \<le> 8 \<Longrightarrow> f (take_bit n y) = g (take_bit n y)" for n
    by (induction n) (simp_all add: z f g take_bit_Suc_xor basis)
  from this [of 8] show ?thesis by (simp add: take_bit_word_eq_self)
qed

lemma xor_cancel_left: "a XOR b = a XOR c \<longleftrightarrow> b = (c :: 'a::len word)"
  by (metis xor.assoc xor_self_eq xor.left_neutral)

lemma xor_cancel_right: "b XOR a = c XOR a \<longleftrightarrow> b = (c :: 'a::len word)"
  by (simp only: xor.commute [of _ a] xor_cancel_left)

lemma xor_eq_0_word: "a XOR b = 0 \<longleftrightarrow> a = (b :: 'a::len word)"
  by (metis xor.right_neutral xor.assoc xor_self_eq xor.left_neutral)

end
