(* ===== verification/Checksum.thy ===== *)
theory Checksum
  imports Prelude
begin

text \<open>
  The 16-bit checksum of \<^verbatim>\<open>src/lib/drbcc.c\<close> that guards every frame on the serial line
  and the partition table in the flash. The table-free update step of the library is shown to
  be the bitwise CRC-CCITT with the reflected polynomial \<open>0x8408\<close>, and what the receiver
  and the partition table code rely on is stated as a locale: the running value is zero
  exactly after the two checksum bytes, and a change of one byte changes the checksum.
\<close>

section \<open>The update step\<close>

text \<open>The macros \<^verbatim>\<open>lo8\<close> and \<^verbatim>\<open>hi8\<close>; the low byte is always used as a byte.\<close>

definition lo8 :: "u16 \<Rightarrow> u8" where
  "lo8 x = ucast (x AND 0xff)"

definition hi8 :: "u16 \<Rightarrow> u16" where
  "hi8 x = drop_bit 8 x"

lemma bit_lo8: "bit (lo8 x) n \<longleftrightarrow> n < 8 \<and> bit x n"
proof -
  have "(0xff :: u16) = mask 8" by (simp add: mask_eq_exp_minus_1)
  then have "lo8 x = ucast (x AND mask 8)" by (simp add: lo8_def)
  then show ?thesis by (auto simp: bit_simps)
qed

lemma bit_hi8: "bit (hi8 x) n \<longleftrightarrow> bit x (n + 8)"
  by (simp add: hi8_def bit_simps add.commute)

lemma hi8_hi8: "hi8 (hi8 x) = 0"
  by (rule bit_word_eqI) (auto simp: bit_hi8 dest: bit_imp_le_length)

lemma lo8_hi8: "lo8 (hi8 x) = ucast (hi8 x)"
  by (rule bit_word_eqI) (auto simp: bit_hi8 bit_lo8 bit_simps)

lemma hi8_ucast: "ucast (ucast (hi8 c) :: u8) = hi8 c"
  by (rule bit_word_eqI) (auto simp: bit_simps bit_hi8 dest: bit_imp_le_length)

lemma u16_split: "c = push_bit 8 (ucast (ucast (hi8 c) :: u8)) XOR ucast (lo8 c)"
  by (rule bit_word_eqI) (auto simp: bit_simps bit_hi8 bit_lo8 dest: bit_imp_le_length)

definition libdrbcc_crc_ccitt_update :: "u16 \<Rightarrow> u8 \<Rightarrow> u16" where
  "libdrbcc_crc_ccitt_update c data =
     (let data1 = data XOR lo8 c;
          data2 = data1 XOR push_bit 4 data1
      in ((push_bit 8 (ucast data2) OR hi8 c) XOR ucast (drop_bit 4 data2))
           XOR push_bit 3 (ucast data2))"

text \<open>The checksum of a run of bytes, from the start value every caller uses.\<close>

abbreviation crc_run :: "u16 \<Rightarrow> bytes \<Rightarrow> u16" where
  "crc_run c bs \<equiv> foldl libdrbcc_crc_ccitt_update c bs"

definition crc_ccitt :: "bytes \<Rightarrow> u16" where
  "crc_ccitt bs = crc_run 0xffff bs"

section \<open>Interfaces\<close>

text \<open>
  What a client of a running byte checksum relies on. \<open>ok\<close> is the set of values the
  running checksum can take.
\<close>

locale byte_checksum =
  fixes upd :: "'c \<Rightarrow> u8 \<Rightarrow> 'c" and ok :: "'c \<Rightarrow> bool"
  assumes ok_upd: "ok c \<Longrightarrow> ok (upd c d)"
    and inj_state: "ok c \<Longrightarrow> ok c' \<Longrightarrow> upd c d = upd c' d \<Longrightarrow> c = c'"
    and inj_byte: "ok c \<Longrightarrow> upd c d = upd c d' \<Longrightarrow> d = d'"
begin

lemma ok_foldl: "ok c \<Longrightarrow> ok (foldl upd c bs)"
  by (induction bs arbitrary: c) (auto intro: ok_upd)

lemma foldl_inj_state:
  "ok c \<Longrightarrow> ok c' \<Longrightarrow> foldl upd c bs = foldl upd c' bs \<Longrightarrow> c = c'"
  by (induction bs arbitrary: c c') (auto dest: inj_state intro: ok_upd)

lemma detects_changed_byte:
  assumes "ok c" and "i < length bs" and "b \<noteq> bs ! i"
  shows "foldl upd c (bs[i := b]) \<noteq> foldl upd c bs"
proof
  let ?c = "foldl upd c (take i bs)"
  assume "foldl upd c (bs[i := b]) = foldl upd c bs"
  moreover have "bs[i := b] = take i bs @ b # drop (Suc i) bs"
    using assms(2) by (rule upd_conv_take_nth_drop)
  moreover have "bs = take i bs @ bs ! i # drop (Suc i) bs"
    using assms(2) by (rule id_take_nth_drop)
  ultimately have "foldl upd (upd ?c b) (drop (Suc i) bs)
      = foldl upd (upd ?c (bs ! i)) (drop (Suc i) bs)"
    by (metis foldl_Cons foldl_append)
  moreover have "ok ?c" using assms(1) by (rule ok_foldl)
  ultimately have "upd ?c b = upd ?c (bs ! i)"
    by (blast intro: foldl_inj_state ok_upd)
  with \<open>ok ?c\<close> have "b = bs ! i" by (rule inj_byte)
  with assms(3) show False ..
qed

end

text \<open>
  A 16-bit checksum that a sender appends low byte first and a receiver checks by running on
  through the two appended bytes.
\<close>

locale residue_checksum = byte_checksum upd ok
  for upd :: "u16 \<Rightarrow> u8 \<Rightarrow> u16" and ok :: "u16 \<Rightarrow> bool" +
  assumes upd_low_byte: "upd c (lo8 c) = hi8 c"
    and upd_high_0: "hi8 (upd c d) = 0 \<Longrightarrow> d = lo8 c"
begin

lemma upd_eq_0: "upd c d = 0 \<longleftrightarrow> d = lo8 c \<and> hi8 c = 0"
  using upd_high_0 [of c d] upd_low_byte [of c] by (auto simp: hi8_def)

lemma residue_iff: "foldl upd c [a, b] = 0 \<longleftrightarrow> a = lo8 c \<and> b = ucast (hi8 c)"
  using upd_high_0 [of c a] upd_low_byte [of c] by (auto simp: upd_eq_0 lo8_hi8 hi8_hi8)

lemma residue_append_iff:
  "foldl upd c (bs @ [a, b]) = 0 \<longleftrightarrow> a = lo8 (foldl upd c bs) \<and> b = ucast (hi8 (foldl upd c bs))"
  using residue_iff by simp

end

section \<open>The update step is linear in what it shifts out\<close>

definition crc_table :: "u8 \<Rightarrow> u16" where
  "crc_table y = (let d = y XOR push_bit 4 y in
     (push_bit 8 (ucast d) XOR ucast (drop_bit 4 d)) XOR push_bit 3 (ucast d))"

lemma update_eq_table: "libdrbcc_crc_ccitt_update c d = crc_table (d XOR lo8 c) XOR hi8 c"
proof -
  have or_xor: "push_bit 8 (ucast x) OR hi8 c = push_bit 8 (ucast x) XOR hi8 c" for x :: u8
    by (rule bit_word_eqI) (auto simp: bit_simps bit_hi8 dest: bit_imp_le_length)
  show ?thesis
    by (simp add: libdrbcc_crc_ccitt_update_def crc_table_def Let_def or_xor
        xor.assoc xor.left_commute xor.commute del: push_bit_xor drop_bit_xor)
qed

lemma crc_table_xor: "crc_table (x XOR y) = crc_table x XOR crc_table y"
  by (simp add: crc_table_def Let_def unsigned_xor_eq ac_simps)

lemma hi8_crc_table_eq_0: "hi8 (crc_table y) = 0 \<longleftrightarrow> y = 0"
proof -
  have "\<forall>y. hi8 (crc_table y) = 0 \<longrightarrow> y = 0"
    unfolding all_u8_iff by code_simp
  then show ?thesis by (auto simp: crc_table_def hi8_def)
qed

lemma crc_table_inj: "crc_table x = crc_table y \<longleftrightarrow> x = y"
proof
  assume "crc_table x = crc_table y"
  then have "crc_table (x XOR y) = 0" by (simp add: crc_table_xor)
  then have "x XOR y = 0" using hi8_crc_table_eq_0 [of "x XOR y"] by (simp add: hi8_def)
  then show "x = y" by (simp add: xor_eq_0_word)
qed simp

lemma hi8_update: "hi8 (libdrbcc_crc_ccitt_update c d) = hi8 (crc_table (d XOR lo8 c))"
  by (rule bit_word_eqI) (auto simp: update_eq_table bit_hi8 bit_simps dest: bit_imp_le_length)

lemma update_inj_byte:
  "libdrbcc_crc_ccitt_update c d = libdrbcc_crc_ccitt_update c d' \<Longrightarrow> d = d'"
  by (simp add: update_eq_table xor_cancel_right crc_table_inj)

lemma update_inj_state:
  assumes eq: "libdrbcc_crc_ccitt_update c d = libdrbcc_crc_ccitt_update c' d"
  shows "c = c'"
proof -
  from arg_cong [OF eq, of hi8] have "hi8 (crc_table (d XOR lo8 c)) = hi8 (crc_table (d XOR lo8 c'))"
    by (simp add: hi8_update)
  then have "hi8 (crc_table (lo8 c XOR lo8 c')) = 0"
    by (simp add: crc_table_xor hi8_def xor_cancel_left)
  then have lo: "lo8 c = lo8 c'" by (simp add: hi8_crc_table_eq_0 xor_eq_0_word)
  with eq have "hi8 c = hi8 c'" by (simp add: update_eq_table xor_cancel_left)
  with lo show ?thesis by (metis u16_split)
qed

interpretation ccitt: residue_checksum libdrbcc_crc_ccitt_update "\<lambda>_. True"
proof unfold_locales
  show "libdrbcc_crc_ccitt_update c (lo8 c) = hi8 c" for c
    by (simp add: update_eq_table crc_table_def)
  show "hi8 (libdrbcc_crc_ccitt_update c d) = 0 \<Longrightarrow> d = lo8 c" for c d
    by (simp add: hi8_update hi8_crc_table_eq_0 xor_eq_0_word)
qed (auto dest: update_inj_byte update_inj_state)

section \<open>The bitwise reference\<close>

text \<open>One step of the shift register of CRC-CCITT, least significant bit first.\<close>

definition ccitt_bit_step :: "u16 \<Rightarrow> u16" where
  "ccitt_bit_step c = (if bit c 0 then drop_bit 1 c XOR 0x8408 else drop_bit 1 c)"

definition crc_ccitt_reference :: "u16 \<Rightarrow> u8 \<Rightarrow> u16" where
  "crc_ccitt_reference c d = (ccitt_bit_step ^^ 8) (c XOR ucast d)"

lemma ccitt_bit_step_xor:
  "ccitt_bit_step (a XOR b) = ccitt_bit_step a XOR ccitt_bit_step b"
  by (auto simp: ccitt_bit_step_def bit_simps xor.assoc xor.left_commute xor.commute)

lemma ccitt_bit_steps_xor:
  "(ccitt_bit_step ^^ n) (a XOR b) = (ccitt_bit_step ^^ n) a XOR (ccitt_bit_step ^^ n) b"
  by (induction n) (simp_all add: ccitt_bit_step_xor)

lemma ccitt_bit_steps_low: "(ccitt_bit_step ^^ 8) (ucast y) = crc_table y"
proof (rule u8_linear_eqI [of "\<lambda>y. (ccitt_bit_step ^^ 8) (ucast y)"])
  show "\<forall>i<8. (ccitt_bit_step ^^ 8) (ucast (2 ^ i :: u8)) = crc_table (2 ^ i)"
    unfolding all_less_8 by code_simp
qed (simp_all add: ccitt_bit_steps_xor crc_table_xor unsigned_xor_eq)

lemma ccitt_bit_steps_high: "(ccitt_bit_step ^^ 8) (push_bit 8 (ucast y)) = ucast (y :: u8)"
proof (rule u8_linear_eqI [of "\<lambda>y. (ccitt_bit_step ^^ 8) (push_bit 8 (ucast y))"])
  show "\<forall>i<8. (ccitt_bit_step ^^ 8) (push_bit 8 (ucast (2 ^ i :: u8))) = ucast (2 ^ i :: u8)"
    unfolding all_less_8 by code_simp
qed (simp_all add: ccitt_bit_steps_xor unsigned_xor_eq)

text \<open>C29. The update step of the library is the bitwise CRC-CCITT shift register with the
  reflected polynomial \<open>0x8408\<close>, for every running value and every byte.
\<close>

theorem crc_update_is_ccitt: "libdrbcc_crc_ccitt_update c d = crc_ccitt_reference c d"
proof -
  have "c XOR ucast d = push_bit 8 (ucast (ucast (hi8 c) :: u8)) XOR ucast (d XOR lo8 c)"
    by (subst u16_split) (simp add: unsigned_xor_eq ac_simps)
  then have "crc_ccitt_reference c d = ucast (ucast (hi8 c) :: u8) XOR crc_table (d XOR lo8 c)"
    by (simp only: crc_ccitt_reference_def ccitt_bit_steps_xor ccitt_bit_steps_low
        ccitt_bit_steps_high)
  then show ?thesis by (simp add: update_eq_table hi8_ucast ac_simps)
qed

end
