(* ===== verification/Handle.thy ===== *)
theory Handle
  imports Prelude
begin

text \<open>
  The data of the library: the enumerations of \<^verbatim>\<open>drbcc_com.h\<close> and \<^verbatim>\<open>drbcc_ll.h\<close>,
  messages, partition table entries, and the handle \<^verbatim>\<open>DRBCC_t\<close> as one record. The record
  also holds the globals of the library and the environment a call can see: the memory
  allocator, the clock, the serial line, the file system and the callbacks invoked so far.
  Every operation of the library is a function from handle to handle.
\<close>

section \<open>Enumerations and constants\<close>

datatype DRBCC_RC_t =
    DRBCC_RC_NOERROR | DRBCC_RC_SYSTEM_ERROR | DRBCC_RC_UNSPEC_ERROR | DRBCC_RC_NO_STANDBY_POWER
  | DRBCC_RC_MISSING_START_CHAR | DRBCC_RC_MSG_TOO_LONG | DRBCC_RC_UNEXP_START_CHAR
  | DRBCC_RC_MSG_TOO_SHORT | DRBCC_RC_MSG_CRC_ERROR | DRBCC_RC_DEVICE_LOCKED
  | DRBCC_RC_MSG_TIMEOUT | DRBCC_RC_OUTOFMEMORY | DRBCC_RC_WRONGSTATE | DRBCC_RC_NOTINITIALIZED
  | DRBCC_RC_INVALID_HANDLE | DRBCC_RC_CBREGISTERED | DRBCC_RC_INVALID_FILENAME
  | DRBCC_RC_SESSIONACTIVE

datatype DRBCC_COMMANDS_t =
    DRBCC_ACK | DRBCC_SYNC | DRBCC_SYNC_ANSWER
  | DRBCC_CMD_REQ_PROTOCOL_VERSION | DRBCC_CMD_IND_PROTOCOL_VERSION
  | DRBCC_REQ_RTC_READ | DRBCC_IND_RTC_READ | DRBCC_REQ_RTC_SET
  | DRBCC_REQ_EXTFLASH_ID | DRBCC_IND_EXTFLASH_ID
  | DRBCC_REQ_EXTFLASH_READ | DRBCC_IND_EXTFLASH_READ
  | DRBCC_REQ_EXTFLASH_WRITE | DRBCC_IND_EXTFLASH_WRITE_RESULT
  | DRBCC_REQ_EXTFLASH_BLOCKERASE | DRBCC_IND_EXTFLASH_BLOCKERASE_RESULT
  | DRBCC_REQ_FW_INVALIDATE | DRBCC_IND_FW_INVALIDATED
  | DRBCC_REQ_BCTRL_RESTART | DRBCC_IND_BCTRL_RESTART_ACCEPTED
  | DRBCC_REQ_SET_LED | DRBCC_IND_FW_UPDATE_STARTED
  | DRBCC_REQ_BL_UPDATE | DRBCC_IND_BL_UPDATE
  | DRBCC_REQ_HEARTBEAT | DRBCC_REQ_STATUS | DRBCC_IND_STATUS
  | DRBCC_REQ_HD_EJECT | DRBCC_REQ_HD_ONOFF | DRBCC_REQ_GPI_POWER
  | DRBCC_REQ_PUT_LOG | DRBCC_IND_PUT_LOG
  | DRBCC_REQ_RINGLOG_POS | DRBCC_IND_RINGLOG_POS
  | DRBCC_REQ_SET_GPO | DRBCC_REQ_SHUTDOWN | DRBCC_REQ_ID_DATA | DRBCC_IND_ID_DATA
  | DRBCC_IND_KEY_PROCESSING | DRBCC_CLEAR_RINGLOG_REQ | DRBCC_HDD_OFF_REQ
  | DRBCC_REQ_DEBUG_SET | DRBCC_REQ_DEBUG_GET | DRBCC_IND_DEBUG_GET
  | DRBCC_IND_ACCEL_EVENT | DRBCC_SYNC_CMD_ERROR | DRBCC_CMD_FORWARD | DRBCC_CMD_ILLEGAL

text \<open>The value of an enumerator, as the byte it is on the line.\<close>

fun cmd :: "DRBCC_COMMANDS_t \<Rightarrow> u8" where
  "cmd DRBCC_ACK = 0"
| "cmd DRBCC_SYNC = 1"
| "cmd DRBCC_SYNC_ANSWER = 2"
| "cmd DRBCC_CMD_REQ_PROTOCOL_VERSION = 3"
| "cmd DRBCC_CMD_IND_PROTOCOL_VERSION = 4"
| "cmd DRBCC_REQ_RTC_READ = 5"
| "cmd DRBCC_IND_RTC_READ = 6"
| "cmd DRBCC_REQ_RTC_SET = 7"
| "cmd DRBCC_REQ_EXTFLASH_ID = 8"
| "cmd DRBCC_IND_EXTFLASH_ID = 9"
| "cmd DRBCC_REQ_EXTFLASH_READ = 10"
| "cmd DRBCC_IND_EXTFLASH_READ = 11"
| "cmd DRBCC_REQ_EXTFLASH_WRITE = 12"
| "cmd DRBCC_IND_EXTFLASH_WRITE_RESULT = 13"
| "cmd DRBCC_REQ_EXTFLASH_BLOCKERASE = 14"
| "cmd DRBCC_IND_EXTFLASH_BLOCKERASE_RESULT = 15"
| "cmd DRBCC_REQ_FW_INVALIDATE = 16"
| "cmd DRBCC_IND_FW_INVALIDATED = 17"
| "cmd DRBCC_REQ_BCTRL_RESTART = 18"
| "cmd DRBCC_IND_BCTRL_RESTART_ACCEPTED = 19"
| "cmd DRBCC_REQ_SET_LED = 20"
| "cmd DRBCC_IND_FW_UPDATE_STARTED = 21"
| "cmd DRBCC_REQ_BL_UPDATE = 22"
| "cmd DRBCC_IND_BL_UPDATE = 23"
| "cmd DRBCC_REQ_HEARTBEAT = 24"
| "cmd DRBCC_REQ_STATUS = 25"
| "cmd DRBCC_IND_STATUS = 26"
| "cmd DRBCC_REQ_HD_EJECT = 27"
| "cmd DRBCC_REQ_HD_ONOFF = 28"
| "cmd DRBCC_REQ_GPI_POWER = 29"
| "cmd DRBCC_REQ_PUT_LOG = 30"
| "cmd DRBCC_IND_PUT_LOG = 31"
| "cmd DRBCC_REQ_RINGLOG_POS = 32"
| "cmd DRBCC_IND_RINGLOG_POS = 33"
| "cmd DRBCC_REQ_SET_GPO = 36"
| "cmd DRBCC_REQ_SHUTDOWN = 37"
| "cmd DRBCC_REQ_ID_DATA = 38"
| "cmd DRBCC_IND_ID_DATA = 39"
| "cmd DRBCC_IND_KEY_PROCESSING = 44"
| "cmd DRBCC_CLEAR_RINGLOG_REQ = 45"
| "cmd DRBCC_HDD_OFF_REQ = 50"
| "cmd DRBCC_REQ_DEBUG_SET = 51"
| "cmd DRBCC_REQ_DEBUG_GET = 52"
| "cmd DRBCC_IND_DEBUG_GET = 53"
| "cmd DRBCC_IND_ACCEL_EVENT = 54"
| "cmd DRBCC_SYNC_CMD_ERROR = 127"
| "cmd DRBCC_CMD_FORWARD = 128"
| "cmd DRBCC_CMD_ILLEGAL = 255"

datatype DRBCC_STATES_t =
    DRBCC_STATE_USER | DRBCC_STATE_PARTITION_REQ | DRBCC_STATE_DELETE_FILE
  | DRBCC_STATE_GET_FILE | DRBCC_STATE_PUT_FILE | DRBCC_STATE_GET_LOG

abbreviation TOGGLE_BITMASK :: u8 where "TOGGLE_BITMASK \<equiv> 0x80"
abbreviation DRBCC_MAX_MSG_LEN :: nat where "DRBCC_MAX_MSG_LEN \<equiv> 140"
abbreviation DRBCC_MAX_PAYLOAD :: nat where "DRBCC_MAX_PAYLOAD \<equiv> 145"
abbreviation DRBCC_PART_MAGIC1 :: u8 where "DRBCC_PART_MAGIC1 \<equiv> 0xAF"
abbreviation DRBCC_PART_MAGIC2 :: u8 where "DRBCC_PART_MAGIC2 \<equiv> 0xFE"
abbreviation DRBCC_START_CHAR :: u8 where "DRBCC_START_CHAR \<equiv> 0xFA"
abbreviation DRBCC_STOP_CHAR :: u8 where "DRBCC_STOP_CHAR \<equiv> 0xFB"
abbreviation DRBCC_ESC_CHAR :: u8 where "DRBCC_ESC_CHAR \<equiv> 0xFC"

section \<open>Messages, partition entries, broken-down time\<close>

text \<open>
  The array \<^verbatim>\<open>msg\<close> has \<^verbatim>\<open>DRBCC_MAX_PAYLOAD\<close> bytes of which the first
  \<^verbatim>\<open>msg_len\<close> are in use. The \<^verbatim>\<open>next\<close> pointer becomes the list a queue is;
  the diagnostic text \<^verbatim>\<open>str\<close> is never read or written.
\<close>

record DRBCC_MESSAGE_t =
  msg_len :: u8
  msg :: bytes

definition payload :: "DRBCC_MESSAGE_t \<Rightarrow> bytes" where
  "payload m = take (unat (msg_len m)) (msg m)"

text \<open>A message is well formed when its array has its declared size and its used part fits
  in the longest message of the protocol.\<close>

definition wf_msg :: "DRBCC_MESSAGE_t \<Rightarrow> bool" where
  "wf_msg m \<longleftrightarrow> length (msg m) = DRBCC_MAX_PAYLOAD \<and> unat (msg_len m) \<le> DRBCC_MAX_MSG_LEN"

record DRBCC_PARTENTRY_t =
  typeinfo :: u8
  startblock :: u16
  plength :: u32

text \<open>The bit fields \<^verbatim>\<open>idx:4\<close>, \<^verbatim>\<open>type:3\<close>, \<^verbatim>\<open>blocktype:1\<close> of \<^verbatim>\<open>typeinfo\<close>,
  least significant first as documented in \<^verbatim>\<open>drbcc_files.c\<close>.\<close>

definition bits_idx :: "DRBCC_PARTENTRY_t \<Rightarrow> u8" where
  "bits_idx e = typeinfo e AND 0x0F"

definition bits_type :: "DRBCC_PARTENTRY_t \<Rightarrow> u8" where
  "bits_type e = drop_bit 4 (typeinfo e) AND 0x07"

definition bits_blocktype :: "DRBCC_PARTENTRY_t \<Rightarrow> u8" where
  "bits_blocktype e = drop_bit 7 (typeinfo e)"

record tm =
  tm_sec :: int
  tm_min :: int
  tm_hour :: int
  tm_mday :: int
  tm_mon :: int
  tm_year :: int
  tm_wday :: int
  tm_yday :: int
  tm_isdst :: int

section \<open>Callbacks\<close>

text \<open>The callback pointers of the handle; a handle records which of them are not
  \<^verbatim>\<open>NULL\<close>.\<close>

datatype callback =
    rtc_cb | status_cb | hdOffRequest_cb | error_cb | session_cb | protocol_cb | id_cb
  | flash_id_cb | read_flash_cb | write_flash_cb | erase_flash_cb | partitiontable_cb
  | progress_cb | getlog_cb | getpos_cb | debug_get_cb | accel_event_cb

text \<open>A call of a callback with its arguments (less the \<^verbatim>\<open>context\<close> pointer, which the
  library only passes through). Of a pointer argument the bytes it points to are recorded.\<close>

datatype event =
    Ev_rtc tm u8
  | Ev_status bytes
  | Ev_hdOffRequest bytes
  | Ev_error string
  | Ev_session u32 bool
  | Ev_protocol u8 u8 u8 bytes
  | Ev_id u8 u8 bytes
  | Ev_flash_id u8 u8 u8
  | Ev_read_flash u32 u32 bytes
  | Ev_write_flash u32 u32 u8
  | Ev_erase_flash u32 u8
  | Ev_partitiontable "DRBCC_PARTENTRY_t list"
  | Ev_progress u32 u32
  | Ev_getlog u32 nat bytes
  | Ev_getpos u32 u8 u8
  | Ev_debug_get u32 nat bytes
  | Ev_accel_event u8 u16 u16 u16

section \<open>Time\<close>

datatype timeval = Timeval (tv_sec: int) (tv_usec: int)

instantiation timeval :: linorder
begin

definition less_timeval :: "timeval \<Rightarrow> timeval \<Rightarrow> bool" where
  "less_timeval a b \<longleftrightarrow>
     (if tv_sec a = tv_sec b then tv_usec a < tv_usec b else tv_sec a < tv_sec b)"

definition less_eq_timeval :: "timeval \<Rightarrow> timeval \<Rightarrow> bool" where
  "less_eq_timeval a b \<longleftrightarrow>
     (if tv_sec a = tv_sec b then tv_usec a \<le> tv_usec b else tv_sec a < tv_sec b)"

instance
  by standard
    (auto simp: less_timeval_def less_eq_timeval_def timeval.expand split: if_splits)

end

definition timeradd :: "timeval \<Rightarrow> timeval \<Rightarrow> timeval" where
  "timeradd a b =
     (let sec = tv_sec a + tv_sec b; usec = tv_usec a + tv_usec b
      in if usec \<ge> 1000000 then Timeval (sec + 1) (usec - 1000000) else Timeval sec usec)"

definition usecs :: "timeval \<Rightarrow> int" where
  "usecs t = tv_sec t * 1000000 + tv_usec t"

definition normal_time :: "timeval \<Rightarrow> bool" where
  "normal_time t \<longleftrightarrow> 0 \<le> tv_usec t \<and> tv_usec t < 1000000"

lemma usecs_timeradd [simp]: "usecs (timeradd a b) = usecs a + usecs b"
  by (simp add: usecs_def timeradd_def Let_def)

lemma normal_timeradd [simp]:
  "normal_time a \<Longrightarrow> normal_time b \<Longrightarrow> normal_time (timeradd a b)"
  by (auto simp: normal_time_def timeradd_def Let_def)

lemma less_timeval_iff_usecs:
  "normal_time a \<Longrightarrow> normal_time b \<Longrightarrow> a < b \<longleftrightarrow> usecs a < usecs b"
  by (auto simp: less_timeval_def usecs_def normal_time_def)

section \<open>The handle\<close>

text \<open>
  The fields up to \<open>last_error\<close> are those of \<^verbatim>\<open>DRBCC_t\<close>. An \<^verbatim>\<open>int\<close> that only
  ever holds a truth value is a \<^typ>\<open>bool\<close>; the toggle variables, which hold \<open>0\<close> or
  \<open>~0\<close>, keep their bits. A queue is the list of its messages. A pointer to a block is an
  option of its contents, \<^const>\<open>None\<close> for \<^verbatim>\<open>NULL\<close>. Then follow the globals
  \<^verbatim>\<open>libdrbcc_initialized\<close>, \<^verbatim>\<open>drbcc_session\<close> and the static \<^verbatim>\<open>retry\<close>, and the
  environment:
  \<^item> \<open>session_out\<close>: the variable of the caller that \<^verbatim>\<open>session\<close> points to;
  \<^item> \<open>heap\<close>, \<open>mallocs\<close>: the outcome of the \<open>n\<close>-th allocation (\<^verbatim>\<open>NULL\<close>, or the
    bytes the fresh block happens to hold) and the number of allocations so far;
  \<^item> \<open>clock\<close>, \<open>ticks\<close>: the answers of \<^verbatim>\<open>gettimeofday\<close> and how many were taken;
  \<^item> \<open>rx\<close>: the chunks successive reads from the serial line will find; an empty chunk is
    a read that finds nothing;
  \<^item> \<open>tx\<close>: what each write to the serial line put on it;
  \<^item> \<open>stack\<close>: what uninitialised local variables hold;
  \<^item> \<open>fs\<close>: the contents of the files;
  \<^item> \<open>ioplan\<close>, \<open>ios\<close>: which of the other system calls fails or is cut short, and their
    number so far;
  \<^item> \<open>events\<close>: the callbacks called so far, in order;
  \<^item> \<open>fault\<close>: set by an access outside of an array or through \<^verbatim>\<open>NULL\<close>, where C
    gives the program no further meaning. It is never cleared.
\<close>

record DRBCC_t =
  fd :: int
  send_toggle :: u32
  expected_recv_toggle :: u32
  escaped :: bool
  wait_for_ack :: bool
  wait_for_answer :: bool
  wait_for_stop_char :: bool
  wait_for_first_sync_ack :: bool
  sync_mode :: bool
  repeatCount :: nat
  session :: u32
  indClosesSession :: bool
  crc :: u16
  readbuf :: bytes
  writebuf :: bytes
  writepos :: nat
  bufstart :: nat
  bufend :: nat
  curFileIndex :: u32
  curFilelength :: u32
  curFilestart :: u32
  maxFilelength :: u32
  curFileType :: u32
  logtype :: bool
  flashAddr :: u32
  flashPos :: u32
  flashLen :: u32
  flashData :: "bytes option"
  start :: u32
  entries :: int
  logdata :: "bytes option"
  logindex :: nat
  logrest :: nat
  logpos :: u32
  logentry :: u8
  logwrapflag :: u8
  curFilename :: string
  ackTimeout :: timeval
  nextTimeout :: timeval
  resend :: timeval
  sendnext :: timeval
  state :: DRBCC_STATES_t
  magic :: u32
  prioQueue :: "DRBCC_MESSAGE_t list"
  secQueue :: "DRBCC_MESSAGE_t list"
  repeatMsg :: "DRBCC_MESSAGE_t option"
  cur_msg :: DRBCC_MESSAGE_t
  cbs :: "callback \<Rightarrow> bool"
  last_error :: DRBCC_RC_t
  libdrbcc_initialized :: bool
  drbcc_session :: u32
  retry :: bool
  session_out :: u32
  heap :: "nat \<Rightarrow> (nat \<Rightarrow> u8) option"
  mallocs :: nat
  clock :: "nat \<Rightarrow> timeval"
  ticks :: nat
  rx :: "bytes list"
  tx :: "bytes list"
  stack :: "nat \<Rightarrow> int"
  fs :: "string \<Rightarrow> bytes option"
  ioplan :: "nat \<Rightarrow> int option"
  ios :: nat
  events :: "event list"
  fault :: bool

section \<open>The environment\<close>

definition drbcc_malloc :: "nat \<Rightarrow> DRBCC_t \<Rightarrow> bytes option \<times> DRBCC_t" where
  "drbcc_malloc n s =
     (map_option (\<lambda>junk. map junk [0..<n]) (heap s (mallocs s)), s\<lparr>mallocs := Suc (mallocs s)\<rparr>)"

definition drbcc_gettimeofday :: "DRBCC_t \<Rightarrow> timeval \<times> DRBCC_t" where
  "drbcc_gettimeofday s = (clock s (ticks s), s\<lparr>ticks := Suc (ticks s)\<rparr>)"

text \<open>A system call that wants to return \<open>n\<close>: it does, or it fails with \<open>-1\<close>, or returns
  less.\<close>

definition sys_call :: "nat \<Rightarrow> DRBCC_t \<Rightarrow> int \<times> DRBCC_t" where
  "sys_call n s =
     ((case ioplan s (ios s) of
         None \<Rightarrow> int n
       | Some r \<Rightarrow> if r < 0 then -1 else min r (int n)), s\<lparr>ios := Suc (ios s)\<rparr>)"

definition tty_write :: "bytes \<Rightarrow> DRBCC_t \<Rightarrow> int \<times> DRBCC_t" where
  "tty_write bs s =
     (let (res, s1) = sys_call (length bs) s in (res, s1\<lparr>tx := tx s1 @ [take (nat res) bs]\<rparr>))"

definition tty_read :: "nat \<Rightarrow> DRBCC_t \<Rightarrow> bytes \<times> DRBCC_t" where
  "tty_read n s =
     (case rx s of
        [] \<Rightarrow> ([], s)
      | c # cs \<Rightarrow>
          if length c \<le> n then (c, s\<lparr>rx := cs\<rparr>) else (take n c, s\<lparr>rx := drop n c # cs\<rparr>))"

text \<open>\<^verbatim>\<open>if (drbcc->x_cb) { drbcc->x_cb(...); }\<close>\<close>

definition call_cb :: "callback \<Rightarrow> event \<Rightarrow> DRBCC_t \<Rightarrow> DRBCC_t" where
  "call_cb c e s = (if cbs s c then s\<lparr>events := events s @ [e]\<rparr> else s)"

definition call_error_cb :: "string \<Rightarrow> DRBCC_t \<Rightarrow> DRBCC_t" where
  "call_error_cb t s = call_cb error_cb (Ev_error t) s"

text \<open>
  The three ways the sources end a session:
  \<^verbatim>\<open>if ((0 != session) && session_cb) { session_cb(..., ok); session = 0; }\<close>,
  \<^verbatim>\<open>if (session_cb) { session_cb(..., ok); session = 0; }\<close> and
  \<^verbatim>\<open>if (session_cb) { session_cb(..., ok); } session = 0;\<close>
\<close>

definition close_session :: "bool \<Rightarrow> DRBCC_t \<Rightarrow> DRBCC_t" where
  "close_session ok s =
     (if session s \<noteq> 0 \<and> cbs s session_cb
      then s\<lparr>events := events s @ [Ev_session (session s) ok], session := 0\<rparr> else s)"

definition report_session :: "bool \<Rightarrow> DRBCC_t \<Rightarrow> DRBCC_t" where
  "report_session ok s =
     (if cbs s session_cb
      then s\<lparr>events := events s @ [Ev_session (session s) ok], session := 0\<rparr> else s)"

definition end_session :: "bool \<Rightarrow> DRBCC_t \<Rightarrow> DRBCC_t" where
  "end_session ok s = (call_cb session_cb (Ev_session (session s) ok) s)\<lparr>session := 0\<rparr>"

text \<open>\<^verbatim>\<open>CHECK_HANDLE\<close>: the error it returns, if any. The handle is not \<^verbatim>\<open>NULL\<close>.\<close>

definition CHECK_HANDLE :: "DRBCC_t \<Rightarrow> DRBCC_RC_t option" where
  "CHECK_HANDLE s =
     (if \<not> libdrbcc_initialized s then Some DRBCC_RC_NOTINITIALIZED
      else if magic s \<noteq> 0xDAD1DADA then Some DRBCC_RC_INVALID_HANDLE else None)"

text \<open>A fresh message: \<^verbatim>\<open>msg_len\<close> set, the first bytes assigned, the others as the
  allocator left them.\<close>

definition new_msg :: "u8 \<Rightarrow> bytes \<Rightarrow> bytes \<Rightarrow> DRBCC_MESSAGE_t" where
  "new_msg n bs block = \<lparr>msg_len = n, msg = overwrite bs block\<rparr>"

lemma wf_new_msg:
  assumes "length block = DRBCC_MAX_PAYLOAD" and "length bs \<le> DRBCC_MAX_PAYLOAD"
    and "unat n \<le> DRBCC_MAX_MSG_LEN"
  shows "wf_msg (new_msg n bs block)"
  using assms by (simp add: wf_msg_def new_msg_def)

lemma payload_new_msg: "unat n = length bs \<Longrightarrow> payload (new_msg n bs block) = bs"
  by (simp add: payload_def new_msg_def)

lemma drbcc_malloc_length: "drbcc_malloc n s = (Some b, t) \<Longrightarrow> length b = n"
  by (auto simp: drbcc_malloc_def)

text \<open>A handle of zeroed memory with the buffers in place, in an environment where nothing
  fails: a starting point for concrete runs.\<close>

definition zero_msg :: DRBCC_MESSAGE_t where
  "zero_msg = \<lparr>msg_len = 0, msg = replicate DRBCC_MAX_PAYLOAD 0\<rparr>"

definition zero_handle :: DRBCC_t where
  "zero_handle =
     \<lparr>fd = 0, send_toggle = 0, expected_recv_toggle = 0, escaped = False, wait_for_ack = False,
      wait_for_answer = False, wait_for_stop_char = False, wait_for_first_sync_ack = False,
      sync_mode = False, repeatCount = 0, session = 0, indClosesSession = False, crc = 0,
      readbuf = replicate DRBCC_MAX_PAYLOAD 0, writebuf = replicate (2 * DRBCC_MAX_PAYLOAD) 0,
      writepos = 0, bufstart = 0, bufend = 0, curFileIndex = 0, curFilelength = 0,
      curFilestart = 0, maxFilelength = 0, curFileType = 0, logtype = False, flashAddr = 0,
      flashPos = 0, flashLen = 0, flashData = None, start = 0, entries = 0, logdata = None,
      logindex = 0, logrest = 0, logpos = 0, logentry = 0, logwrapflag = 0, curFilename = [],
      ackTimeout = Timeval 0 0, nextTimeout = Timeval 0 0, resend = Timeval 0 0,
      sendnext = Timeval 0 0, state = DRBCC_STATE_USER, magic = 0, prioQueue = [], secQueue = [],
      repeatMsg = None, cur_msg = zero_msg, cbs = (\<lambda>_. False), last_error = DRBCC_RC_NOERROR,
      libdrbcc_initialized = False, drbcc_session = 1, retry = False, session_out = 0,
      heap = (\<lambda>_. Some (\<lambda>_. 0)), mallocs = 0, clock = (\<lambda>_. Timeval 0 0), ticks = 0, rx = [],
      tx = [], stack = (\<lambda>_. 0), fs = (\<lambda>_. None), ioplan = (\<lambda>_. None), ios = 0, events = [], fault = False\<rparr>"

end
