(* ===== verification/Msg_Queue.thy ===== *)
theory Msg_Queue
  imports Handle
begin

text \<open>
  The two queues of outgoing messages. The C code keeps them as lists linked through the
  \<^verbatim>\<open>next\<close> field of the messages. \<open>add_msg_linked\<close> and \<open>free_queue_linked\<close> are the
  pointer programs over an explicit store; they are shown to append to, and to release, the
  list of messages the pointers represent. The rest of the development works on that list:
  \<open>libdrbcc_add_msg_prio\<close> and \<open>libdrbcc_add_msg_sec\<close>. The locale \<open>msg_fifo\<close> is the
  interface the clients of the queues rely on.
\<close>

section \<open>The queues as linked lists\<close>

text \<open>\<open>nxt\<close> is the \<^verbatim>\<open>next\<close> field of the message at an address, \<open>cell\<close> the message itself.\<close>

record msg_store =
  qhead :: "nat option"
  nxt :: "nat \<Rightarrow> nat option"
  cell :: "nat \<Rightarrow> DRBCC_MESSAGE_t"

text \<open>\<^verbatim>\<open>while (next->next != NULL) next = next->next;\<close>, which does not end on a cycle.\<close>

partial_function (option) last_cell :: "(nat \<Rightarrow> nat option) \<Rightarrow> nat \<Rightarrow> nat option" where
  "last_cell n p = (case n p of None \<Rightarrow> Some p | Some p' \<Rightarrow> last_cell n p')"

definition add_msg_linked :: "nat \<Rightarrow> msg_store \<Rightarrow> msg_store option" where
  "add_msg_linked a q =
     (case qhead q of
        None \<Rightarrow> Some (q\<lparr>qhead := Some a, nxt := (nxt q)(a := None)\<rparr>)
      | Some h \<Rightarrow>
          (case last_cell (nxt q) h of
             None \<Rightarrow> None
           | Some t \<Rightarrow> Some (q\<lparr>nxt := (nxt q)(t := Some a, a := None)\<rparr>)))"

text \<open>The addresses \<^verbatim>\<open>libdrbcc_free_queue\<close> releases, in order: the rest of the list first.\<close>

partial_function (option) free_queue_linked :: "(nat \<Rightarrow> nat option) \<Rightarrow> nat option \<Rightarrow> nat list option" where
  "free_queue_linked n p =
     (case p of
        None \<Rightarrow> Some []
      | Some a \<Rightarrow>
          (case n a of
             None \<Rightarrow> Some [a]
           | Some b \<Rightarrow>
               Option.bind (free_queue_linked n (Some b)) (\<lambda>as. Some (as @ [a]))))"

text \<open>The addresses a pointer reaches.\<close>

fun chain :: "(nat \<Rightarrow> nat option) \<Rightarrow> nat option \<Rightarrow> nat list \<Rightarrow> bool" where
  "chain n p [] = (p = None)"
| "chain n p (a # as) = (p = Some a \<and> chain n (n a) as)"

definition queue_at :: "msg_store \<Rightarrow> nat list \<Rightarrow> bool" where
  "queue_at q as = chain (nxt q) (qhead q) as"

definition queue_abs :: "msg_store \<Rightarrow> nat list \<Rightarrow> DRBCC_MESSAGE_t list" where
  "queue_abs q as = map (cell q) as"

lemma chain_unique: "chain n p as \<Longrightarrow> chain n p bs \<Longrightarrow> as = bs"
proof (induction as arbitrary: p bs)
  case Nil
  then show ?case by (cases bs) auto
next
  case (Cons a as)
  then show ?case by (cases bs) auto
qed

lemma chain_appendD: "chain n p (us @ a # vs) \<Longrightarrow> chain n (Some a) (a # vs)"
  by (induction us arbitrary: p) auto

lemma chain_distinct: "chain n p as \<Longrightarrow> distinct as"
proof (induction as arbitrary: p)
  case (Cons a as)
  have "a \<notin> set as"
  proof
    assume "a \<in> set as"
    then obtain us vs where as: "as = us @ a # vs" by (meson split_list)
    with Cons.prems have "chain n (Some a) (a # vs)" by (auto dest: chain_appendD)
    moreover from Cons.prems have "chain n (Some a) (a # as)" by auto
    ultimately have "vs = as" by (auto dest: chain_unique)
    with as show False by simp
  qed
  with Cons show ?case by auto
qed simp

lemma chain_fun_upd: "a \<notin> set as \<Longrightarrow> chain (n(a := x)) p as = chain n p as"
  by (induction as arbitrary: p) auto

lemma last_cell_chain: "chain n (Some h) as \<Longrightarrow> last_cell n h = Some (last as)"
proof (induction as arbitrary: h)
  case (Cons a as)
  then show ?case
    by (cases as) (auto simp: last_cell.simps [of n a])
qed simp

lemma chain_snoc:
  assumes "chain n (Some h) as" and "b \<notin> set as"
  shows "chain (n(last as := Some b, b := None)) (Some h) (as @ [b])"
  using assms
proof (induction as arbitrary: h)
  case (Cons a as)
  show ?case
  proof (cases as)
    case Nil
    with Cons.prems show ?thesis by auto
  next
    case (Cons c cs)
    have "a \<noteq> last as" "a \<noteq> b"
      using chain_distinct [OF Cons.prems(1)] Cons Cons.prems(2) by auto
    moreover have "chain n (Some c) as" "n a = Some c" "a = h"
      using Cons.prems Cons by auto
    moreover from this have "chain (n(last as := Some b, b := None)) (Some c) (as @ [b])"
      using Cons.IH [of c] Cons.prems(2) by (simp del: fun_upd_apply)
    moreover have "last (a # as) = last as" using Cons by simp
    ultimately show ?thesis by (simp add: fun_upd_other del: fun_upd_apply last.simps)
  qed
qed simp

lemma add_msg_linked_append:
  assumes "queue_at q as" and "b \<notin> set as"
  shows "\<exists>q'. add_msg_linked b q = Some q' \<and> queue_at q' (as @ [b]) \<and> cell q' = cell q"
proof (cases as)
  case Nil
  with assms show ?thesis by (simp add: add_msg_linked_def queue_at_def)
next
  case (Cons a as')
  with assms(1) have h: "qhead q = Some a" and c: "chain (nxt q) (Some a) as"
    by (auto simp: queue_at_def)
  from chain_snoc [OF c assms(2)] show ?thesis
    by (simp add: add_msg_linked_def queue_at_def h last_cell_chain [OF c])
qed

lemma free_queue_linked_rev: "chain n p as \<Longrightarrow> free_queue_linked n p = Some (rev as)"
proof (induction as arbitrary: p)
  case Nil
  then show ?case by (simp add: free_queue_linked.simps)
next
  case (Cons a as)
  then have p: "p = Some a" and c: "chain n (n a) as" by auto
  show ?case
  proof (cases "n a")
    case None
    with c have "as = []" by (cases as) auto
    with p None show ?thesis by (simp add: free_queue_linked.simps)
  next
    case (Some b)
    with Cons.IH [OF c] p show ?thesis by (simp add: free_queue_linked.simps [of n "Some a"])
  qed
qed

section \<open>The queues as lists\<close>

definition libdrbcc_add_msg_prio :: "DRBCC_MESSAGE_t \<Rightarrow> DRBCC_t \<Rightarrow> DRBCC_t" where
  "libdrbcc_add_msg_prio m s = s\<lparr>prioQueue := prioQueue s @ [m]\<rparr>"

definition libdrbcc_add_msg_sec :: "DRBCC_MESSAGE_t \<Rightarrow> DRBCC_t \<Rightarrow> DRBCC_t" where
  "libdrbcc_add_msg_sec m s = s\<lparr>secQueue := secQueue s @ [m]\<rparr>"

text \<open>
  What the clients of a queue use: messages come out in the order they went in, whatever
  else is done to the state in between.
\<close>

locale msg_fifo =
  fixes add :: "'m \<Rightarrow> 's \<Rightarrow> 's"
    and contents :: "'s \<Rightarrow> 'm list"
  assumes contents_add: "contents (add m s) = contents s @ [m]"
begin

lemma contents_fold: "contents (fold add ms s) = contents s @ ms"
  by (induction ms arbitrary: s) (simp_all add: contents_add)

lemma contents_nonempty: "contents (add m s) \<noteq> []"
  by (simp add: contents_add)

lemma head_stays: "contents s \<noteq> [] \<Longrightarrow> hd (contents (fold add ms s)) = hd (contents s)"
  by (simp add: contents_fold)

end

interpretation prio: msg_fifo libdrbcc_add_msg_prio prioQueue
  by unfold_locales (simp add: libdrbcc_add_msg_prio_def)

interpretation sec: msg_fifo libdrbcc_add_msg_sec secQueue
  by unfold_locales (simp add: libdrbcc_add_msg_sec_def)

text \<open>C37. The linked queue refines the list: for a message that is not yet in the queue the
  pointer program returns (the walk to the last message ends), and the messages the pointers
  then represent are the old ones followed by the new one, which is what
  \<^const>\<open>libdrbcc_add_msg_sec\<close> does to the list in the handle.\<close>

theorem queue_refinement:
  assumes "queue_at q as" and "b \<notin> set as" and "secQueue s = queue_abs q as"
  shows "\<exists>q'. add_msg_linked b q = Some q' \<and> queue_at q' (as @ [b]) \<and>
    secQueue (libdrbcc_add_msg_sec (cell q b) s) = queue_abs q' (as @ [b])"
  using add_msg_linked_append [OF assms(1,2)] assms(3)
  by (auto simp: sec.contents_add queue_abs_def)

text \<open>C38. Freeing a queue ends and releases every message of it exactly once.\<close>

theorem free_queue_once:
  assumes "queue_at q as"
  shows "\<exists>freed. free_queue_linked (nxt q) (qhead q) = Some freed \<and> distinct freed \<and>
    set freed = set as"
  using assms free_queue_linked_rev chain_distinct unfolding queue_at_def by fastforce

theorem queue_refinement_witness:
  "let q = \<lparr>qhead = Some 7, nxt = [7 \<mapsto> 3], cell = (\<lambda>a. \<lparr>msg_len = of_nat a, msg = []\<rparr>)\<rparr>
   in \<exists>q'. add_msg_linked 5 q = Some q' \<and> queue_at q' [7, 3, 5] \<and>
        secQueue (libdrbcc_add_msg_sec (cell q 5) (zero_handle\<lparr>secQueue := queue_abs q [7, 3]\<rparr>)) =
          queue_abs q' [7, 3, 5]"
  using queue_refinement [of "\<lparr>qhead = Some 7, nxt = [7 \<mapsto> 3],
      cell = (\<lambda>a. \<lparr>msg_len = of_nat a, msg = []\<rparr>)\<rparr>" "[7, 3]" 5]
  by (simp add: queue_at_def Let_def)

theorem free_queue_once_witness:
  "\<exists>freed. free_queue_linked [7 \<mapsto> 3] (Some 7) = Some freed \<and> distinct freed \<and> set freed = {7, 3}"
  using free_queue_once [of "\<lparr>qhead = Some 7, nxt = [7 \<mapsto> 3], cell = (\<lambda>_. zero_msg)\<rparr>" "[7, 3]"]
  by (simp add: queue_at_def)

end
