(* ===== verification/Framing.thy ===== *)
theory Framing
  imports Checksum Msg_Queue
begin

text \<open>
  The sending half of the link, \<^verbatim>\<open>libdrbcc_usart_send_byte\<close> to
  \<^verbatim>\<open>libdrbcc_send_message\<close> of \<^verbatim>\<open>drbcc.c\<close>: a message becomes a start byte, its
  bytes and their checksum with the three control bytes escaped, and a stop byte. The bytes
  are collected in \<^verbatim>\<open>writebuf\<close> and written at once. The lemmas show that the buffer is
  large enough for every well formed message and that the bytes written are \<open>frame\<close> of the
  payload.
\<close>

section \<open>Definitions\<close>

abbreviation cmd_bits :: "u8 \<Rightarrow> u8" where
  "cmd_bits b \<equiv> b AND NOT TOGGLE_BITMASK"

definition libdrbcc_usart_send_byte :: "u8 \<Rightarrow> bool \<Rightarrow> DRBCC_t \<Rightarrow> DRBCC_RC_t \<times> DRBCC_t" where
  "libdrbcc_usart_send_byte b flush s =
     (let s1 = (if writepos s < length (writebuf s)
                then s\<lparr>writebuf := (writebuf s)[writepos s := b]\<rparr> else s\<lparr>fault := True\<rparr>);
          s2 = s1\<lparr>writepos := writepos s1 + 1\<rparr>
      in if flush
         then let (res, s3) = tty_write (take (writepos s2) (writebuf s2)) s2;
                  rc = (if res \<noteq> int (writepos s2) then DRBCC_RC_SYSTEM_ERROR else DRBCC_RC_NOERROR)
              in (rc, s3\<lparr>writepos := 0\<rparr>)
         else (DRBCC_RC_NOERROR, s2))"

definition libdrbcc_usart_send_esc_byte :: "u8 \<Rightarrow> DRBCC_t \<Rightarrow> DRBCC_RC_t \<times> DRBCC_t" where
  "libdrbcc_usart_send_esc_byte b s =
     (if DRBCC_START_CHAR = b \<or> DRBCC_STOP_CHAR = b \<or> DRBCC_ESC_CHAR = b
      then libdrbcc_usart_send_byte (NOT b) False
             (snd (libdrbcc_usart_send_byte DRBCC_ESC_CHAR False s))
      else libdrbcc_usart_send_byte b False s)"

text \<open>The loop of \<^verbatim>\<open>libdrbcc_send_message\<close> over the bytes of the message.\<close>

fun send_bytes :: "bytes \<Rightarrow> u16 \<Rightarrow> DRBCC_t \<Rightarrow> u16 \<times> DRBCC_t" where
  "send_bytes [] c s = (c, s)"
| "send_bytes (b # bs) c s =
     send_bytes bs (libdrbcc_crc_ccitt_update c b) (snd (libdrbcc_usart_send_esc_byte b s))"

definition set_toggle :: "DRBCC_MESSAGE_t \<Rightarrow> DRBCC_MESSAGE_t" where
  "set_toggle m = m\<lparr>msg := (msg m)[0 := msg m ! 0 OR TOGGLE_BITMASK]\<rparr>"

text \<open>The toggle bit of the message and, for a \<^const>\<open>DRBCC_SYNC\<close>, the toggles of the handle.\<close>

definition stamp_toggle :: "DRBCC_MESSAGE_t \<Rightarrow> DRBCC_t \<Rightarrow> DRBCC_MESSAGE_t \<times> DRBCC_t" where
  "stamp_toggle m s =
     (let m1 = (if cmd_bits (msg m ! 0) \<noteq> cmd DRBCC_ACK \<and> send_toggle s \<noteq> 0 then set_toggle m else m)
      in if cmd_bits (msg m1 ! 0) = cmd DRBCC_SYNC
         then (set_toggle m1, s\<lparr>send_toggle := -1, expected_recv_toggle := 0\<rparr>)
         else (m1, s))"

text \<open>The result carries the message as well: the code sets its toggle bit in place.\<close>

definition libdrbcc_send_message ::
    "DRBCC_MESSAGE_t \<Rightarrow> DRBCC_t \<Rightarrow> DRBCC_RC_t \<times> DRBCC_MESSAGE_t \<times> DRBCC_t" where
  "libdrbcc_send_message m s =
     (let s1 = snd (libdrbcc_usart_send_byte DRBCC_START_CHAR False s);
          (m1, s2) =
            (if 0 < msg_len m
             then let (m1, t1) = stamp_toggle m s1;
                      t2 = (if unat (msg_len m1) \<le> length (msg m1) then t1 else t1\<lparr>fault := True\<rparr>);
                      (c, t3) = send_bytes (payload m1) 0xffff t2;
                      t4 = snd (libdrbcc_usart_send_esc_byte (ucast (c AND 0xff)) t3);
                      t5 = snd (libdrbcc_usart_send_esc_byte (ucast (drop_bit 8 c)) t4)
                  in (m1, t5)
             else (m, s1));
          (rc, s3) = libdrbcc_usart_send_byte DRBCC_STOP_CHAR True s2
      in if cmd_bits (msg m1 ! 0) \<noteq> cmd DRBCC_ACK
         then let (now, s4) = drbcc_gettimeofday s3
              in (rc, m1, s4\<lparr>resend := timeradd now (ackTimeout s4),
                             sendnext := timeradd now (nextTimeout s4)\<rparr>)
         else (rc, m1, s3))"

text \<open>The bytes of the local \<^verbatim>\<open>ack_msg\<close> after the first are never read.\<close>

definition libdrbcc_send_ack :: "DRBCC_MESSAGE_t \<Rightarrow> DRBCC_t \<Rightarrow> DRBCC_t" where
  "libdrbcc_send_ack response s =
     (let b = (if msg response ! 0 AND TOGGLE_BITMASK = TOGGLE_BITMASK
               then cmd DRBCC_ACK OR TOGGLE_BITMASK else cmd DRBCC_ACK)
      in snd (snd (libdrbcc_send_message
           \<lparr>msg_len = 1, msg = b # replicate (DRBCC_MAX_PAYLOAD - 1) 0\<rparr> s)))"

section \<open>The frame of a message\<close>

definition esc :: "u8 \<Rightarrow> bytes" where
  "esc b = (if b \<in> {DRBCC_START_CHAR, DRBCC_STOP_CHAR, DRBCC_ESC_CHAR}
            then [DRBCC_ESC_CHAR, NOT b] else [b])"

definition with_crc :: "bytes \<Rightarrow> bytes" where
  "with_crc bs = bs @ [lo8 (crc_ccitt bs), ucast (hi8 (crc_ccitt bs))]"

definition frame :: "bytes \<Rightarrow> bytes" where
  "frame bs = DRBCC_START_CHAR # concat (map esc (with_crc bs)) @ [DRBCC_STOP_CHAR]"

lemma length_esc: "length (esc b) \<le> 2"
  by (simp add: esc_def)

lemma length_concat_esc: "length (concat (map esc bs)) \<le> 2 * length bs"
proof (induction bs)
  case (Cons b bs)
  then show ?case using length_esc [of b] by simp
qed simp

lemma length_frame: "length (frame bs) \<le> 2 * length bs + 6"
  using length_concat_esc [of "with_crc bs"] by (simp add: frame_def with_crc_def)

text \<open>The effect of bytes that are put into \<^const>\<open>writebuf\<close> and not yet written.\<close>

definition buffered :: "bytes \<Rightarrow> DRBCC_t \<Rightarrow> DRBCC_t" where
  "buffered bs s = s\<lparr>
     writebuf := take (writepos s) (writebuf s) @ bs @ drop (writepos s + length bs) (writebuf s),
     writepos := writepos s + length bs\<rparr>"

definition room :: "nat \<Rightarrow> DRBCC_t \<Rightarrow> bool" where
  "room n s \<longleftrightarrow> writepos s + n \<le> length (writebuf s)"

lemma room_mono: "room n s \<Longrightarrow> k \<le> n \<Longrightarrow> room k s"
  by (simp add: room_def)

lemma buffered_Nil [simp]: "room 0 s \<Longrightarrow> buffered [] s = s"
  by (simp add: buffered_def room_def)

lemma room_buffered: "room (length bs + n) s \<Longrightarrow> room n (buffered bs s)"
  by (simp add: room_def buffered_def)

lemma buffered_buffered:
  assumes "room (length as + length bs) s"
  shows "buffered bs (buffered as s) = buffered (as @ bs) s"
  using assms by (simp add: room_def buffered_def ac_simps)

lemma send_byte_buffered:
  assumes "room 1 s"
  shows "libdrbcc_usart_send_byte b False s = (DRBCC_RC_NOERROR, buffered [b] s)"
proof -
  have "writepos s < length (writebuf s)" using assms by (simp add: room_def)
  then show ?thesis
    by (simp add: libdrbcc_usart_send_byte_def buffered_def upd_conv_take_nth_drop)
qed

lemma send_esc_byte_buffered:
  assumes "room 2 s"
  shows "libdrbcc_usart_send_esc_byte b s = (DRBCC_RC_NOERROR, buffered (esc b) s)"
proof -
  have "room 1 s" "room 1 (buffered [DRBCC_ESC_CHAR] s)"
    using assms by (auto simp: room_def buffered_def)
  then show ?thesis using assms
    by (auto simp: libdrbcc_usart_send_esc_byte_def esc_def send_byte_buffered buffered_buffered numeral_2_eq_2)
qed

lemma send_bytes_buffered:
  assumes "room (2 * length bs) s"
  shows "send_bytes bs c s = (foldl libdrbcc_crc_ccitt_update c bs, buffered (concat (map esc bs)) s)"
  using assms
proof (induction bs arbitrary: c s)
  case (Cons b bs)
  have r: "room (length (esc b) + 2 * length bs) s"
    by (rule room_mono [OF Cons.prems]) (use length_esc [of b] in simp)
  have "room (length (esc b) + length (concat (map esc bs))) s"
    by (rule room_mono [OF r]) (use length_concat_esc [of bs] in simp)
  moreover have "room 2 s"
    by (rule room_mono [OF Cons.prems]) simp
  ultimately show ?case
    using Cons.IH [OF room_buffered [OF r]]
    by (simp add: send_esc_byte_buffered buffered_buffered)
qed simp

section \<open>Sending a message\<close>

text \<open>What the write of a complete frame leaves: \<open>wb\<close> is the contents of
  \<^const>\<open>writebuf\<close>, which the next message overwrites.\<close>

definition wire_result :: "nat \<Rightarrow> DRBCC_t \<Rightarrow> int" where
  "wire_result n s = fst (sys_call n s)"

definition transmit :: "bytes \<Rightarrow> bytes \<Rightarrow> DRBCC_t \<Rightarrow> DRBCC_t" where
  "transmit wb bs s = s\<lparr>writebuf := wb, writepos := 0, ios := Suc (ios s),
     tx := tx s @ [take (nat (wire_result (length bs) s)) bs]\<rparr>"

definition arm_timers :: "DRBCC_t \<Rightarrow> DRBCC_t" where
  "arm_timers s = s\<lparr>ticks := Suc (ticks s),
     resend := timeradd (clock s (ticks s)) (ackTimeout s),
     sendnext := timeradd (clock s (ticks s)) (nextTimeout s)\<rparr>"

lemma tty_write_eq:
  "tty_write bs s = (wire_result (length bs) s,
     s\<lparr>ios := Suc (ios s), tx := tx s @ [take (nat (wire_result (length bs) s)) bs]\<rparr>)"
  by (simp add: tty_write_def wire_result_def sys_call_def)

lemma wire_result_frame [frame_simps]:
  "wire_result n (s\<lparr>writebuf := wb\<rparr>) = wire_result n s"
  "wire_result n (s\<lparr>writepos := p\<rparr>) = wire_result n s"
  "wire_result n (s\<lparr>send_toggle := t\<rparr>) = wire_result n s"
  "wire_result n (s\<lparr>expected_recv_toggle := t\<rparr>) = wire_result n s"
  by (simp_all add: wire_result_def sys_call_def)

lemma send_byte_flush:
  assumes "room 1 s"
  shows "\<exists>wb. length wb = length (writebuf s) \<and>
    libdrbcc_usart_send_byte b True s =
      (let bs = take (writepos s) (writebuf s) @ [b]
       in (if wire_result (length bs) s \<noteq> int (length bs) then DRBCC_RC_SYSTEM_ERROR else DRBCC_RC_NOERROR,
           transmit wb bs s))"
proof -
  have w: "writepos s < length (writebuf s)" using assms by (simp add: room_def)
  let ?W = "(writebuf s)[writepos s := b]"
  have t: "take (writepos s) (writebuf s) @ [b] = take (Suc (writepos s)) ?W"
    using w by (simp add: take_list_update_end)
  show ?thesis unfolding t
    by (rule exI [of _ ?W])
      (use w in \<open>simp add: libdrbcc_usart_send_byte_def tty_write_eq frame_simps transmit_def Let_def\<close>)
qed

lemma stamp_toggle_cases:
  "snd (stamp_toggle m s) = s \<or>
   snd (stamp_toggle m s) = s\<lparr>send_toggle := -1, expected_recv_toggle := 0\<rparr>"
  by (simp add: stamp_toggle_def Let_def)

lemma stamp_toggle_buffered:
  "stamp_toggle m (buffered bs s) =
     (fst (stamp_toggle m s), buffered bs (snd (stamp_toggle m s)))"
  by (simp add: stamp_toggle_def buffered_def Let_def)

lemma msg_len_stamp_toggle [simp]: "msg_len (fst (stamp_toggle m s)) = msg_len m"
  by (simp add: stamp_toggle_def set_toggle_def Let_def)

lemma length_msg_stamp_toggle [simp]: "length (msg (fst (stamp_toggle m s))) = length (msg m)"
  by (simp add: stamp_toggle_def set_toggle_def Let_def)

lemma wf_stamp_toggle [simp]: "wf_msg (fst (stamp_toggle m s)) = wf_msg m"
  by (simp add: wf_msg_def)

lemma length_payload: "wf_msg m \<Longrightarrow> length (payload m) = unat (msg_len m)"
  by (simp add: wf_msg_def payload_def)

lemma take_buffered [simp]:
  "writepos s = 0 \<Longrightarrow> take (writepos (buffered bs s)) (writebuf (buffered bs s)) = bs"
  by (simp add: buffered_def)

lemma length_writebuf_buffered:
  "room (length bs) s \<Longrightarrow> length (writebuf (buffered bs s)) = length (writebuf s)"
  by (simp add: buffered_def room_def)

lemma transmit_buffered [simp]: "transmit wb bs (buffered cs s) = transmit wb bs s"
  by (simp add: transmit_def buffered_def frame_simps)

text \<open>A payload of a well formed message, with its checksum, fills \<^const>\<open>writebuf\<close> up to
  the stop byte.\<close>

lemma send_payload_buffered:
  assumes bs: "length bs \<le> DRBCC_MAX_MSG_LEN"
    and buf: "writepos s = 0" "length (writebuf s) = 2 * DRBCC_MAX_PAYLOAD"
    and sent: "send_bytes bs 0xffff (buffered [DRBCC_START_CHAR] s) = (c, t)"
  shows "snd (libdrbcc_usart_send_esc_byte (ucast (drop_bit 8 c))
      (snd (libdrbcc_usart_send_esc_byte (ucast (c AND 0xff)) t))) = buffered (butlast (frame bs)) s"
    and "room (Suc (length (butlast (frame bs)))) s"
proof -
  let ?P = "DRBCC_START_CHAR # concat (map esc bs)"
  have r: "room n s \<longleftrightarrow> n \<le> 290" for n using buf by (simp add: room_def)
  have P: "length ?P \<le> 281" using length_concat_esc [of bs] bs by simp
  have "room (2 * length bs) (buffered [DRBCC_START_CHAR] s)"
    by (rule room_buffered) (use bs in \<open>simp add: r\<close>)
  with sent have c: "c = crc_ccitt bs" and t: "t = buffered ?P s"
    using P by (simp_all add: send_bytes_buffered buffered_buffered r crc_ccitt_def)
  have F: "butlast (frame bs) = ?P @ esc (lo8 c) @ esc (ucast (hi8 c))"
    by (simp add: frame_def with_crc_def butlast_append c)
  have rr: "room n (buffered ds s)" if "length ds + n \<le> 290" for n ds
    using that by (simp add: room_buffered r)
  show "snd (libdrbcc_usart_send_esc_byte (ucast (drop_bit 8 c))
      (snd (libdrbcc_usart_send_esc_byte (ucast (c AND 0xff)) t))) = buffered (butlast (frame bs)) s"
    using P length_esc [of "lo8 c"] length_esc [of "ucast (hi8 c)"]
    by (simp add: t F send_esc_byte_buffered rr r buffered_buffered lo8_def hi8_def)
  show "room (Suc (length (butlast (frame bs)))) s"
    unfolding F r using P length_esc [of "lo8 c"] length_esc [of "ucast (hi8 c)"] by simp
qed

lemma send_message_eq:
  assumes m: "wf_msg m" "0 < msg_len m"
    and buf: "writepos s = 0" "length (writebuf s) = 2 * DRBCC_MAX_PAYLOAD"
    and st: "stamp_toggle m s = (m1, s1)"
  shows "\<exists>rc wb. length wb = length (writebuf s) \<and>
    libdrbcc_send_message m s = (rc, m1,
      (if cmd_bits (msg m1 ! 0) \<noteq> cmd DRBCC_ACK then arm_timers else id)
        (transmit wb (frame (payload m1)) s1))"
proof -
  let ?F = "frame (payload m1)"
  have m1: "m1 = fst (stamp_toggle m s)" and s1: "s1 = snd (stamp_toggle m s)"
    using st by simp_all
  have wf: "wf_msg m1" and len: "msg_len m1 = msg_len m" using m by (simp_all add: m1)
  have buf1: "writepos s1 = 0" "length (writebuf s1) = 2 * DRBCC_MAX_PAYLOAD"
    using buf stamp_toggle_cases [of m s] by (auto simp: s1)
  obtain c t where t: "send_bytes (payload m1) 0xffff (buffered [DRBCC_START_CHAR] s1) = (c, t)"
    by fastforce
  have "length (payload m1) \<le> DRBCC_MAX_MSG_LEN"
    using wf length_payload [OF wf] by (simp add: wf_msg_def)
  note sent = send_payload_buffered [OF this buf1 t]
  obtain wb where wb: "length wb = length (writebuf (buffered (butlast ?F) s1))"
    "libdrbcc_usart_send_byte DRBCC_STOP_CHAR True (buffered (butlast ?F) s1) =
      (if wire_result (length ?F) (buffered (butlast ?F) s1) \<noteq> int (length ?F)
       then DRBCC_RC_SYSTEM_ERROR else DRBCC_RC_NOERROR, transmit wb ?F (buffered (butlast ?F) s1))"
    using send_byte_flush [OF room_buffered, of "butlast ?F" s1 DRBCC_STOP_CHAR] sent(2) buf1
    by (force simp: frame_def butlast_append)
  have "length wb = length (writebuf s)"
    using wb(1) sent(2) buf buf1 by (simp add: length_writebuf_buffered room_mono)
  moreover have "libdrbcc_usart_send_byte DRBCC_START_CHAR False s =
      (DRBCC_RC_NOERROR, buffered [DRBCC_START_CHAR] s)"
    using buf by (simp add: send_byte_buffered room_def)
  ultimately show ?thesis
    using t sent(1) wb(2) m wf len
    by (auto simp: libdrbcc_send_message_def stamp_toggle_buffered st wf_msg_def Let_def
      drbcc_gettimeofday_def arm_timers_def)
qed

end
