(* ===== verification/Rtc_Codec.thy ===== *)
theory Rtc_Codec
  imports Handle "HOL-Library.Signed_Division"
begin

text \<open>
  The clock messages: binary coded decimals (\<^verbatim>\<open>bin2bcd\<close> of \<^verbatim>\<open>drbcc_utils.c\<close>,
  \<^verbatim>\<open>bcd2bin\<close> of \<^verbatim>\<open>drbcc.c\<close>), the seven register bytes \<^verbatim>\<open>drbcc_set_rtc\<close> builds
  from a \<^verbatim>\<open>struct tm\<close> and the \<^verbatim>\<open>struct tm\<close> the handler of
  \<^const>\<open>DRBCC_IND_RTC_READ\<close> builds from such bytes.
\<close>

definition bin2bcd :: "u8 \<Rightarrow> u8" where
  "bin2bcd data = push_bit 4 (data div 10) + data mod 10"

definition bcd2bin :: "u8 \<Rightarrow> u8" where
  "bcd2bin data = drop_bit 4 data * 10 + (data AND 0xF)"

text \<open>\<^verbatim>\<open>msg[1]\<close> to \<^verbatim>\<open>msg[7]\<close>; the arguments of \<^verbatim>\<open>bin2bcd\<close> are cut to a byte, and
  \<^verbatim>\<open>%\<close> of a negative year is negative.\<close>

definition rtc_encode :: "tm \<Rightarrow> bytes" where
  "rtc_encode t =
     (let mon = bin2bcd (word_of_int (tm_mon t + 1)) in
      [bin2bcd (word_of_int (tm_sec t)),
       bin2bcd (word_of_int (tm_min t)),
       bin2bcd (word_of_int (tm_hour t)),
       bin2bcd (word_of_int (tm_wday t + 1)),
       bin2bcd (word_of_int (tm_mday t)),
       if tm_year t > 199 then mon OR 0x80 else mon,
       bin2bcd (word_of_int (tm_year t smod 100))])"

definition rtc_decode :: "bytes \<Rightarrow> tm" where
  "rtc_decode bs =
     \<lparr>tm_sec = uint (bcd2bin (bs ! 0)),
      tm_min = uint (bcd2bin (bs ! 1)),
      tm_hour = uint (bcd2bin (bs ! 2 AND 0x3f)),
      tm_mday = uint (bcd2bin (bs ! 4)),
      tm_mon = uint (bcd2bin (bs ! 5 AND 0x1f)) - 1,
      tm_year = uint (bcd2bin (bs ! 6)) + 100 + (if bs ! 5 AND 0x80 \<noteq> 0 then 100 else 0),
      tm_wday = uint (bcd2bin (bs ! 3)) - 1,
      tm_yday = 0,
      tm_isdst = 0\<rparr>"

text \<open>The times the clock chip can hold: the calendar ranges of \<^verbatim>\<open>struct tm\<close>, in the years
  2000 to 2199, with the fields the chip does not know zero.\<close>

definition rtc_time :: "tm \<Rightarrow> bool" where
  "rtc_time t \<longleftrightarrow> 0 \<le> tm_sec t \<and> tm_sec t \<le> 60 \<and> 0 \<le> tm_min t \<and> tm_min t \<le> 59 \<and>
     0 \<le> tm_hour t \<and> tm_hour t \<le> 23 \<and> 0 \<le> tm_wday t \<and> tm_wday t \<le> 6 \<and>
     1 \<le> tm_mday t \<and> tm_mday t \<le> 31 \<and> 0 \<le> tm_mon t \<and> tm_mon t \<le> 11 \<and>
     100 \<le> tm_year t \<and> tm_year t \<le> 299 \<and> tm_yday t = 0 \<and> tm_isdst t = 0"

lemma bcd_bytes:
  "\<forall>n\<in>set [0..<100]. uint (bcd2bin (bin2bcd (word_of_int (int n)))) = int n"
  by code_simp

lemma bcd_hour:
  "\<forall>n\<in>set [0..<40]. bin2bcd (word_of_int (int n)) AND 0x3f = bin2bcd (word_of_int (int n))"
  by code_simp

lemma bcd_month:
  "\<forall>n\<in>set [0..<20]. let b = bin2bcd (word_of_int (int n)) in
     b AND 0x1f = b \<and> (b OR 0x80) AND 0x1f = b \<and> b AND 0x80 = 0 \<and> (b OR 0x80) AND 0x80 \<noteq> 0"
  by code_simp

lemma bcd_roundtrip:
  "0 \<le> i \<Longrightarrow> i < 100 \<Longrightarrow> uint (bcd2bin (bin2bcd (word_of_int i))) = i"
  using bcd_bytes by (auto dest!: bspec [of _ _ "nat i"])

lemma bcd_hour_mask:
  "0 \<le> i \<Longrightarrow> i < 40 \<Longrightarrow> bin2bcd (word_of_int i) AND 0x3f = bin2bcd (word_of_int i)"
  using bcd_hour by (auto dest!: bspec [of _ _ "nat i"])

lemma bcd_month_mask:
  assumes "0 \<le> i" "i < 20"
  shows "bin2bcd (word_of_int i) AND 0x1f = bin2bcd (word_of_int i)"
    "(bin2bcd (word_of_int i) OR 0x80) AND 0x1f = bin2bcd (word_of_int i)"
    "bin2bcd (word_of_int i) AND 0x80 = 0"
    "(bin2bcd (word_of_int i) OR 0x80) AND 0x80 \<noteq> 0"
  using assms bcd_month by (auto simp: Let_def dest!: bspec [of _ _ "nat i"])

lemma length_rtc_encode [simp]: "length (rtc_encode t) = 7"
  by (simp add: rtc_encode_def Let_def)

lemma smod_year:
  "100 \<le> y \<Longrightarrow> y \<le> 299 \<Longrightarrow> y smod (100 :: int) = (if y > 199 then y - 200 else y - 100)"
  by (auto simp: signed_modulo_int_def signed_divide_int_def; presburger)

text \<open>C39. Setting the clock and reading it back gives the same time, for every time of the
  years 2000 to 2199.\<close>

theorem rtc_roundtrip: "rtc_time t \<Longrightarrow> rtc_decode (rtc_encode t) = t"
  by (cases t) (auto simp: rtc_time_def rtc_decode_def rtc_encode_def Let_def nth_Cons'
    bcd_roundtrip bcd_hour_mask bcd_month_mask smod_year simp del: of_int_add of_int_diff)

theorem rtc_roundtrip_witness:
  "let t = \<lparr>tm_sec = 59, tm_min = 7, tm_hour = 23, tm_mday = 31, tm_mon = 11, tm_year = 225,
     tm_wday = 6, tm_yday = 0, tm_isdst = 0\<rparr> in rtc_time t \<and> rtc_decode (rtc_encode t) = t"
  using rtc_roundtrip [of "\<lparr>tm_sec = 59, tm_min = 7, tm_hour = 23, tm_mday = 31, tm_mon = 11,
    tm_year = 225, tm_wday = 6, tm_yday = 0, tm_isdst = 0\<rparr>"]
  by (simp add: rtc_time_def)

end
