(* ===== verification/Requests.thy ===== *)
theory Requests
  imports Framing Rtc_Codec
begin

text \<open>
  The request functions of \<^verbatim>\<open>drbcc_utils.c\<close>. All of them check the handle, refuse while
  a session is open, build one message and open a session for the caller. That common body
  is \<open>prio_request\<close>; the locale \<open>request_op\<close> states the contract a caller relies on, and
  every request function is an interpretation of it. The registration of callbacks is here too.
\<close>

section \<open>The common body of a request\<close>

text \<open>The message part of \<^verbatim>\<open>malloc(sizeof(DRBCC_MESSAGE_t))\<close>.\<close>

definition alloc_msg :: "DRBCC_t \<Rightarrow> bytes option \<times> DRBCC_t" where
  "alloc_msg s = drbcc_malloc DRBCC_MAX_PAYLOAD s"

text \<open>\<open>sess\<close>: the caller passes a pointer for the session number. \<open>closes\<close>: the request sets
  \<^const>\<open>indClosesSession\<close>.\<close>

definition open_session :: "bool \<Rightarrow> bool \<Rightarrow> DRBCC_t \<Rightarrow> DRBCC_t" where
  "open_session closes sess s =
     (if sess \<and> cbs s session_cb
      then s\<lparr>session := drbcc_session s, session_out := drbcc_session s,
             drbcc_session := drbcc_session s + 1,
             indClosesSession := (closes \<or> indClosesSession s)\<rparr>
      else s)"

definition prio_request :: "bytes \<Rightarrow> bool \<Rightarrow> bool \<Rightarrow> DRBCC_t \<Rightarrow> DRBCC_RC_t \<times> DRBCC_t" where
  "prio_request bs closes sess s =
     (case CHECK_HANDLE s of
        Some e \<Rightarrow> (e, s)
      | None \<Rightarrow>
          if session s \<noteq> 0 then (DRBCC_RC_SESSIONACTIVE, s)
          else (case alloc_msg (s\<lparr>state := DRBCC_STATE_USER\<rparr>) of
                  (Some block, s1) \<Rightarrow>
                    (DRBCC_RC_NOERROR, open_session closes sess
                       (libdrbcc_add_msg_prio (new_msg (of_nat (length bs)) bs block) s1))
                | (None, s1) \<Rightarrow> (DRBCC_RC_OUTOFMEMORY, s1)))"

text \<open>\<^verbatim>\<open>(uint8_t) ((x >> k) & 0xFF)\<close>\<close>

definition byte_of :: "nat \<Rightarrow> u32 \<Rightarrow> u8" where
  "byte_of k x = ucast (drop_bit k x AND 0xFF)"

section \<open>The request functions\<close>

definition drbcc_session_activ :: "DRBCC_t \<Rightarrow> DRBCC_RC_t" where
  "drbcc_session_activ s =
     (case CHECK_HANDLE s of
        Some e \<Rightarrow> e
      | None \<Rightarrow> if session s \<noteq> 0 then DRBCC_RC_SESSIONACTIVE else DRBCC_RC_NOERROR)"

definition drbcc_sync :: "bool \<Rightarrow> DRBCC_t \<Rightarrow> DRBCC_RC_t \<times> DRBCC_t" where
  "drbcc_sync sess = prio_request [cmd DRBCC_SYNC] False sess"

definition drbcc_req_protocol :: "bool \<Rightarrow> DRBCC_t \<Rightarrow> DRBCC_RC_t \<times> DRBCC_t" where
  "drbcc_req_protocol sess = prio_request [cmd DRBCC_CMD_REQ_PROTOCOL_VERSION] False sess"

definition drbcc_req_rtc :: "bool \<Rightarrow> DRBCC_t \<Rightarrow> DRBCC_RC_t \<times> DRBCC_t" where
  "drbcc_req_rtc sess = prio_request [cmd DRBCC_REQ_RTC_READ] False sess"

definition drbcc_set_rtc :: "tm \<Rightarrow> bool \<Rightarrow> DRBCC_t \<Rightarrow> DRBCC_RC_t \<times> DRBCC_t" where
  "drbcc_set_rtc utctime sess = prio_request (cmd DRBCC_REQ_RTC_SET # rtc_encode utctime) False sess"

definition drbcc_heartbeat :: "u32 \<Rightarrow> bool \<Rightarrow> DRBCC_t \<Rightarrow> DRBCC_RC_t \<times> DRBCC_t" where
  "drbcc_heartbeat timeout sess = prio_request
     [cmd DRBCC_REQ_HEARTBEAT, byte_of 8 timeout, byte_of 0 timeout] False sess"

definition drbcc_shutdown :: "u32 \<Rightarrow> bool \<Rightarrow> DRBCC_t \<Rightarrow> DRBCC_RC_t \<times> DRBCC_t" where
  "drbcc_shutdown timeout sess = prio_request
     [cmd DRBCC_REQ_SHUTDOWN, byte_of 8 timeout, byte_of 0 timeout] False sess"

definition drbcc_set_gpo :: "u32 \<Rightarrow> u32 \<Rightarrow> bool \<Rightarrow> DRBCC_t \<Rightarrow> DRBCC_RC_t \<times> DRBCC_t" where
  "drbcc_set_gpo gpo onoff sess = prio_request [cmd DRBCC_REQ_SET_GPO, ucast gpo, ucast onoff] True sess"

definition drbcc_set_led :: "u32 \<Rightarrow> u32 \<Rightarrow> u32 \<Rightarrow> u32 \<Rightarrow> u32 \<Rightarrow> bool \<Rightarrow> DRBCC_t \<Rightarrow> DRBCC_RC_t \<times> DRBCC_t" where
  "drbcc_set_led num color on_time off_time phase sess = prio_request
     ([cmd DRBCC_REQ_SET_LED, ucast num, ucast color] @
       (if on_time \<noteq> 0 \<or> off_time \<noteq> 0 then [ucast on_time, ucast off_time, ucast phase] else [])) False sess"

definition drbcc_get_status :: "bool \<Rightarrow> DRBCC_t \<Rightarrow> DRBCC_RC_t \<times> DRBCC_t" where
  "drbcc_get_status sess = prio_request [cmd DRBCC_REQ_STATUS] True sess"

definition drbcc_get_id_data :: "bool \<Rightarrow> DRBCC_t \<Rightarrow> DRBCC_RC_t \<times> DRBCC_t" where
  "drbcc_get_id_data sess = prio_request [cmd DRBCC_REQ_ID_DATA] False sess"

definition drbcc_eject_hd :: "bool \<Rightarrow> DRBCC_t \<Rightarrow> DRBCC_RC_t \<times> DRBCC_t" where
  "drbcc_eject_hd sess = prio_request [cmd DRBCC_REQ_HD_EJECT] False sess"

definition drbcc_hd_power :: "u32 \<Rightarrow> bool \<Rightarrow> DRBCC_t \<Rightarrow> DRBCC_RC_t \<times> DRBCC_t" where
  "drbcc_hd_power onoff sess = prio_request [cmd DRBCC_REQ_HD_ONOFF, ucast (onoff AND 0xff)] True sess"

definition drbcc_gpi_power :: "u32 \<Rightarrow> bool \<Rightarrow> DRBCC_t \<Rightarrow> DRBCC_RC_t \<times> DRBCC_t" where
  "drbcc_gpi_power onoff sess = prio_request [cmd DRBCC_REQ_GPI_POWER, ucast (onoff AND 0xff)] True sess"

definition drbcc_req_flash_id :: "bool \<Rightarrow> DRBCC_t \<Rightarrow> DRBCC_RC_t \<times> DRBCC_t" where
  "drbcc_req_flash_id sess = prio_request [cmd DRBCC_REQ_EXTFLASH_ID] False sess"

definition drbcc_invalidate_bctrl_fw :: "bool \<Rightarrow> DRBCC_t \<Rightarrow> DRBCC_RC_t \<times> DRBCC_t" where
  "drbcc_invalidate_bctrl_fw sess = prio_request [cmd DRBCC_REQ_FW_INVALIDATE] False sess"

definition drbcc_restart_bctrl :: "u32 \<Rightarrow> bool \<Rightarrow> DRBCC_t \<Rightarrow> DRBCC_RC_t \<times> DRBCC_t" where
  "drbcc_restart_bctrl after sess = prio_request [cmd DRBCC_REQ_BCTRL_RESTART, ucast after] False sess"

definition drbcc_request_bootloader_update :: "bool \<Rightarrow> DRBCC_t \<Rightarrow> DRBCC_RC_t \<times> DRBCC_t" where
  "drbcc_request_bootloader_update sess = prio_request [cmd DRBCC_REQ_BL_UPDATE] False sess"

section \<open>Registering callbacks\<close>

definition register_cb :: "callback \<Rightarrow> bool \<Rightarrow> DRBCC_t \<Rightarrow> DRBCC_RC_t \<times> DRBCC_t" where
  "register_cb c cb s =
     (case CHECK_HANDLE s of
        Some e \<Rightarrow> (e, s)
      | None \<Rightarrow> (DRBCC_RC_NOERROR, s\<lparr>cbs := (cbs s)(c := cb)\<rparr>))"

definition drbcc_register_rtc_cb :: "bool \<Rightarrow> DRBCC_t \<Rightarrow> DRBCC_RC_t \<times> DRBCC_t" where
  "drbcc_register_rtc_cb = register_cb rtc_cb"

definition drbcc_register_error_cb :: "bool \<Rightarrow> DRBCC_t \<Rightarrow> DRBCC_RC_t \<times> DRBCC_t" where
  "drbcc_register_error_cb = register_cb error_cb"

definition drbcc_register_session_cb :: "bool \<Rightarrow> DRBCC_t \<Rightarrow> DRBCC_RC_t \<times> DRBCC_t" where
  "drbcc_register_session_cb = register_cb session_cb"

definition drbcc_register_protocol_cb :: "bool \<Rightarrow> DRBCC_t \<Rightarrow> DRBCC_RC_t \<times> DRBCC_t" where
  "drbcc_register_protocol_cb = register_cb protocol_cb"

definition drbcc_register_id_cb :: "bool \<Rightarrow> DRBCC_t \<Rightarrow> DRBCC_RC_t \<times> DRBCC_t" where
  "drbcc_register_id_cb = register_cb id_cb"

definition drbcc_register_status_cb :: "bool \<Rightarrow> DRBCC_t \<Rightarrow> DRBCC_RC_t \<times> DRBCC_t" where
  "drbcc_register_status_cb = register_cb status_cb"

definition drbcc_register_accel_event_cb :: "bool \<Rightarrow> DRBCC_t \<Rightarrow> DRBCC_RC_t \<times> DRBCC_t" where
  "drbcc_register_accel_event_cb = register_cb accel_event_cb"

definition drbcc_register_hdOffRequest_cb :: "bool \<Rightarrow> DRBCC_t \<Rightarrow> DRBCC_RC_t \<times> DRBCC_t" where
  "drbcc_register_hdOffRequest_cb = register_cb hdOffRequest_cb"

definition drbcc_register_flash_id_cb :: "bool \<Rightarrow> DRBCC_t \<Rightarrow> DRBCC_RC_t \<times> DRBCC_t" where
  "drbcc_register_flash_id_cb = register_cb flash_id_cb"

definition drbcc_register_flash_read_cb :: "bool \<Rightarrow> DRBCC_t \<Rightarrow> DRBCC_RC_t \<times> DRBCC_t" where
  "drbcc_register_flash_read_cb = register_cb read_flash_cb"

definition drbcc_register_flash_write_cb :: "bool \<Rightarrow> DRBCC_t \<Rightarrow> DRBCC_RC_t \<times> DRBCC_t" where
  "drbcc_register_flash_write_cb = register_cb write_flash_cb"

definition drbcc_register_flash_erase_cb :: "bool \<Rightarrow> DRBCC_t \<Rightarrow> DRBCC_RC_t \<times> DRBCC_t" where
  "drbcc_register_flash_erase_cb = register_cb erase_flash_cb"

section \<open>The contract of a request\<close>

text \<open>
  What a caller of a request function can rely on: \<open>req\<close> is the payload of the one message
  it queues. A refused request changes nothing; without memory for the message only the
  state is reset.
\<close>

locale request_op =
  fixes op :: "bool \<Rightarrow> DRBCC_t \<Rightarrow> DRBCC_RC_t \<times> DRBCC_t"
    and req :: bytes
  assumes req_size: "req \<noteq> []" "length req \<le> DRBCC_MAX_MSG_LEN"
    and bad_handle: "CHECK_HANDLE s = Some e \<Longrightarrow> op sess s = (e, s)"
    and busy: "CHECK_HANDLE s = None \<Longrightarrow> session s \<noteq> 0 \<Longrightarrow> op sess s = (DRBCC_RC_SESSIONACTIVE, s)"
    and no_memory: "CHECK_HANDLE s = None \<Longrightarrow> session s = 0 \<Longrightarrow> heap s (mallocs s) = None \<Longrightarrow>
      op sess s = (DRBCC_RC_OUTOFMEMORY, s\<lparr>state := DRBCC_STATE_USER, mallocs := Suc (mallocs s)\<rparr>)"
    and accepted: "CHECK_HANDLE s = None \<Longrightarrow> session s = 0 \<Longrightarrow> heap s (mallocs s) \<noteq> None \<Longrightarrow>
      \<exists>m closes. wf_msg m \<and> payload m = req \<and> op sess s = (DRBCC_RC_NOERROR,
        open_session closes sess
          (s\<lparr>state := DRBCC_STATE_USER, mallocs := Suc (mallocs s), prioQueue := prioQueue s @ [m]\<rparr>))"
begin

lemma result_cases:
  obtains
    (invalid) e where "CHECK_HANDLE s = Some e" "op sess s = (e, s)"
  | (active) "CHECK_HANDLE s = None" "session s \<noteq> 0" "op sess s = (DRBCC_RC_SESSIONACTIVE, s)"
  | (oom) "CHECK_HANDLE s = None" "session s = 0"
      "op sess s = (DRBCC_RC_OUTOFMEMORY, s\<lparr>state := DRBCC_STATE_USER, mallocs := Suc (mallocs s)\<rparr>)"
  | (queued) m closes where "CHECK_HANDLE s = None" "session s = 0" "wf_msg m" "payload m = req"
      "op sess s = (DRBCC_RC_NOERROR, open_session closes sess
        (s\<lparr>state := DRBCC_STATE_USER, mallocs := Suc (mallocs s), prioQueue := prioQueue s @ [m]\<rparr>))"
proof (cases "CHECK_HANDLE s")
  case None
  consider "session s \<noteq> 0" | "session s = 0" "heap s (mallocs s) = None"
    | "session s = 0" "heap s (mallocs s) \<noteq> None" by blast
  then show thesis
  proof cases
    case 1
    then show thesis using that(2) None busy [OF None] by blast
  next
    case 2
    then show thesis using that(3) None no_memory [OF None] by blast
  next
    case 3
    then show thesis using that(4) [OF None] accepted [OF None] by blast
  qed
qed (use bad_handle that(1) in blast)

lemma noerror_queues:
  assumes "op sess s = (DRBCC_RC_NOERROR, s')"
  shows "\<exists>m. wf_msg m \<and> payload m = req \<and> prioQueue s' = prioQueue s @ [m] \<and> secQueue s' = secQueue s"
proof (cases rule: result_cases [of s sess])
  case (invalid e)
  with assms show ?thesis by (auto simp: CHECK_HANDLE_def split: if_splits)
qed (use assms in \<open>auto simp: open_session_def\<close>)

lemma noerror_opens_session:
  assumes "op True s = (DRBCC_RC_NOERROR, s')" and "cbs s session_cb"
  shows "session s' = drbcc_session s" "session_out s' = drbcc_session s" "CHECK_HANDLE s' = None"
    "session s = 0"
proof -
  have "session s' = drbcc_session s \<and> session_out s' = drbcc_session s \<and> CHECK_HANDLE s' = None \<and>
    session s = 0"
  proof (cases rule: result_cases [of s True])
    case (invalid e)
    with assms show ?thesis by (auto simp: CHECK_HANDLE_def split: if_splits)
  qed (use assms in \<open>auto simp: open_session_def CHECK_HANDLE_def split: if_splits\<close>)
  then show "session s' = drbcc_session s" "session_out s' = drbcc_session s" "CHECK_HANDLE s' = None"
    "session s = 0" by simp_all
qed

end

lemma prio_request_op:
  assumes "bs \<noteq> []" and "length bs \<le> DRBCC_MAX_MSG_LEN"
  shows "request_op (prio_request bs closes) bs"
proof
  fix s :: DRBCC_t and sess
  assume s: "CHECK_HANDLE s = None" "session s = 0" "heap s (mallocs s) \<noteq> None"
  then obtain junk where junk: "heap s (mallocs s) = Some junk" by blast
  have n: "unat (of_nat (length bs) :: u8) = length bs"
    using assms(2) by (simp add: unat_of_nat)
  let ?m = "new_msg (of_nat (length bs)) bs (map junk [0..<DRBCC_MAX_PAYLOAD])"
  have "wf_msg ?m" using assms(2) by (intro wf_new_msg) (simp_all add: n)
  moreover have "payload ?m = bs" by (rule payload_new_msg [OF n])
  moreover have "prio_request bs closes sess s = (DRBCC_RC_NOERROR, open_session closes sess
      (s\<lparr>state := DRBCC_STATE_USER, mallocs := Suc (mallocs s), prioQueue := prioQueue s @ [?m]\<rparr>))"
    using s junk
    by (simp add: prio_request_def alloc_msg_def drbcc_malloc_def libdrbcc_add_msg_prio_def)
  ultimately show "\<exists>m closes'. wf_msg m \<and> payload m = bs \<and>
      prio_request bs closes sess s = (DRBCC_RC_NOERROR, open_session closes' sess
        (s\<lparr>state := DRBCC_STATE_USER, mallocs := Suc (mallocs s), prioQueue := prioQueue s @ [m]\<rparr>))"
    by blast
qed (use assms in \<open>simp_all add: prio_request_def alloc_msg_def drbcc_malloc_def\<close>)

interpretation sync: request_op drbcc_sync "[cmd DRBCC_SYNC]"
  unfolding drbcc_sync_def [abs_def] by (rule prio_request_op) auto

interpretation protocol: request_op drbcc_req_protocol "[cmd DRBCC_CMD_REQ_PROTOCOL_VERSION]"
  unfolding drbcc_req_protocol_def [abs_def] by (rule prio_request_op) auto

interpretation rtc: request_op drbcc_req_rtc "[cmd DRBCC_REQ_RTC_READ]"
  unfolding drbcc_req_rtc_def [abs_def] by (rule prio_request_op) auto

interpretation set_rtc: request_op "drbcc_set_rtc utctime" "cmd DRBCC_REQ_RTC_SET # rtc_encode utctime"
  for utctime
  unfolding drbcc_set_rtc_def [abs_def] by (rule prio_request_op) auto

interpretation heartbeat: request_op "drbcc_heartbeat timeout" "[cmd DRBCC_REQ_HEARTBEAT, byte_of 8 timeout, byte_of 0 timeout]"
  for timeout
  unfolding drbcc_heartbeat_def [abs_def] by (rule prio_request_op) auto

interpretation shutdown: request_op "drbcc_shutdown timeout" "[cmd DRBCC_REQ_SHUTDOWN, byte_of 8 timeout, byte_of 0 timeout]"
  for timeout
  unfolding drbcc_shutdown_def [abs_def] by (rule prio_request_op) auto

interpretation set_gpo: request_op "drbcc_set_gpo gpo onoff" "[cmd DRBCC_REQ_SET_GPO, ucast gpo, ucast onoff]"
  for gpo onoff
  unfolding drbcc_set_gpo_def [abs_def] by (rule prio_request_op) auto

interpretation set_led: request_op "drbcc_set_led num color on_time off_time phase" "[cmd DRBCC_REQ_SET_LED, ucast num, ucast color] @
    (if on_time \<noteq> 0 \<or> off_time \<noteq> 0 then [ucast on_time, ucast off_time, ucast phase] else [])"
  for num color on_time off_time phase
  unfolding drbcc_set_led_def [abs_def] by (rule prio_request_op) auto

interpretation status: request_op drbcc_get_status "[cmd DRBCC_REQ_STATUS]"
  unfolding drbcc_get_status_def [abs_def] by (rule prio_request_op) auto

interpretation id_data: request_op drbcc_get_id_data "[cmd DRBCC_REQ_ID_DATA]"
  unfolding drbcc_get_id_data_def [abs_def] by (rule prio_request_op) auto

interpretation eject_hd: request_op drbcc_eject_hd "[cmd DRBCC_REQ_HD_EJECT]"
  unfolding drbcc_eject_hd_def [abs_def] by (rule prio_request_op) auto

interpretation hd_power: request_op "drbcc_hd_power onoff" "[cmd DRBCC_REQ_HD_ONOFF, ucast (onoff AND 0xff)]"
  for onoff
  unfolding drbcc_hd_power_def [abs_def] by (rule prio_request_op) auto

interpretation gpi_power: request_op "drbcc_gpi_power onoff" "[cmd DRBCC_REQ_GPI_POWER, ucast (onoff AND 0xff)]"
  for onoff
  unfolding drbcc_gpi_power_def [abs_def] by (rule prio_request_op) auto

interpretation flash_id: request_op drbcc_req_flash_id "[cmd DRBCC_REQ_EXTFLASH_ID]"
  unfolding drbcc_req_flash_id_def [abs_def] by (rule prio_request_op) auto

interpretation invalidate: request_op drbcc_invalidate_bctrl_fw "[cmd DRBCC_REQ_FW_INVALIDATE]"
  unfolding drbcc_invalidate_bctrl_fw_def [abs_def] by (rule prio_request_op) auto

interpretation restart: request_op "drbcc_restart_bctrl after" "[cmd DRBCC_REQ_BCTRL_RESTART, ucast after]"
  for after
  unfolding drbcc_restart_bctrl_def [abs_def] by (rule prio_request_op) auto

interpretation bl_update: request_op drbcc_request_bootloader_update "[cmd DRBCC_REQ_BL_UPDATE]"
  unfolding drbcc_request_bootloader_update_def [abs_def] by (rule prio_request_op) auto

text \<open>The request functions that queue one message of high priority.\<close>

inductive_set request_ops :: "(bool \<Rightarrow> DRBCC_t \<Rightarrow> DRBCC_RC_t \<times> DRBCC_t) set" where
  sync: "drbcc_sync \<in> request_ops"
| protocol: "drbcc_req_protocol \<in> request_ops"
| rtc: "drbcc_req_rtc \<in> request_ops"
| set_rtc: "drbcc_set_rtc utctime \<in> request_ops"
| heartbeat: "drbcc_heartbeat timeout \<in> request_ops"
| shutdown: "drbcc_shutdown timeout \<in> request_ops"
| set_gpo: "drbcc_set_gpo gpo onoff \<in> request_ops"
| set_led: "drbcc_set_led num color on_time off_time phase \<in> request_ops"
| status: "drbcc_get_status \<in> request_ops"
| id_data: "drbcc_get_id_data \<in> request_ops"
| eject_hd: "drbcc_eject_hd \<in> request_ops"
| hd_power: "drbcc_hd_power onoff \<in> request_ops"
| gpi_power: "drbcc_gpi_power onoff \<in> request_ops"
| flash_id: "drbcc_req_flash_id \<in> request_ops"
| invalidate: "drbcc_invalidate_bctrl_fw \<in> request_ops"
| restart: "drbcc_restart_bctrl after \<in> request_ops"
| bl_update: "drbcc_request_bootloader_update \<in> request_ops"

lemma request_ops_contract: "op \<in> request_ops \<Longrightarrow> \<exists>req. request_op op req"
  by (induction rule: request_ops.induct)
    (rule exI, (rule sync.request_op_axioms
      | rule protocol.request_op_axioms
      | rule rtc.request_op_axioms
      | rule set_rtc.request_op_axioms
      | rule heartbeat.request_op_axioms
      | rule shutdown.request_op_axioms
      | rule set_gpo.request_op_axioms
      | rule set_led.request_op_axioms
      | rule status.request_op_axioms
      | rule id_data.request_op_axioms
      | rule eject_hd.request_op_axioms
      | rule hd_power.request_op_axioms
      | rule gpi_power.request_op_axioms
      | rule flash_id.request_op_axioms
      | rule invalidate.request_op_axioms
      | rule restart.request_op_axioms
      | rule bl_update.request_op_axioms))+



end
