(* ===== verification/Flash_Access.thy ===== *)
theory Flash_Access
  imports Requests
begin

text \<open>
  Reading, writing and erasing the external flash (\<^verbatim>\<open>drbcc_utils.c\<close>). A long access is
  cut into messages of at most \<open>CHUNK\<close> bytes: the first is queued at once, the handler of
  the reply queues the next from \<^const>\<open>flashAddr\<close>, \<^const>\<open>flashPos\<close> and
  \<^const>\<open>flashLen\<close>. The lemmas show that the chunks tile the range the caller asked for.
\<close>

section \<open>Definitions\<close>

abbreviation CHUNK :: u32 where "CHUNK \<equiv> 128"

text \<open>Copying \<open>n\<close> bytes from offset \<open>p\<close> of a block.\<close>

definition fetch :: "bytes option \<Rightarrow> nat \<Rightarrow> nat \<Rightarrow> DRBCC_t \<Rightarrow> bytes \<times> DRBCC_t" where
  "fetch blk p n s =
     (case blk of
        Some b \<Rightarrow> if p + n \<le> length b then (take n (drop p b), s) else (replicate n 0, s\<lparr>fault := True\<rparr>)
      | None \<Rightarrow> if n = 0 then ([], s) else (replicate n 0, s\<lparr>fault := True\<rparr>))"

definition addr_bytes :: "u32 \<Rightarrow> bytes" where
  "addr_bytes a = [byte_of 16 a, byte_of 8 a, byte_of 0 a]"

definition libdrbcc_req_flash_read :: "u32 \<Rightarrow> u32 \<Rightarrow> DRBCC_t \<Rightarrow> DRBCC_RC_t \<times> DRBCC_t" where
  "libdrbcc_req_flash_read addr len s =
     (case alloc_msg s of
        (Some block, s1) \<Rightarrow>
          let size = (if CHUNK \<le> len then CHUNK else len mod CHUNK);
              s2 = libdrbcc_add_msg_sec (new_msg 5
                     (cmd DRBCC_REQ_EXTFLASH_READ # addr_bytes addr @ [ucast size]) block) s1
          in (DRBCC_RC_NOERROR, s2\<lparr>flashAddr := addr + size, flashLen := len - size\<rparr>)
      | (None, s1) \<Rightarrow> (DRBCC_RC_OUTOFMEMORY, s1))"

text \<open>The head of the public functions: check, refuse while a session is open, open one.\<close>

definition session_request ::
    "(DRBCC_t \<Rightarrow> DRBCC_RC_t \<times> DRBCC_t) \<Rightarrow> bool \<Rightarrow> DRBCC_t \<Rightarrow> DRBCC_RC_t \<times> DRBCC_t" where
  "session_request body sess s =
     (case CHECK_HANDLE s of
        Some e \<Rightarrow> (e, s)
      | None \<Rightarrow>
          if session s \<noteq> 0 then (DRBCC_RC_SESSIONACTIVE, s)
          else body (open_session False sess (s\<lparr>state := DRBCC_STATE_USER\<rparr>)))"

definition drbcc_req_flash_read :: "u32 \<Rightarrow> u32 \<Rightarrow> bool \<Rightarrow> DRBCC_t \<Rightarrow> DRBCC_RC_t \<times> DRBCC_t" where
  "drbcc_req_flash_read addr len = session_request (libdrbcc_req_flash_read addr len)"

definition write_msg :: "u32 \<Rightarrow> u32 \<Rightarrow> bytes \<Rightarrow> bytes \<Rightarrow> DRBCC_MESSAGE_t" where
  "write_msg addr n data block = new_msg (ucast (5 + n))
     (cmd DRBCC_REQ_EXTFLASH_WRITE # addr_bytes addr @ [ucast n] @ data) block"

definition libdrbcc_flash_write :: "DRBCC_t \<Rightarrow> DRBCC_RC_t \<times> DRBCC_t" where
  "libdrbcc_flash_write s =
     (let size = (if flashLen s \<ge> CHUNK then CHUNK else flashLen s);
          (mem, s1) = alloc_msg s;
          s2 = (case mem of
                  None \<Rightarrow> s1
                | Some block \<Rightarrow>
                    let (data, t) = fetch (flashData s1) (unat (flashPos s1)) (unat size) s1
                    in libdrbcc_add_msg_sec (write_msg (flashAddr s1) size data block) t)
      in (DRBCC_RC_NOERROR, s2\<lparr>flashAddr := flashAddr s2 + size, flashPos := flashPos s2 + size,
                                flashLen := flashLen s2 - size\<rparr>))"

text \<open>The first message of a write. \<open>data\<close> is the array of the caller; the pointer into it
  advances only when there was memory for the message.\<close>

definition write_first :: "u32 \<Rightarrow> u32 \<Rightarrow> bytes \<Rightarrow> DRBCC_t \<Rightarrow> bytes \<times> DRBCC_t" where
  "write_first addr n data s =
     (case alloc_msg s of
        (None, s1) \<Rightarrow> (data, s1)
      | (Some block, s1) \<Rightarrow>
          (case fetch (Some data) 0 (unat n) s1 of
             (bs, s2) \<Rightarrow> (drop (unat n) data, libdrbcc_add_msg_sec (write_msg addr n bs block) s2)))"

text \<open>The rest of a write is copied for the following messages.\<close>

definition save_rest :: "u32 \<Rightarrow> u32 \<Rightarrow> bytes \<Rightarrow> DRBCC_t \<Rightarrow> DRBCC_t" where
  "save_rest addr len data s =
     (if len \<noteq> 0
      then (case drbcc_malloc (unat len) (s\<lparr>flashAddr := addr, flashPos := 0, flashLen := len\<rparr>) of
              (None, s1) \<Rightarrow> s1\<lparr>flashData := None, fault := True\<rparr>
            | (Some blk, s1) \<Rightarrow>
                (case fetch (Some data) 0 (unat len) s1 of (bs, s2) \<Rightarrow> s2\<lparr>flashData := Some bs\<rparr>))
      else s\<lparr>flashAddr := 0, flashPos := 0, flashLen := 0\<rparr>)"

text \<open>The size of the first chunk: up to the next multiple of \<^const>\<open>CHUNK\<close>.\<close>

definition first_chunk :: "u32 \<Rightarrow> u32 \<Rightarrow> u32" where
  "first_chunk addr len = (if addr mod CHUNK \<noteq> 0 then CHUNK - addr mod CHUNK
     else if len \<ge> CHUNK then CHUNK else len)"

definition libdrbcc_req_flash_write :: "u32 \<Rightarrow> u32 \<Rightarrow> bytes \<Rightarrow> DRBCC_t \<Rightarrow> DRBCC_RC_t \<times> DRBCC_t" where
  "libdrbcc_req_flash_write addr len data s =
     (if addr mod 2 \<noteq> 0 \<or> len mod 2 \<noteq> 0 then (DRBCC_RC_UNSPEC_ERROR, s)
      else
        let n = first_chunk addr len
        in (case write_first addr n data s of
              (rest, s1) \<Rightarrow>
                (DRBCC_RC_NOERROR, if len \<le> n then s1 else save_rest (addr + n) (len - n) rest s1)))"

definition drbcc_req_flash_write ::
    "u32 \<Rightarrow> u32 \<Rightarrow> bytes \<Rightarrow> bool \<Rightarrow> DRBCC_t \<Rightarrow> DRBCC_RC_t \<times> DRBCC_t" where
  "drbcc_req_flash_write addr len data = session_request (libdrbcc_req_flash_write addr len data)"

definition libdrbcc_req_flash_erase_block :: "u32 \<Rightarrow> DRBCC_t \<Rightarrow> DRBCC_RC_t \<times> DRBCC_t" where
  "libdrbcc_req_flash_erase_block blocknum s =
     (case alloc_msg s of
        (Some block, s1) \<Rightarrow> (DRBCC_RC_NOERROR, libdrbcc_add_msg_sec (new_msg 3
           [cmd DRBCC_REQ_EXTFLASH_BLOCKERASE, byte_of 8 blocknum, byte_of 0 blocknum] block) s1)
      | (None, s1) \<Rightarrow> (DRBCC_RC_OUTOFMEMORY, s1))"

definition drbcc_req_flash_erase_block :: "u32 \<Rightarrow> bool \<Rightarrow> DRBCC_t \<Rightarrow> DRBCC_RC_t \<times> DRBCC_t" where
  "drbcc_req_flash_erase_block blocknum = session_request (libdrbcc_req_flash_erase_block blocknum)"

section \<open>The flash behind the controller\<close>

text \<open>
  The controller that carries out the requests is not part of the library: it is the
  parameter \<open>carry\<close>, from a request and the contents of the flash to the new contents. What
  the library relies on is \<open>flash_device\<close>: an erase request sets its block of 4096 bytes to
  \<open>0xFF\<close>, and a write request to erased bytes stores its data at its address.
\<close>

definition addr24 :: "bytes \<Rightarrow> nat" where
  "addr24 bs = unat (bs ! 0) * 65536 + unat (bs ! 1) * 256 + unat (bs ! 2)"

definition store :: "nat \<Rightarrow> 'a list \<Rightarrow> (nat \<Rightarrow> 'a) \<Rightarrow> nat \<Rightarrow> 'a" where
  "store a bs f = (\<lambda>i. if a \<le> i \<and> i < a + length bs then bs ! (i - a) else f i)"

definition write_request :: "DRBCC_MESSAGE_t \<Rightarrow> bool" where
  "write_request m \<longleftrightarrow> wf_msg m \<and> 5 < length (payload m) \<and>
     payload m ! 0 = cmd DRBCC_REQ_EXTFLASH_WRITE \<and> unat (payload m ! 4) = length (drop 5 (payload m))"

definition erase_request :: "DRBCC_MESSAGE_t \<Rightarrow> bool" where
  "erase_request m \<longleftrightarrow> wf_msg m \<and> length (payload m) = 3 \<and>
     payload m ! 0 = cmd DRBCC_REQ_EXTFLASH_BLOCKERASE"

definition block_of :: "DRBCC_MESSAGE_t \<Rightarrow> nat" where
  "block_of m = unat (payload m ! 1) * 256 + unat (payload m ! 2)"

definition erased :: "nat \<Rightarrow> (nat \<Rightarrow> u8) \<Rightarrow> nat \<Rightarrow> u8" where
  "erased b f = (\<lambda>i. if b * 4096 \<le> i \<and> i < (b + 1) * 4096 then 0xFF else f i)"

definition blank :: "nat \<Rightarrow> nat \<Rightarrow> (nat \<Rightarrow> u8) \<Rightarrow> bool" where
  "blank a n f \<longleftrightarrow> (\<forall>i. a \<le> i \<and> i < a + n \<longrightarrow> f i = 0xFF)"

definition flash_device :: "(DRBCC_MESSAGE_t \<Rightarrow> (nat \<Rightarrow> u8) \<Rightarrow> nat \<Rightarrow> u8) \<Rightarrow> bool" where
  "flash_device carry \<longleftrightarrow>
     (\<forall>m f. write_request m \<and> blank (addr24 (tl (payload m))) (length (drop 5 (payload m))) f \<longrightarrow>
        carry m f = store (addr24 (tl (payload m))) (drop 5 (payload m)) f) \<and>
     (\<forall>m f. erase_request m \<longrightarrow> carry m f = erased (block_of m) f)"

text \<open>A device as it is meant, and one that can only clear bits when it writes.\<close>

definition plain_device :: "DRBCC_MESSAGE_t \<Rightarrow> (nat \<Rightarrow> u8) \<Rightarrow> nat \<Rightarrow> u8" where
  "plain_device m f =
     (if write_request m
      then (\<lambda>i. if addr24 (tl (payload m)) \<le> i \<and> i < addr24 (tl (payload m)) + length (drop 5 (payload m))
                then f i AND drop 5 (payload m) ! (i - addr24 (tl (payload m))) else f i)
      else if erase_request m then erased (block_of m) f else f)"

lemma plain_device: "flash_device plain_device"
proof -
  have "\<not> (write_request m \<and> erase_request m)" for m
    by (auto simp: write_request_def erase_request_def)
  moreover have "(0xFF :: u8) AND b = b" for b
  proof -
    have "(0xFF :: u8) = - 1" by simp
    then show ?thesis by (simp only: and.left_neutral)
  qed
  ultimately show ?thesis
    by (auto simp: flash_device_def plain_device_def blank_def store_def fun_eq_iff)
qed

lemma blank_mono: "blank a n f \<Longrightarrow> a \<le> b \<Longrightarrow> b + k \<le> a + n \<Longrightarrow> blank b k f"
  by (simp add: blank_def)

lemma blank_store: "blank b k f \<Longrightarrow> a + length bs \<le> b \<Longrightarrow> blank b k (store a bs f)"
  by (simp add: blank_def store_def)

lemma store_Nil [simp]: "store a [] f = f"
  by (auto simp: store_def fun_eq_iff)

lemma store_append: "store (a + length bs) cs (store a bs f) = store a (bs @ cs) f"
  by (rule ext) (auto simp: store_def nth_append)

lemma unat_byte_of: "unat (byte_of k x) = unat x div 2 ^ k mod 256"
proof -
  have "drop_bit k x AND 0xFF = take_bit 8 (drop_bit k x)"
    by (simp add: take_bit_eq_mask mask_eq_exp_minus_1)
  then have "byte_of k x = ucast (take_bit 8 (drop_bit k x))" by (simp only: byte_of_def)
  moreover have "take_bit 32 (unat x) = unat x"
    using unsigned_less [of x, where 'a = nat] by (simp add: take_bit_nat_eq_self)
  ultimately have "unat (byte_of k x) = take_bit 8 (drop_bit k (unat x))"
    by (simp add: unsigned_ucast_eq unsigned_take_bit_eq unsigned_drop_bit_eq)
  then show ?thesis by (simp add: drop_bit_eq_div take_bit_eq_mod)
qed

lemma length_addr_bytes [simp]: "length (addr_bytes a) = 3"
  by (simp add: addr_bytes_def)

lemma addr24_addr_bytes: "unat a < 2 ^ 24 \<Longrightarrow> addr24 (addr_bytes a @ bs) = unat a"
proof -
  assume "unat a < 2 ^ 24"
  then have "unat a div 65536 mod 256 = unat a div 256 div 256"
    by (simp add: div_mult2_eq [symmetric])
  moreover have "unat a div 256 div 256 * 65536 + unat a div 256 mod 256 * 256 = unat a div 256 * 256"
    using mult_div_mod_eq [of 256 "unat a div 256"] by linarith
  ultimately show ?thesis by (simp add: addr24_def addr_bytes_def unat_byte_of)
qed

lemma unat_min_chunk:
  "unat (if CHUNK \<le> len then CHUNK else len) = min 128 (unat len)"
  by (simp add: word_le_nat_alt)

lemma write_msg_payload:
  assumes "length block = DRBCC_MAX_PAYLOAD" "length data = unat n" "unat n \<le> 128"
  shows "wf_msg (write_msg a n data block)"
    "payload (write_msg a n data block) = cmd DRBCC_REQ_EXTFLASH_WRITE # addr_bytes a @ [ucast n] @ data"
    "unat (ucast n :: u8) = unat n"
proof -
  have 5: "unat (5 + n) = 5 + unat n"
    using unat_add_lem [of 5 n] assms(3) by simp
  have l: "unat (ucast (5 + n) :: u8) = 5 + unat n" "unat (ucast n :: u8) = unat n"
    using assms(3) by (simp_all add: unsigned_ucast_eq 5 take_bit_eq_mod)
  then show "unat (ucast n :: u8) = unat n" by simp
  show "wf_msg (write_msg a n data block)" unfolding write_msg_def
    by (rule wf_new_msg) (use assms l in simp_all)
  show "payload (write_msg a n data block) = cmd DRBCC_REQ_EXTFLASH_WRITE # addr_bytes a @ [ucast n] @ data"
    unfolding write_msg_def by (rule payload_new_msg) (use assms l in simp)
qed

lemma write_msg_device:
  assumes "length block = DRBCC_MAX_PAYLOAD" "length data = unat n" "0 < unat n" "unat n \<le> 128"
    and "unat a < 2 ^ 24"
  shows "write_request (write_msg a n data block)"
    "flash_device carry \<Longrightarrow> blank (unat a) (unat n) f \<Longrightarrow>
      carry (write_msg a n data block) f = store (unat a) data f"
proof -
  note p = write_msg_payload [OF assms(1,2,4)]
  show w: "write_request (write_msg a n data block)"
    using p assms by (auto simp: write_request_def nth_append nth_Cons')
  show "flash_device carry \<Longrightarrow> blank (unat a) (unat n) f \<Longrightarrow>
      carry (write_msg a n data block) f = store (unat a) data f"
    using w p assms addr24_addr_bytes [OF assms(5)] by (simp add: flash_device_def)
qed

section \<open>Long accesses\<close>

definition no_oom :: "DRBCC_t \<Rightarrow> bool" where
  "no_oom s \<longleftrightarrow> (\<forall>n. heap s n \<noteq> None)"

lemma alloc_msg_no_oom:
  assumes "no_oom s"
  obtains block where "alloc_msg s = (Some block, s\<lparr>mallocs := Suc (mallocs s)\<rparr>)"
    "length block = DRBCC_MAX_PAYLOAD"
proof -
  obtain junk where "heap s (mallocs s) = Some junk"
    using assms by (auto simp: no_oom_def)
  then show thesis
    using that [of "map junk [0..<DRBCC_MAX_PAYLOAD]"] by (simp add: alloc_msg_def drbcc_malloc_def)
qed

text \<open>The chunks the handler of the write results sends: one per result, while there is
  data left.\<close>

fun write_rounds :: "nat \<Rightarrow> DRBCC_t \<Rightarrow> DRBCC_t" where
  "write_rounds 0 s = s"
| "write_rounds (Suc k) s =
     (if flashLen s \<noteq> 0 then write_rounds k (snd (libdrbcc_flash_write s)) else s)"

lemma flash_write_step:
  assumes "no_oom s" and "flashData s = Some d" and "unat (flashPos s) + unat (flashLen s) \<le> length d"
    and "sz = (if CHUNK \<le> flashLen s then CHUNK else flashLen s)"
  obtains block where "length block = DRBCC_MAX_PAYLOAD"
    "libdrbcc_flash_write s = (DRBCC_RC_NOERROR, s\<lparr>mallocs := Suc (mallocs s),
       secQueue := secQueue s @
         [write_msg (flashAddr s) sz (take (unat sz) (drop (unat (flashPos s)) d)) block],
       flashAddr := flashAddr s + sz, flashPos := flashPos s + sz, flashLen := flashLen s - sz\<rparr>)"
proof -
  obtain block where b: "alloc_msg s = (Some block, s\<lparr>mallocs := Suc (mallocs s)\<rparr>)"
    "length block = DRBCC_MAX_PAYLOAD" using alloc_msg_no_oom [OF assms(1)] by blast
  have "unat (flashPos s) + unat sz \<le> length d"
    using assms(3) unat_min_chunk [of "flashLen s"] assms(4) by simp
  then show ?thesis
    using that [OF b(2)] b(1) assms(2,4)
    by (simp add: libdrbcc_flash_write_def fetch_def libdrbcc_add_msg_sec_def Let_def)
qed

lemma flash_write_advance:
  assumes "no_oom s" and "flashData s = Some d"
    and "unat (flashPos s) + unat (flashLen s) = length d" and "length d < 2 ^ 32"
    and "unat (flashAddr s) + unat (flashLen s) \<le> 2 ^ 24" and "flashLen s \<noteq> 0"
    and t: "t = snd (libdrbcc_flash_write s)"
    and dev: "flash_device carry" "blank (unat (flashAddr s)) (unat (flashLen s)) f"
  obtains m n where "n = min 128 (unat (flashLen s))" "write_request m"
    "carry m f = store (unat (flashAddr s)) (take n (drop (unat (flashPos s)) d)) f"
    "secQueue t = secQueue s @ [m]" "fault t = fault s" "no_oom t" "flashData t = Some d"
    "unat (flashAddr t) = unat (flashAddr s) + n" "unat (flashPos t) = unat (flashPos s) + n"
    "unat (flashLen t) = unat (flashLen s) - n"
proof -
  define n where "n = (if CHUNK \<le> flashLen s then CHUNK else flashLen s)"
  have n: "unat n = min 128 (unat (flashLen s))" unfolding n_def by (rule unat_min_chunk)
  have l: "0 < unat (flashLen s)" using assms(6) by (simp add: unat_gt_0)
  have u: "unat (flashAddr s + n) = unat (flashAddr s) + unat n"
    "unat (flashPos s + n) = unat (flashPos s) + unat n"
    "unat (flashLen s - n) = unat (flashLen s) - unat n"
    using n assms(3-5) unat_add_lem [of "flashAddr s" n] unat_add_lem [of "flashPos s" n]
    by (auto simp: unat_sub word_le_nat_alt)
  let ?d = "take (unat n) (drop (unat (flashPos s)) d)"
  obtain block where b: "length block = DRBCC_MAX_PAYLOAD"
    "t = s\<lparr>mallocs := Suc (mallocs s), secQueue := secQueue s @ [write_msg (flashAddr s) n ?d block],
       flashAddr := flashAddr s + n, flashPos := flashPos s + n, flashLen := flashLen s - n\<rparr>"
    using flash_write_step [OF assms(1,2) _ n_def] assms(3) t by (metis order_refl snd_conv)
  have "length ?d = unat n" "0 < unat n" "unat n \<le> 128" "unat (flashAddr s) < 2 ^ 24"
    using n l assms(3,5) by auto
  note m = write_msg_device(1) [OF b(1) this] write_msg_device(2) [OF b(1) this dev(1)]
  have "blank (unat (flashAddr s)) (unat n) f" using dev(2) n by (auto simp: blank_def)
  note m = m(1) m(2) [OF this]
  show thesis
    by (rule that [OF n m]) (use assms(1,2) u in \<open>simp_all add: b(2) no_oom_def\<close>)
qed

lemma write_rounds_store:
  assumes "no_oom s" and "flashData s = Some d"
    and "unat (flashPos s) + unat (flashLen s) = length d" and "length d < 2 ^ 32"
    and "unat (flashAddr s) + unat (flashLen s) \<le> 2 ^ 24" and "unat (flashLen s) \<le> 128 * k"
    and "flash_device carry" and "blank (unat (flashAddr s)) (unat (flashLen s)) f"
  shows "\<exists>ms. secQueue (write_rounds k s) = secQueue s @ ms \<and> list_all write_request ms \<and>
    fold carry ms f = store (unat (flashAddr s)) (drop (unat (flashPos s)) d) f \<and>
    flashLen (write_rounds k s) = 0 \<and> fault (write_rounds k s) = fault s"
  using assms
proof (induction k arbitrary: s f)
  case 0
  then have "flashLen s = 0" by (simp add: unat_eq_zero)
  with 0 show ?case by simp
next
  case (Suc k)
  show ?case
  proof (cases "flashLen s = 0")
    case True
    with Suc.prems show ?thesis by simp
  next
    case False
    let ?t = "snd (libdrbcc_flash_write s)" and ?D = "drop (unat (flashPos s)) d"
    obtain m n where n: "n = min 128 (unat (flashLen s))"
      and m: "write_request m" "carry m f = store (unat (flashAddr s)) (take n ?D) f"
        "secQueue ?t = secQueue s @ [m]" "fault ?t = fault s" "no_oom ?t" "flashData ?t = Some d"
      and u: "unat (flashAddr ?t) = unat (flashAddr s) + n" "unat (flashPos ?t) = unat (flashPos s) + n"
        "unat (flashLen ?t) = unat (flashLen s) - n"
      using flash_write_advance [OF Suc.prems(1-5) False refl Suc.prems(7,8)] by metis
    have bl: "blank (unat (flashAddr ?t)) (unat (flashLen ?t)) (carry m f)"
      using Suc.prems(3,8) n u(1,3) unfolding m(2) by (intro blank_store) (auto simp: blank_def)
    obtain ms where ms: "secQueue (write_rounds k ?t) = secQueue ?t @ ms" "list_all write_request ms"
      "fold carry ms (carry m f) =
         store (unat (flashAddr ?t)) (drop (unat (flashPos ?t)) d) (carry m f)"
      "flashLen (write_rounds k ?t) = 0" "fault (write_rounds k ?t) = fault ?t"
      using Suc.IH [OF m(5,6) _ Suc.prems(4) _ _ Suc.prems(7) bl] Suc.prems(3,5,6) n u by fastforce
    have "length (take n ?D) = n" "drop (unat (flashPos ?t)) d = drop n ?D"
      using n Suc.prems(3) u(2) by (simp_all add: add.commute)
    with store_append [of "unat (flashAddr s)" "take n ?D" "drop n ?D" f]
    have "store (unat (flashAddr ?t)) (drop (unat (flashPos ?t)) d) (carry m f) =
        store (unat (flashAddr s)) ?D f"
      by (simp only: append_take_drop_id m(2) u(1))
    then show ?thesis using ms m False by auto
  qed
qed

lemma unat_first_chunk:
  assumes "len \<noteq> 0" and "addr mod CHUNK = 0 \<or> CHUNK - addr mod CHUNK \<le> len"
  shows "0 < unat (first_chunk addr len)" "unat (first_chunk addr len) \<le> 128"
    "unat (first_chunk addr len) \<le> unat len"
proof -
  have l: "0 < unat len" using assms(1) by (simp add: unat_gt_0)
  have c: "unat (CHUNK - addr mod CHUNK) = 128 - unat (addr mod CHUNK)"
    "unat (addr mod CHUNK) < 128"
    by (simp_all add: unat_sub word_le_nat_alt unat_mod)
  show "0 < unat (first_chunk addr len)" "unat (first_chunk addr len) \<le> 128"
    "unat (first_chunk addr len) \<le> unat len"
    using assms(2) l c by (auto simp: first_chunk_def word_le_nat_alt)
qed

lemma req_flash_write_eq:
  assumes "no_oom s" and "addr mod 2 = 0" and "len mod 2 = 0" and "length data = unat len"
    and "unat (first_chunk addr len) \<le> unat len"
  obtains block junk where "length block = DRBCC_MAX_PAYLOAD"
    "snd (libdrbcc_req_flash_write addr len data s) =
      (let n = first_chunk addr len;
           s1 = s\<lparr>mallocs := Suc (mallocs s),
             secQueue := secQueue s @ [write_msg addr n (take (unat n) data) block]\<rparr>
       in if len = n then s1
          else s1\<lparr>flashAddr := addr + n, flashPos := 0, flashLen := len - n,
                  mallocs := Suc (Suc (mallocs s)), flashData := Some (drop (unat n) data)\<rparr>)"
proof -
  obtain block where b: "alloc_msg s = (Some block, s\<lparr>mallocs := Suc (mallocs s)\<rparr>)"
    "length block = DRBCC_MAX_PAYLOAD" using alloc_msg_no_oom [OF assms(1)] by blast
  obtain junk where j: "heap s (Suc (mallocs s)) = Some junk"
    using assms(1) by (auto simp: no_oom_def)
  define n where "n = first_chunk addr len"
  have le: "len \<le> n \<longleftrightarrow> len = n" "len - n = 0 \<longleftrightarrow> len = n" "unat n \<le> unat len"
    using assms(5) by (simp_all add: n_def word_le_nat_alt) (auto simp: word_unat_eq_iff)
  have "snd (libdrbcc_req_flash_write addr len data s) =
      (let s1 = s\<lparr>mallocs := Suc (mallocs s),
             secQueue := secQueue s @ [write_msg addr n (take (unat n) data) block]\<rparr>
       in if len = n then s1
          else s1\<lparr>flashAddr := addr + n, flashPos := 0, flashLen := len - n,
                  mallocs := Suc (Suc (mallocs s)), flashData := Some (drop (unat n) data)\<rparr>)"
    unfolding libdrbcc_req_flash_write_def n_def [symmetric]
    using assms(2-4) le j
    by (simp add: write_first_def b(1) save_rest_def fetch_def libdrbcc_add_msg_sec_def drbcc_malloc_def
      Let_def unat_sub word_le_nat_alt)
  then show thesis by (intro that [OF b(2)]) (simp add: n_def Let_def)
qed



end
