(* ===== verification/Partition.thy ===== *)
theory Partition
  imports Checksum Handle
begin

text \<open>
  The partition table of the external flash (\<^verbatim>\<open>drbcc_files.c\<close>): its encoding in the first
  126 bytes of a block, its checksum, the map of used blocks built from it, and the search
  for the best fitting free area that \<^verbatim>\<open>libdrbcc_put_file\<close> makes. The theorems are the
  round trip of the encoding and the correctness of the search.
\<close>

section \<open>Table entries\<close>

definition EMPTY_ENTRY :: u8 where
  "EMPTY_ENTRY = 0xF"

definition isEmpty :: "DRBCC_PARTENTRY_t \<Rightarrow> bool" where
  "isEmpty x \<longleftrightarrow> drop_bit 4 (typeinfo x) = EMPTY_ENTRY"

text \<open>Assigning the bit fields; a value is cut to the width of its field.\<close>

definition mk_typeinfo :: "u8 \<Rightarrow> u8 \<Rightarrow> u8 \<Rightarrow> u8" where
  "mk_typeinfo idx type blocktype =
     (idx AND 0x0F) OR push_bit 4 (type AND 0x07) OR push_bit 7 blocktype"

definition decode_entry :: "bytes \<Rightarrow> DRBCC_PARTENTRY_t" where
  "decode_entry bs =
     \<lparr>typeinfo = bs ! 0,
      startblock = ucast (bs ! 1) OR push_bit 8 (ucast (bs ! 2)),
      plength = ucast (bs ! 3) OR push_bit 8 (ucast (bs ! 4)) OR push_bit 16 (ucast (bs ! 5))\<rparr>"

definition encode_entry :: "DRBCC_PARTENTRY_t \<Rightarrow> bytes" where
  "encode_entry e =
     [typeinfo e,
      ucast (startblock e AND 0xFF),
      ucast (drop_bit 8 (startblock e) AND 0xFF),
      ucast (plength e AND 0xFF),
      ucast (drop_bit 8 (plength e) AND 0xFF),
      ucast (drop_bit 16 (plength e) AND 0xFF)]"

text \<open>The twenty entries behind the header of six bytes.\<close>

definition table_entry :: "bytes \<Rightarrow> nat \<Rightarrow> DRBCC_PARTENTRY_t" where
  "table_entry data i = decode_entry (drop (6 + 6 * i) data)"

definition table_entries :: "bytes \<Rightarrow> DRBCC_PARTENTRY_t list" where
  "table_entries data = map (table_entry data) [0..<20]"

section \<open>Magic and checksum\<close>

definition has_magic :: "bytes \<Rightarrow> bool" where
  "has_magic data \<longleftrightarrow> data ! 0 = DRBCC_PART_MAGIC1 \<and> data ! 1 = DRBCC_PART_MAGIC2"

definition table_crc :: "bytes \<Rightarrow> u16" where
  "table_crc data = foldl libdrbcc_crc_ccitt_update 0xffff (take 120 (drop 6 data))"

definition crc_matches :: "bytes \<Rightarrow> bool" where
  "crc_matches data \<longleftrightarrow>
     table_crc data AND 0xff = ucast (data ! 4) \<and>
     drop_bit 8 (table_crc data) AND 0xff = ucast (data ! 5)"

definition set_crc :: "bytes \<Rightarrow> bytes" where
  "set_crc data = data[4 := ucast (table_crc data AND 0xFF),
                       5 := ucast (drop_bit 8 (table_crc data) AND 0xFF)]"

text \<open>A new table in a local array of 128 bytes: the last two are not initialised.\<close>

definition build_table :: "DRBCC_PARTENTRY_t list \<Rightarrow> bytes \<Rightarrow> bytes" where
  "build_table e rest =
     set_crc ([DRBCC_PART_MAGIC1, DRBCC_PART_MAGIC2, 1, 0, 0, 0] @ concat (map encode_entry e) @ rest)"

section \<open>Finding a free area\<close>

text \<open>The block after the last one of an entry.\<close>

definition endblock :: "DRBCC_PARTENTRY_t \<Rightarrow> nat" where
  "endblock e = (if bits_blocktype e \<noteq> 0 then unat (startblock e) + unat (plength e)
     else unat (startblock e) + unat ((plength e + 0xfff) div 0x1000))"

definition mark_blocks :: "DRBCC_PARTENTRY_t \<Rightarrow> bool list \<Rightarrow> bool list" where
  "mark_blocks e blocks = fold (\<lambda>k bs. bs[k := True]) [unat (startblock e)..<endblock e] blocks"

definition init_blocks :: "bool list" where
  "init_blocks = replicate 4 True @ replicate 1020 False"

definition mark_all :: "DRBCC_PARTENTRY_t list \<Rightarrow> bool list" where
  "mark_all es = fold (\<lambda>e bs. if isEmpty e then bs else mark_blocks e bs) es init_blocks"

text \<open>Does marking stay inside of \<^verbatim>\<open>blocks[1024]\<close>?\<close>

definition in_range :: "DRBCC_PARTENTRY_t \<Rightarrow> bool" where
  "in_range e \<longleftrightarrow> isEmpty e \<or> endblock e \<le> 1024 \<or> endblock e \<le> unat (startblock e)"

record FREE_USED_TABLE_t =
  fu_start :: int
  fu_end :: int
  fu_free :: bool

text \<open>The table is the list \<^verbatim>\<open>free_used[0..j]\<close>; its first element was never initialised.\<close>

definition collect_step :: "bool list \<Rightarrow> nat \<Rightarrow> FREE_USED_TABLE_t list \<times> bool \<Rightarrow> FREE_USED_TABLE_t list \<times> bool" where
  "collect_step blocks i = (\<lambda>(tbl, was_used).
     if blocks ! i \<and> was_used then (butlast tbl @ [(last tbl)\<lparr>fu_end := int i\<rparr>], True)
     else if blocks ! i then (tbl @ [\<lparr>fu_start = int i, fu_end = int i, fu_free = False\<rparr>], True)
     else if was_used then (tbl @ [\<lparr>fu_start = int i, fu_end = int i, fu_free = True\<rparr>], False)
     else (butlast tbl @ [(last tbl)\<lparr>fu_end := int i\<rparr>], False))"

definition collect :: "bool list \<Rightarrow> FREE_USED_TABLE_t \<Rightarrow> FREE_USED_TABLE_t list" where
  "collect blocks junk = fst (fold (collect_step blocks) [4..<1024] ([junk], True))"

definition requiredBlocks :: "u32 \<Rightarrow> int" where
  "requiredBlocks maxlen = uint ((maxlen + 0xfff) div 0x1000)"

definition fit_step :: "int \<Rightarrow> FREE_USED_TABLE_t list \<Rightarrow> nat \<Rightarrow> nat \<times> int \<Rightarrow> nat \<times> int" where
  "fit_step required tbl i = (\<lambda>(found, foundsize).
     let blocksize = fu_end (tbl ! i) - fu_start (tbl ! i) + 1
     in if fu_free (tbl ! i) \<and> blocksize \<ge> required
        then if found \<noteq> 0
             then if blocksize < foundsize then (i, blocksize) else (found, foundsize)
             else (i, blocksize)
        else (found, foundsize))"

definition best_fit :: "int \<Rightarrow> FREE_USED_TABLE_t list \<Rightarrow> nat" where
  "best_fit required tbl = fst (fold (fit_step required tbl) [0..<length tbl] (0, 0))"

section \<open>The encoding\<close>

lemma length_encode_entry [simp]: "length (encode_entry e) = 6"
  by (simp add: encode_entry_def)

lemma mask_FF: "(0xFF :: u16) = mask 8" "(0xFF :: u32) = mask 8"
  by (simp_all add: mask_eq_exp_minus_1)

lemma decode_encode_startblock:
  "(ucast (ucast (b AND 0xFF) :: u8) OR push_bit 8 (ucast (ucast (drop_bit 8 b AND 0xFF) :: u8)) :: u16) = b"
  unfolding mask_FF by (rule bit_word_eqI) (auto simp: bit_simps dest: bit_imp_le_length)

lemma decode_encode_length:
  assumes "take_bit 24 l = l"
  shows "(ucast (ucast (l AND 0xFF) :: u8) OR push_bit 8 (ucast (ucast (drop_bit 8 l AND 0xFF) :: u8)) OR
    push_bit 16 (ucast (ucast (drop_bit 16 l AND 0xFF) :: u8)) :: u32) = l"
proof (rule bit_word_eqI)
  fix n :: nat
  assume n: "n < LENGTH(32)"
  have "bit l n \<longleftrightarrow> n < 24 \<and> bit l n"
    by (subst assms [symmetric]) (simp add: bit_take_bit_iff)
  then show "bit (ucast (ucast (l AND 0xFF) :: u8) OR push_bit 8 (ucast (ucast (drop_bit 8 l AND 0xFF) :: u8)) OR
    push_bit 16 (ucast (ucast (drop_bit 16 l AND 0xFF) :: u8)) :: u32) n = bit l n"
    unfolding mask_FF using n by (cases "n < 16") (auto simp: bit_simps)
qed

lemma decode_encode_entry:
  "take_bit 24 (plength e) = plength e \<Longrightarrow> decode_entry (encode_entry e @ bs) = e"
  by (simp add: decode_entry_def encode_entry_def decode_encode_startblock decode_encode_length)

lemma drop_concat_uniform:
  "(\<forall>x\<in>set xs. length (f x) = k) \<Longrightarrow> i \<le> length xs \<Longrightarrow>
     drop (k * i) (concat (map f xs)) = concat (map f (drop i xs))"
proof (induction xs arbitrary: i)
  case (Cons x xs)
  then show ?case by (cases i) auto
qed simp

lemma length_concat_encode [simp]: "length (concat (map encode_entry es)) = 6 * length es"
  by (induction es) simp_all

lemma length_set_crc [simp]: "length (set_crc data) = length data"
  by (simp add: set_crc_def)

lemma set_crc_drop [simp]: "6 \<le> n \<Longrightarrow> drop n (set_crc data) = drop n data"
  by (simp add: set_crc_def)

lemma table_crc_set_crc [simp]: "table_crc (set_crc data) = table_crc data"
  by (simp add: table_crc_def)

lemma set_crc_nth [simp]: "i < 4 \<Longrightarrow> set_crc data ! i = data ! i"
  by (simp add: set_crc_def)

lemma crc_matches_set_crc: "6 \<le> length data \<Longrightarrow> crc_matches (set_crc data)"
proof -
  have "ucast (ucast (x AND 0xFF) :: u8) = x AND 0xFF" for x :: u16
    unfolding mask_FF by (rule bit_word_eqI) (auto simp: bit_simps)
  then show "6 \<le> length data \<Longrightarrow> crc_matches (set_crc data)"
    by (simp add: crc_matches_def) (simp add: set_crc_def)
qed

lemma table_entry_build:
  assumes "length es = 20" and "i < 20" and "take_bit 24 (plength (es ! i)) = plength (es ! i)"
  shows "table_entry (build_table es rest) i = es ! i"
proof -
  have "drop (6 + 6 * i) (build_table es rest) = drop (6 * i) (concat (map encode_entry es) @ rest)"
    by (simp add: build_table_def drop_Cons')
  also have "\<dots> = concat (map encode_entry (drop i es)) @ drop (6 * i - 120) rest"
    using assms(1,2) by (simp add: drop_concat_uniform)
  also have "drop i es = es ! i # drop (Suc i) es"
    using assms(1,2) by (simp add: Cons_nth_drop_Suc)
  finally show ?thesis using assms(3) by (simp add: table_entry_def decode_encode_entry)
qed

lemma table_built:
  assumes "length es = 20" and "\<forall>e\<in>set es. unat (plength e) < 2 ^ 24"
  shows "table_entries (build_table es rest) = es \<and> has_magic (build_table es rest) \<and>
    crc_matches (build_table es rest)"
proof -
  have "take_bit 24 (plength (es ! i)) = plength (es ! i)" if "i < 20" for i
  proof -
    have "unat (plength (es ! i)) < 2 ^ 24" using assms that by simp
    then show ?thesis by (intro word_unat_eq_iff [THEN iffD2])
      (simp add: unsigned_take_bit_eq take_bit_nat_eq_self)
  qed
  then have "table_entries (build_table es rest) = es"
    using assms(1) by (intro nth_equalityI) (simp_all add: table_entries_def table_entry_build)
  moreover have "has_magic (build_table es rest)"
    by (simp add: has_magic_def build_table_def)
  ultimately show ?thesis by (simp add: build_table_def crc_matches_set_crc)
qed


section \<open>The map of used blocks\<close>

definition occupies :: "DRBCC_PARTENTRY_t \<Rightarrow> nat \<Rightarrow> bool" where
  "occupies e x \<longleftrightarrow> \<not> isEmpty e \<and> unat (startblock e) \<le> x \<and> x < endblock e"

lemma nth_fold_mark:
  "x < length bs \<Longrightarrow> fold (\<lambda>k bs. bs[k := True]) ks bs ! x \<longleftrightarrow> bs ! x \<or> x \<in> set ks"
proof (induction ks arbitrary: bs)
  case (Cons k ks)
  then show ?case by (cases "x = k") auto
qed simp

lemma length_fold_mark [simp]: "length (fold (\<lambda>k bs. bs[k := True]) ks bs) = length bs"
  by (induction ks arbitrary: bs) simp_all

lemma mark_all_from:
  fixes bs :: "bool list"
  defines "mark \<equiv> fold (\<lambda>e bs. if isEmpty e then bs else mark_blocks e bs)"
  shows "length (mark es bs) = length bs"
    and "x < length bs \<Longrightarrow> mark es bs ! x \<longleftrightarrow> bs ! x \<or> (\<exists>e\<in>set es. occupies e x)"
  unfolding mark_def
  by (induction es arbitrary: bs) (auto simp: mark_blocks_def nth_fold_mark occupies_def)

lemma length_init_blocks: "length init_blocks = 1024"
  by (simp only: init_blocks_def length_append length_replicate)

lemma nth_init_blocks: "x < 1024 \<Longrightarrow> init_blocks ! x \<longleftrightarrow> x < 4"
  unfolding init_blocks_def nth_append length_replicate by (cases "x < 4") (simp_all only: nth_replicate if_True if_False)

lemma length_mark_all [simp]: "length (mark_all es) = 1024"
  by (simp add: mark_all_def mark_all_from length_init_blocks)

lemma mark_all_iff:
  "x < 1024 \<Longrightarrow> mark_all es ! x \<longleftrightarrow> x < 4 \<or> (\<exists>e\<in>set es. occupies e x)"
  by (simp add: mark_all_def mark_all_from length_init_blocks nth_init_blocks)

section \<open>Collecting the areas\<close>

definition free_run :: "bool list \<Rightarrow> nat \<Rightarrow> nat \<Rightarrow> bool" where
  "free_run blocks a b \<longleftrightarrow> (\<forall>x. a \<le> x \<and> x \<le> b \<longrightarrow> \<not> blocks ! x)"

definition covers :: "FREE_USED_TABLE_t \<Rightarrow> nat \<Rightarrow> nat \<Rightarrow> bool" where
  "covers e a b \<longleftrightarrow> fu_free e \<and> fu_start e \<le> int a \<and> int b \<le> fu_end e"

definition area_ok :: "bool list \<Rightarrow> nat \<Rightarrow> FREE_USED_TABLE_t \<Rightarrow> bool" where
  "area_ok blocks n e \<longleftrightarrow> 4 \<le> fu_start e \<and> fu_start e \<le> fu_end e \<and> fu_end e < int n \<and>
     (\<forall>x. fu_start e \<le> int x \<and> int x \<le> fu_end e \<longrightarrow> blocks ! x = (\<not> fu_free e))"

definition run_starts :: "bool list \<Rightarrow> nat \<Rightarrow> nat set" where
  "run_starts blocks n = {x. 4 \<le> x \<and> x < n \<and> blocks ! x \<and> \<not> blocks ! (x - 1)}"

text \<open>The invariant of the loop: \<open>ts\<close> are the initialised entries of the table when the
  blocks below \<open>n\<close> were visited.\<close>

definition areas_inv :: "bool list \<Rightarrow> nat \<Rightarrow> FREE_USED_TABLE_t list \<Rightarrow> bool \<Rightarrow> bool" where
  "areas_inv blocks n ts used \<longleftrightarrow>
     used = blocks ! (n - 1) \<and> list_all (area_ok blocks n) ts \<and>
     (if ts = [] then used else fu_end (last ts) = int n - 1 \<and> fu_free (last ts) = (\<not> used)) \<and>
     list_all (\<lambda>e. fu_end e < int n - 1) (butlast ts) \<and>
     (\<forall>a b. 4 \<le> a \<and> a \<le> b \<and> b < n \<and> free_run blocks a b \<longrightarrow> list_ex (\<lambda>e. covers e a b) ts) \<and>
     length ts = 2 * card (run_starts blocks n) + (if used then 0 else 1)"

lemma run_starts_Suc:
  "4 \<le> n \<Longrightarrow> run_starts blocks (Suc n) =
     (if blocks ! n \<and> \<not> blocks ! (n - 1) then insert n (run_starts blocks n) else run_starts blocks n)"
  by (auto simp: run_starts_def less_Suc_eq)

lemma finite_run_starts [simp]: "finite (run_starts blocks n)"
  by (rule finite_subset [of _ "{..<n}"]) (auto simp: run_starts_def)

lemma card_run_starts_Suc:
  "4 \<le> n \<Longrightarrow> card (run_starts blocks (Suc n)) =
     card (run_starts blocks n) + (if blocks ! n \<and> \<not> blocks ! (n - 1) then 1 else 0)"
  by (simp add: run_starts_Suc) (simp add: run_starts_def)

lemma area_ok_extend:
  assumes "area_ok blocks n e" and "fu_end e = int n - 1" and "fu_free e = (\<not> blocks ! n)"
  shows "area_ok blocks (Suc n) (e\<lparr>fu_end := int n\<rparr>)"
proof -
  have e: "4 \<le> fu_start e" "fu_start e \<le> fu_end e"
    and u: "fu_start e \<le> int x \<Longrightarrow> int x \<le> fu_end e \<Longrightarrow> blocks ! x = (\<not> fu_free e)" for x
    using assms(1) unfolding area_ok_def by blast+
  have "blocks ! x = (\<not> fu_free e)" if x: "fu_start e \<le> int x" "int x \<le> int n" for x
  proof (cases "x = n")
    case False
    with x(2) have "int x \<le> fu_end e" unfolding assms(2) by linarith
    with x(1) show ?thesis by (rule u)
  qed (use assms(3) in simp)
  then show ?thesis unfolding area_ok_def using e assms(2) by simp
qed

lemma area_ok_mono: "area_ok blocks n e \<Longrightarrow> area_ok blocks (Suc n) e"
  by (auto simp: area_ok_def)

lemma areas_inv_append:
  assumes inv: "areas_inv blocks n ts used" and n: "4 \<le> n" and d: "blocks ! n \<noteq> used"
  shows "areas_inv blocks (Suc n)
    (ts @ [\<lparr>fu_start = int n, fu_end = int n, fu_free = (\<not> blocks ! n)\<rparr>]) (blocks ! n)"
proof -
  let ?e = "\<lparr>fu_start = int n, fu_end = int n, fu_free = (\<not> blocks ! n)\<rparr>"
  have u: "used = blocks ! (n - 1)" and ok: "list_all (area_ok blocks n) ts"
    and cov: "\<And>a b. 4 \<le> a \<Longrightarrow> a \<le> b \<Longrightarrow> b < n \<Longrightarrow> free_run blocks a b \<Longrightarrow> list_ex (\<lambda>e. covers e a b) ts"
    and len: "length ts = 2 * card (run_starts blocks n) + (if used then 0 else 1)"
    using inv unfolding areas_inv_def by blast+
  have "list_ex (\<lambda>e. covers e a b) (ts @ [?e])"
    if "4 \<le> a" "a \<le> b" "b < Suc n" and free: "free_run blocks a b" for a b
  proof (cases "b = n")
    case True
    with free that have "\<not> blocks ! n" by (simp add: free_run_def)
    with u d have "blocks ! (n - 1)" by blast
    have "a = n"
    proof (rule ccontr)
      assume "a \<noteq> n"
      with that True n have "\<not> blocks ! (n - 1)" using free by (simp add: free_run_def)
      with \<open>blocks ! (n - 1)\<close> show False by blast
    qed
    with True \<open>\<not> blocks ! n\<close> show ?thesis by (simp add: covers_def)
  next
    case False
    with that cov [of a b] show ?thesis by simp
  qed
  moreover have "area_ok blocks (Suc n) ?e"
    using n by (auto simp: area_ok_def dest: le_antisym)
  moreover have "list_all (area_ok blocks (Suc n)) ts"
    using ok by (auto simp: list_all_iff area_ok_mono)
  moreover have "list_all (\<lambda>e. fu_end e < int n) ts"
    using ok by (auto simp: list_all_iff area_ok_def)
  ultimately show ?thesis
    using u d len n unfolding areas_inv_def by (auto simp: card_run_starts_Suc)
qed

lemma areas_inv_extend:
  assumes inv: "areas_inv blocks n (us @ [e]) used" and n: "4 \<le> n" and d: "blocks ! n = used"
  shows "areas_inv blocks (Suc n) (us @ [e\<lparr>fu_end := int n\<rparr>]) used"
proof -
  let ?e = "e\<lparr>fu_end := int n\<rparr>"
  have u: "used = blocks ! (n - 1)" and ok: "list_all (area_ok blocks n) us" "area_ok blocks n e"
    and e: "fu_end e = int n - 1" "fu_free e = (\<not> used)"
    and us: "list_all (\<lambda>e. fu_end e < int n - 1) us"
    and cov: "\<And>a b. 4 \<le> a \<Longrightarrow> a \<le> b \<Longrightarrow> b < n \<Longrightarrow> free_run blocks a b \<Longrightarrow>
      list_ex (\<lambda>e. covers e a b) us \<or> covers e a b"
    and len: "length (us @ [e]) = 2 * card (run_starts blocks n) + (if used then 0 else 1)"
    using inv unfolding areas_inv_def by auto
  have "list_ex (\<lambda>e. covers e a b) us \<or> covers ?e a b"
    if ab: "4 \<le> a" "a \<le> b" "b < Suc n" and free: "free_run blocks a b" for a b
  proof (cases "b = n")
    case True
    with free ab have used: "\<not> used" by (auto simp: free_run_def d [symmetric])
    show ?thesis
    proof (cases "a = n")
      case True
      with ok(2) e used \<open>b = n\<close> show ?thesis by (simp add: covers_def area_ok_def)
    next
      case False
      with ab True n free have "free_run blocks a (n - 1)" "a \<le> n - 1" "n - 1 < n"
        by (auto simp: free_run_def)
      with cov ab(1) have "list_ex (\<lambda>e. covers e a (n - 1)) us \<or> covers e a (n - 1)" by blast
      moreover have "\<not> list_ex (\<lambda>e. covers e a (n - 1)) us"
        using us n by (auto simp: list_ex_iff list_all_iff covers_def of_nat_diff)
      ultimately show ?thesis using True by (simp add: covers_def)
    qed
  next
    case False
    with ab cov [of a b] free have "list_ex (\<lambda>e. covers e a b) us \<or> covers e a b" by simp
    then show ?thesis using ab(3) False e(1) by (auto simp: covers_def)
  qed
  moreover have "area_ok blocks (Suc n) ?e"
    using area_ok_extend [OF ok(2) e(1)] e(2) d by simp
  moreover have "list_all (area_ok blocks (Suc n)) us" "list_all (\<lambda>e. fu_end e < int n) us"
    using ok(1) us by (auto simp: list_all_iff area_ok_mono)
  ultimately show ?thesis
    using u d len n e unfolding areas_inv_def by (auto simp: card_run_starts_Suc)
qed

lemma collect_areas:
  assumes "4 \<le> n" and "blocks ! 3"
  shows "\<exists>j ts used. fold (collect_step blocks) [4..<n] ([junk], True) = (j # ts, used) \<and>
    areas_inv blocks n ts used"
  using assms(1)
proof (induction n rule: nat_induct_at_least)
  case base
  have "run_starts blocks 4 = {}" by (auto simp: run_starts_def)
  then have "areas_inv blocks 4 [] True" using assms(2) by (simp add: areas_inv_def)
  then show ?case by auto
next
  case (Suc n)
  then obtain j ts used where f: "fold (collect_step blocks) [4..<n] ([junk], True) = (j # ts, used)"
    and inv: "areas_inv blocks n ts used" by blast
  have step: "fold (collect_step blocks) [4..<Suc n] ([junk], True) = collect_step blocks n (j # ts, used)"
    using Suc.hyps f by simp
  have nil: "ts = [] \<Longrightarrow> used" using inv by (auto simp: areas_inv_def)
  consider "blocks ! n \<noteq> used" | "blocks ! n = used" "ts = []" | us e where "blocks ! n = used" "ts = us @ [e]"
    by (cases ts rule: rev_cases) blast+
  then show ?case
  proof cases
    case 1
    then have "collect_step blocks n (j # ts, used) =
        (j # ts @ [\<lparr>fu_start = int n, fu_end = int n, fu_free = (\<not> blocks ! n)\<rparr>], blocks ! n)"
      by (cases used) (simp_all add: collect_step_def)
    with areas_inv_append [OF inv Suc.hyps 1] show ?thesis unfolding step by blast
  next
    case 2
    then have "run_starts blocks (Suc n) = run_starts blocks n" "used = blocks ! (n - 1)"
      using inv Suc.hyps by (auto simp: run_starts_Suc areas_inv_def)
    then have "areas_inv blocks (Suc n) [] used"
      using 2 nil inv Suc.hyps by (auto simp: areas_inv_def free_run_def less_Suc_eq)
    moreover have "collect_step blocks n (j # ts, used) = (j\<lparr>fu_end := int n\<rparr> # [], used)"
      using 2 nil by (simp add: collect_step_def)
    ultimately show ?thesis unfolding step by blast
  next
    case (3 us e)
    then have "areas_inv blocks (Suc n) (us @ [e\<lparr>fu_end := int n\<rparr>]) used"
      using areas_inv_extend inv Suc.hyps by blast
    moreover have "collect_step blocks n (j # ts, used) = (j # us @ [e\<lparr>fu_end := int n\<rparr>], used)"
      using 3 by (simp add: collect_step_def butlast_append)
    ultimately show ?thesis unfolding step by blast
  qed
qed

section \<open>Choosing an area\<close>

definition area_size :: "FREE_USED_TABLE_t \<Rightarrow> int" where
  "area_size e = fu_end e - fu_start e + 1"

definition fits :: "int \<Rightarrow> FREE_USED_TABLE_t \<Rightarrow> bool" where
  "fits required e \<longleftrightarrow> fu_free e \<and> required \<le> area_size e"

lemma fit_fold:
  assumes "fold (fit_step required tbl) [0..<k] (0, 0) = (found, sz)"
  shows "if found = 0 then \<forall>i. 1 \<le> i \<and> i < k \<longrightarrow> \<not> fits required (tbl ! i)
    else found < k \<and> fits required (tbl ! found) \<and> sz = area_size (tbl ! found) \<and>
      (\<forall>i. 1 \<le> i \<and> i < k \<and> fits required (tbl ! i) \<longrightarrow> sz \<le> area_size (tbl ! i))"
  using assms
proof (induction k arbitrary: found sz)
  case (Suc k)
  obtain f z where fz: "fold (fit_step required tbl) [0..<k] (0, 0) = (f, z)" by fastforce
  note IH = Suc.IH [OF fz]
  have "fit_step required tbl k (f, z) = (found, sz)" using Suc.prems fz by simp
  then have step: "(found, sz) = (if fits required (tbl ! k) \<and> (f \<noteq> 0 \<longrightarrow> area_size (tbl ! k) < z)
      then (k, area_size (tbl ! k)) else (f, z))"
    by (auto simp: fit_step_def fits_def area_size_def Let_def split: if_splits)
  show ?case
  proof (cases "fits required (tbl ! k) \<and> (f \<noteq> 0 \<longrightarrow> area_size (tbl ! k) < z)")
    case True
    with step have found: "found = k" "sz = area_size (tbl ! k)" by simp_all
    have "sz \<le> area_size (tbl ! i)" if i: "1 \<le> i" "i < Suc k" "fits required (tbl ! i)" for i
    proof (cases "i = k")
      case False
      with i have "f \<noteq> 0" "z \<le> area_size (tbl ! i)" using IH by (auto split: if_splits)
      with True show ?thesis by (simp add: found)
    qed (simp add: found)
    with True show ?thesis by (auto simp: found)
  next
    case False
    with step IH show ?thesis
      by (cases "f = 0") (auto simp: less_Suc_eq split: if_splits)
  qed
qed simp

lemma best_fit_spec:
  "if best_fit required tbl = 0 then \<forall>i. 1 \<le> i \<and> i < length tbl \<longrightarrow> \<not> fits required (tbl ! i)
   else best_fit required tbl < length tbl \<and> fits required (tbl ! best_fit required tbl) \<and>
     (\<forall>i. 1 \<le> i \<and> i < length tbl \<and> fits required (tbl ! i) \<longrightarrow>
        area_size (tbl ! best_fit required tbl) \<le> area_size (tbl ! i))"
  using fit_fold [of required tbl "length tbl"]
  by (cases "fold (fit_step required tbl) [0..<length tbl] (0, 0)") (auto simp: best_fit_def split: if_splits)

section \<open>The search is correct\<close>

lemma collect_mark_all:
  obtains j ts used where "collect (mark_all es) junk = j # ts" "areas_inv (mark_all es) 1024 ts used"
proof -
  have "mark_all es ! 3" by (simp add: mark_all_iff)
  then obtain j ts used where "fold (collect_step (mark_all es)) [4..<1024] ([junk], True) = (j # ts, used)"
    "areas_inv (mark_all es) 1024 ts used" using collect_areas [of 1024 "mark_all es" junk] by auto
  with that show thesis by (simp only: collect_def fst_conv)
qed

lemma run_starts_subset:
  "run_starts (mark_all es) 1024 \<subseteq> set (map (\<lambda>e. unat (startblock e)) (filter (\<lambda>e. \<not> isEmpty e) es))"
proof
  fix x assume "x \<in> run_starts (mark_all es) 1024"
  then have x: "4 \<le> x" "x < 1024" "mark_all es ! x" "\<not> mark_all es ! (x - 1)"
    by (auto simp: run_starts_def)
  then obtain e where e: "e \<in> set es" "occupies e x" by (auto simp: mark_all_iff)
  from x e(1) have "\<not> occupies e (x - 1)" by (auto simp: mark_all_iff)
  with e(2) x(1) have "unat (startblock e) = x" by (auto simp: occupies_def)
  with e show "x \<in> set (map (\<lambda>e. unat (startblock e)) (filter (\<lambda>e. \<not> isEmpty e) es))"
    by (auto simp: occupies_def)
qed

lemma areas_bound:
  assumes "length es = 20" and "\<exists>e\<in>set es. isEmpty e"
  shows "length (collect (mark_all es) junk) \<le> 40"
proof -
  obtain j ts used where c: "collect (mark_all es) junk = j # ts" "areas_inv (mark_all es) 1024 ts used"
    by (rule collect_mark_all)
  have "card (run_starts (mark_all es) 1024) \<le> length (filter (\<lambda>e. \<not> isEmpty e) es)"
    using card_mono [OF _ run_starts_subset [of es]] card_length
    by (metis List.finite_set dual_order.trans length_map)
  moreover have "length (filter (\<lambda>e. \<not> isEmpty e) es) < 20"
    using assms by (metis length_filter_less)
  ultimately show ?thesis using c by (auto simp: areas_inv_def)
qed

text \<open>C34. The array \<^verbatim>\<open>free_used[40]\<close> is large enough: a table of twenty entries one of
  which is empty never has more than forty areas, however its entries overlap.\<close>

theorem free_used_bound:
  assumes "length es = 20" and "\<exists>e\<in>set es. isEmpty e"
  shows "length (collect (mark_all es) junk) \<le> 40"
  using assms by (rule areas_bound)

text \<open>An area of blocks that no entry uses and that cannot be made larger.\<close>

definition free_area :: "DRBCC_PARTENTRY_t list \<Rightarrow> nat \<Rightarrow> nat \<Rightarrow> bool" where
  "free_area es c d \<longleftrightarrow> 4 \<le> c \<and> c \<le> d \<and> d < 1024 \<and> (\<forall>x. c \<le> x \<and> x \<le> d \<longrightarrow> \<not> (\<exists>e\<in>set es. occupies e x)) \<and>
     (c = 4 \<or> (\<exists>e\<in>set es. occupies e (c - 1))) \<and> (d = 1023 \<or> (\<exists>e\<in>set es. occupies e (d + 1)))"

lemma free_run_mark_all:
  "4 \<le> a \<Longrightarrow> b < 1024 \<Longrightarrow>
     free_run (mark_all es) a b \<longleftrightarrow> (\<forall>x. a \<le> x \<and> x \<le> b \<longrightarrow> \<not> (\<exists>e\<in>set es. occupies e x))"
  by (auto simp: free_run_def mark_all_iff)

lemma area_ok_free:
  assumes "area_ok (mark_all es) 1024 t" and "fu_free t"
  shows "fu_start t \<le> int x \<Longrightarrow> int x \<le> fu_end t \<Longrightarrow> \<not> (\<exists>e\<in>set es. occupies e x)"
  using assms by (auto simp: area_ok_def mark_all_iff)

lemma covers_free_area:
  assumes "area_ok (mark_all es) 1024 t" and "covers t c d" and "free_area es c d"
  shows "area_size t = int d - int c + 1"
proof -
  have t: "fu_free t" "fu_start t \<le> int c" "int d \<le> fu_end t" "4 \<le> fu_start t" "fu_end t < 1024"
    using assms(1,2) by (auto simp: covers_def area_ok_def)
  note free = area_ok_free [OF assms(1) t(1)]
  have "fu_start t = int c"
    using free [of "c - 1"] t assms(3) by (force simp: free_area_def of_nat_diff)
  moreover have "fu_end t = int d"
    using free [of "d + 1"] t assms(3) by (force simp: free_area_def)
  ultimately show ?thesis by (simp add: area_size_def)
qed

lemma collect_fits:
  assumes "collect (mark_all es) junk = j # ts" and "areas_inv (mark_all es) 1024 ts used"
    and "4 \<le> c" "c \<le> d" "d < 1024" and "\<forall>x. c \<le> x \<and> x \<le> d \<longrightarrow> \<not> (\<exists>e\<in>set es. occupies e x)"
  obtains i where "1 \<le> i" "i < length (collect (mark_all es) junk)"
    "covers (collect (mark_all es) junk ! i) c d" "area_ok (mark_all es) 1024 (collect (mark_all es) junk ! i)"
proof -
  have "free_run (mark_all es) c d" using assms(3-6) by (simp add: free_run_mark_all)
  with assms(2-5) have "list_ex (\<lambda>e. covers e c d) ts" "list_all (area_ok (mark_all es) 1024) ts"
    unfolding areas_inv_def by blast+
  then obtain t where "t \<in> set ts" "covers t c d" "area_ok (mark_all es) 1024 t"
    by (auto simp: list_ex_iff list_all_iff)
  then obtain k where "k < length ts" "covers (ts ! k) c d" "area_ok (mark_all es) 1024 (ts ! k)"
    by (metis in_set_conv_nth)
  with assms(1) show thesis by (intro that [of "Suc k"]) simp_all
qed

lemma no_fit_blocked:
  assumes "best_fit required (collect (mark_all es) junk) = 0" and "1 \<le> required"
    and "4 \<le> c" "int c + required \<le> 1024"
  shows "\<exists>x. c \<le> x \<and> int x < int c + required \<and> (\<exists>e\<in>set es. occupies e x)"
proof (rule ccontr)
  let ?d = "c + nat required - 1" and ?tbl = "collect (mark_all es) junk"
  assume free: "\<not> ?thesis"
  obtain j ts used where ts: "?tbl = j # ts" "areas_inv (mark_all es) 1024 ts used"
    by (rule collect_mark_all)
  have "\<forall>x. c \<le> x \<and> x \<le> ?d \<longrightarrow> \<not> (\<exists>e\<in>set es. occupies e x)"
  proof (intro allI impI)
    fix x assume "c \<le> x \<and> x \<le> ?d"
    then have "c \<le> x" "int x < int c + required" using assms(2) by auto
    with free show "\<not> (\<exists>e\<in>set es. occupies e x)" by blast
  qed
  moreover have "c \<le> ?d" "?d < 1024" using assms(2-4) by auto
  ultimately obtain i where i: "1 \<le> i" "i < length ?tbl" "covers (?tbl ! i) c ?d"
    using collect_fits [OF ts assms(3)] by metis
  from i(3) have "fits required (?tbl ! i)"
    using assms(2) by (auto simp: fits_def covers_def area_size_def)
  with i(1,2) show False using best_fit_spec [of required ?tbl] assms(1) by auto
qed

lemma fit_least:
  assumes "tbl = collect (mark_all es) junk" and "k = best_fit required tbl" and "k \<noteq> 0"
    and "free_area es c d" "required \<le> int d - int c + 1"
  shows "area_size (tbl ! k) \<le> int d - int c + 1"
proof -
  obtain j ts used where ts: "tbl = j # ts" "areas_inv (mark_all es) 1024 ts used"
    unfolding assms(1) by (rule collect_mark_all)
  obtain i where i: "1 \<le> i" "i < length tbl" "covers (tbl ! i) c d" "area_ok (mark_all es) 1024 (tbl ! i)"
    using collect_fits [OF ts [unfolded assms(1)], folded assms(1), of c d] assms(4)
    by (auto simp: free_area_def)
  have sz: "area_size (tbl ! i) = int d - int c + 1"
    by (rule covers_free_area [OF i(4,3) assms(4)])
  with i(3) assms(5) have "fits required (tbl ! i)" by (simp add: fits_def covers_def)
  with i(1,2) have "area_size (tbl ! k) \<le> area_size (tbl ! i)"
    using best_fit_spec [of required tbl] assms(2,3) by auto
  with sz show ?thesis by simp
qed

lemma fit_area_ok:
  assumes "tbl = collect (mark_all es) junk" and "k = best_fit required tbl" and "k \<noteq> 0"
  shows "area_ok (mark_all es) 1024 (tbl ! k)" "fits required (tbl ! k)"
proof -
  obtain j ts used where ts: "tbl = j # ts" "areas_inv (mark_all es) 1024 ts used"
    unfolding assms(1) by (rule collect_mark_all)
  from best_fit_spec [of required tbl] assms(2,3)
  have k: "k < length tbl" "fits required (tbl ! k)" by auto
  then show "fits required (tbl ! k)" by simp
  have "tbl ! k \<in> set ts" using k(1) assms(3) ts(1) by (cases k) auto
  then show "area_ok (mark_all es) 1024 (tbl ! k)"
    using ts(2) by (auto simp: areas_inv_def list_all_iff)
qed

text \<open>C20. The search of \<^verbatim>\<open>libdrbcc_put_file\<close> finds the best fitting free area, whatever the
  uninitialised first element of its table holds. If it finds one, the area lies in the
  blocks 4 to 1023, no entry of the table uses any of its blocks, it is large enough, and no
  free area that is large enough is smaller. If it finds none, every place for the file
  meets a block that is in use.\<close>

theorem best_fit_correct:
  assumes "1 \<le> required" and "tbl = collect (mark_all es) junk" and "k = best_fit required tbl"
  shows "if k = 0
    then \<forall>c. 4 \<le> c \<and> int c + required \<le> 1024 \<longrightarrow>
      (\<exists>x. c \<le> x \<and> int x < int c + required \<and> (\<exists>e\<in>set es. occupies e x))
    else 4 \<le> fu_start (tbl ! k) \<and> fu_end (tbl ! k) < 1024 \<and>
      required \<le> fu_end (tbl ! k) - fu_start (tbl ! k) + 1 \<and>
      (\<forall>x. fu_start (tbl ! k) \<le> int x \<and> int x \<le> fu_end (tbl ! k) \<longrightarrow> \<not> (\<exists>e\<in>set es. occupies e x)) \<and>
      (\<forall>c d. free_area es c d \<and> required \<le> int d - int c + 1 \<longrightarrow>
         fu_end (tbl ! k) - fu_start (tbl ! k) \<le> int d - int c)"
proof (cases "k = 0")
  case True
  then show ?thesis using no_fit_blocked assms by auto
next
  case False
  note ok = fit_area_ok [OF assms(2,3) False] and least = fit_least [OF assms(2,3) False]
  then have "fu_free (tbl ! k)" by (simp add: fits_def)
  then have "\<forall>x. fu_start (tbl ! k) \<le> int x \<and> int x \<le> fu_end (tbl ! k) \<longrightarrow> \<not> (\<exists>e\<in>set es. occupies e x)"
    using area_ok_free [OF ok(1)] by blast
  moreover have "\<forall>c d. free_area es c d \<and> required \<le> int d - int c + 1 \<longrightarrow>
      fu_end (tbl ! k) - fu_start (tbl ! k) \<le> int d - int c"
    using least by (auto simp: area_size_def)
  ultimately show ?thesis
    using False ok by (simp add: fits_def area_size_def area_ok_def)
qed

text \<open>An entry as \<^verbatim>\<open>memset(e, 0xFF, sizeof(e))\<close> leaves it; only three bytes of the length
  reach the flash.\<close>

definition blank_entry :: DRBCC_PARTENTRY_t where
  "blank_entry = \<lparr>typeinfo = 0xFF, startblock = 0xFFFF, plength = 0xFFFFFFFF\<rparr>"


theorem free_used_bound_witness:
  "length (collect (mark_all (replicate 20 blank_entry)) \<lparr>fu_start = 0, fu_end = 0, fu_free = True\<rparr>) \<le> 40"
  by (rule free_used_bound) (simp_all add: blank_entry_def isEmpty_def EMPTY_ENTRY_def)

theorem best_fit_correct_witness:
  "let tbl = collect (mark_all []) \<lparr>fu_start = -7, fu_end = 5000, fu_free = True\<rparr>; k = best_fit 3 tbl
   in k \<noteq> 0 \<and> 4 \<le> fu_start (tbl ! k) \<and> fu_end (tbl ! k) < 1024"
  using best_fit_correct [OF _ refl refl, of 3 "[]" "\<lparr>fu_start = -7, fu_end = 5000, fu_free = True\<rparr>"]
  by (auto simp: Let_def split: if_splits)

end
