(* ===== verification/Flash_Files.thy ===== *)
theory Flash_Files
  imports Flash_Access Partition
begin

text \<open>
  Files in the external flash (\<^verbatim>\<open>drbcc_files.c\<close>): what the library does with the partition
  table it asked for, depending on the operation the caller started, and the functions that
  start these operations. \<open>data\<close> is always the part of \<^const>\<open>cur_msg\<close> behind the header
  of the reply, up to the end of the array: the code reads fixed offsets whatever the length
  of the reply.
\<close>

section \<open>Error exits and tables\<close>

definition fail_session :: "string \<Rightarrow> DRBCC_t \<Rightarrow> DRBCC_t" where
  "fail_session t s = end_session True (call_error_cb t s)"

text \<open>A checksum error is reported and otherwise ignored.\<close>

definition warn_crc :: "bytes \<Rightarrow> DRBCC_t \<Rightarrow> DRBCC_t" where
  "warn_crc data s =
     (if crc_matches data then s else call_error_cb ''CRC error in flash partition table'' s)"

text \<open>The backup copy in block 1 is written before the table in block 0.\<close>

definition write_table :: "bytes \<Rightarrow> DRBCC_t \<Rightarrow> DRBCC_t" where
  "write_table data s =
     (let s1 = snd (libdrbcc_req_flash_erase_block 1 s);
          s2 = snd (libdrbcc_req_flash_write 4096 128 data s1);
          s3 = snd (libdrbcc_req_flash_erase_block 0 s2)
      in snd (libdrbcc_req_flash_write 0 128 data s3))"

definition uninit_bytes :: "DRBCC_t \<Rightarrow> bytes" where
  "uninit_bytes s = [word_of_int (stack s 0), word_of_int (stack s 1)]"

definition new_entries :: "DRBCC_PARTENTRY_t list" where
  "new_entries = (replicate 20 blank_entry)
     [0 := \<lparr>typeinfo = mk_typeinfo 0 6 1, startblock = 4, plength = 508\<rparr>,
      1 := \<lparr>typeinfo = mk_typeinfo 0 5 1, startblock = 512, plength = 64\<rparr>]"

definition libdrbcc_create_partition :: "DRBCC_t \<Rightarrow> DRBCC_t" where
  "libdrbcc_create_partition s = write_table (build_table new_entries (uninit_bytes s)) s"

definition libdrbcc_request_partition :: "DRBCC_t \<Rightarrow> DRBCC_RC_t \<times> DRBCC_t" where
  "libdrbcc_request_partition = libdrbcc_req_flash_read 0 128"

definition libdrbcc_request_partition2 :: "DRBCC_t \<Rightarrow> DRBCC_RC_t \<times> DRBCC_t" where
  "libdrbcc_request_partition2 = libdrbcc_req_flash_read 4096 128"

definition libdrbcc_got_partition :: "u32 \<Rightarrow> u32 \<Rightarrow> bytes \<Rightarrow> DRBCC_t \<Rightarrow> DRBCC_t" where
  "libdrbcc_got_partition addr len data s =
     (if addr \<noteq> 0 then fail_session ''Wrong flash space used for partition table!'' s
      else if len < 126 then fail_session ''Partition table is to short!'' s
      else if \<not> has_magic data
      then call_error_cb ''No magic in flash partition table, creating new one''
             (snd (libdrbcc_request_partition (libdrbcc_create_partition s)))
      else
        let s1 = warn_crc data s;
            s2 = (if cbs s1 partitiontable_cb
                  then call_cb partitiontable_cb (Ev_partitiontable (table_entries data))
                         (s1\<lparr>state := DRBCC_STATE_USER\<rparr>)
                  else s1)
        in end_session True s2)"

section \<open>Deleting a file\<close>

text \<open>The entry of the current type and index, as \<^verbatim>\<open>libdrbcc_delete\<close> and
  \<^verbatim>\<open>libdrbcc_get_file\<close> look for it.\<close>

definition type_matches :: "DRBCC_t \<Rightarrow> DRBCC_PARTENTRY_t \<Rightarrow> bool" where
  "type_matches s e \<longleftrightarrow>
     ucast (bits_type e) = curFileType s AND 0x07 \<and>
     ucast (bits_blocktype e) = drop_bit 3 (curFileType s) AND 0x01 \<and>
     ucast (bits_idx e) = curFileIndex s AND 0xF"

definition by_index :: "DRBCC_t \<Rightarrow> bool" where
  "by_index s \<longleftrightarrow> curFileIndex s AND 0x80000000 = 0"

definition put_byte :: "nat \<Rightarrow> u8 \<Rightarrow> bytes \<times> DRBCC_t \<Rightarrow> bytes \<times> DRBCC_t" where
  "put_byte i b = (\<lambda>(data, s).
     if i < length data then (data[i := b], s) else (data, s\<lparr>fault := True\<rparr>))"

definition clear_entry :: "u32 \<Rightarrow> bytes \<times> DRBCC_t \<Rightarrow> bytes \<times> DRBCC_t" where
  "clear_entry base ds = fold (\<lambda>k. put_byte (unat (base + of_nat k)) 0xFF) [0..<6] ds"

definition delete_entry :: "bytes \<Rightarrow> DRBCC_t \<Rightarrow> bytes \<times> DRBCC_t" where
  "delete_entry data s =
     (if by_index s then clear_entry (6 + curFileIndex s * 6) (data, s)
      else (case find (\<lambda>i. type_matches s (table_entry data i)) [0..<20] of
              Some i \<Rightarrow> clear_entry (6 + of_nat i * 6) (data, s)
            | None \<Rightarrow> (data, s)))"

text \<open>\<^verbatim>\<open>data\<close> points into \<^const>\<open>cur_msg\<close>, so the edits happen there.\<close>

definition store_reply :: "bytes \<Rightarrow> DRBCC_t \<Rightarrow> DRBCC_t" where
  "store_reply data s = s\<lparr>cur_msg := (cur_msg s)\<lparr>msg := take 5 (msg (cur_msg s)) @ data\<rparr>\<rparr>"

definition libdrbcc_delete :: "u32 \<Rightarrow> u32 \<Rightarrow> bytes \<Rightarrow> DRBCC_t \<Rightarrow> DRBCC_t" where
  "libdrbcc_delete addr len data s =
     (if addr \<noteq> 0 then fail_session ''Wrong flash space used for partition table!'' s
      else if len < 126 then fail_session ''Delete: partition table is to short!'' s
      else if \<not> has_magic data then fail_session ''No magic in flash partition table'' s
      else
        let (data1, s1) = delete_entry data (warn_crc data s);
            data2 = set_crc data1
        in write_table data2 (store_reply data2 s1))"

section \<open>Reading a file\<close>

text \<open>The file system: opening (with the flags \<^verbatim>\<open>O_CREAT\<close> and \<^verbatim>\<open>O_TRUNC\<close>), which fails for
  a name that does not fit in \<^verbatim>\<open>curFilename\<close>, and writing at an offset; a gap before the
  offset is filled with zeros.\<close>

definition sys_open :: "bool \<Rightarrow> bool \<Rightarrow> string \<Rightarrow> DRBCC_t \<Rightarrow> bool \<times> DRBCC_t" where
  "sys_open creat trunc name s =
     (let (r, s1) = sys_call 0 s
      in if r < 0 \<or> length name \<ge> 4096 \<or> (\<not> creat \<and> fs s1 name = None) then (False, s1)
         else (True, s1\<lparr>fs := (fs s1)(name \<mapsto>
                (case fs s1 name of None \<Rightarrow> [] | Some c \<Rightarrow> if trunc then [] else c))\<rparr>))"

definition patch :: "nat \<Rightarrow> bytes \<Rightarrow> bytes \<Rightarrow> bytes" where
  "patch off bs c = (if bs = [] then c
     else take off c @ replicate (off - length c) 0 @ bs @ drop (off + length bs) c)"

definition sys_write_at :: "string \<Rightarrow> nat \<Rightarrow> bytes \<Rightarrow> DRBCC_t \<Rightarrow> int \<times> DRBCC_t" where
  "sys_write_at name off bs s =
     (let (r, s1) = sys_call (length bs) s
      in (r, s1\<lparr>fs := (fs s1)(name := map_option (patch off (take (nat r) bs)) (fs s1 name))\<rparr>))"

text \<open>A reply from the area of the file: append it to the local file.\<close>

definition get_file_data :: "u32 \<Rightarrow> u32 \<Rightarrow> bytes \<Rightarrow> DRBCC_t \<Rightarrow> DRBCC_t" where
  "get_file_data addr len data s =
     (let (ok, s1) = sys_open True False (curFilename s) s
      in if \<not> ok then fail_session ''open file failed'' s1
         else
           let off = unat (addr - curFilestart s1);
               (pos, s2) = sys_call off s1
           in if pos = -1 then fail_session ''lseek to offset in file failed'' s2
              else
                let (bs, s3) = fetch (Some data) 0 (unat len) s2;
                    (wr, s4) = sys_write_at (curFilename s3) off bs s3
                in if wr = int (unat len)
                   then
                     let s5 = s4\<lparr>curFilelength := curFilelength s4 + len\<rparr>;
                         s6 = call_cb progress_cb (Ev_progress (curFilelength s5) (maxFilelength s5)) s5
                     in if curFilelength s6 = maxFilelength s6
                        then fail_session ''Get flash file successfully done'' (s6\<lparr>state := DRBCC_STATE_USER\<rparr>)
                        else snd (libdrbcc_req_flash_read (flashAddr s6) (flashLen s6) s6)
                   else fail_session (take 511 (''writing '' @ show_int (sint len) @
                          '' byte(s) flash data to file '' @ curFilename s4 @
                          '' failed. write returned '' @ show_int wr)) s4)"

text \<open>The entry of the file the caller wants, the blank one if there is none.\<close>

definition wanted_entry :: "bytes \<Rightarrow> DRBCC_t \<Rightarrow> DRBCC_PARTENTRY_t \<times> DRBCC_t" where
  "wanted_entry data s =
     (if by_index s
      then let base = unat (6 + curFileIndex s * 6);
               s1 = (if base + 6 \<le> length data then s else s\<lparr>fault := True\<rparr>);
               e = decode_entry (drop base data)
           in (e, s1\<lparr>curFilelength := 0, maxFilelength := plength e\<rparr>)
      else (case find (\<lambda>i. type_matches s (table_entry data i)) [0..<20] of
              Some i \<Rightarrow> (table_entry data i,
                        s\<lparr>curFilelength := 0, maxFilelength := plength (table_entry data i)\<rparr>)
            | None \<Rightarrow> (blank_entry, s)))"

definition libdrbcc_get_file :: "u32 \<Rightarrow> u32 \<Rightarrow> bytes \<Rightarrow> DRBCC_t \<Rightarrow> DRBCC_t" where
  "libdrbcc_get_file addr len data s =
     (if addr \<noteq> 0 then get_file_data addr len data s
      else if \<not> has_magic data then fail_session ''No magic in flash partition table'' s
      else
        let (e, s1) = wanted_entry data (warn_crc data s)
        in if \<not> isEmpty e \<and> plength e > 0
           then
             let s2 = s1\<lparr>curFilestart := ucast (startblock e) * 0x1000,
                        maxFilelength := (if bits_blocktype e \<noteq> 0 then plength e * 0x1000 else plength e)\<rparr>
             in snd (libdrbcc_req_flash_read (curFilestart s2) (maxFilelength s2) s2)
           else
             let s2 = (if cbs s1 error_cb
                       then call_cb session_cb (Ev_session (session s1) True)
                              (call_error_cb (if isEmpty e then ''Invalid flash file, empty entry''
                                              else ''Invalid flash file, size 0'') s1)
                       else s1)
             in s2\<lparr>session := 0, state := DRBCC_STATE_USER\<rparr>)"

section \<open>Writing a file\<close>

text \<open>The first loop of \<^verbatim>\<open>libdrbcc_put_file\<close>: an entry of the same type and index is given
  up, the block map is built, and the entry to use is chosen.\<close>

definition same_file :: "DRBCC_t \<Rightarrow> DRBCC_PARTENTRY_t \<Rightarrow> bool" where
  "same_file s e \<longleftrightarrow>
     ucast (bits_type e) = curFileType s AND 0x07 \<and>
     ucast (bits_blocktype e) = drop_bit 3 (curFileType s) AND 0x01 \<and>
     ucast (bits_idx e) = curFileIndex s"

definition release :: "DRBCC_t \<Rightarrow> DRBCC_PARTENTRY_t \<Rightarrow> DRBCC_PARTENTRY_t" where
  "release s e = (if same_file s e then e\<lparr>typeinfo := 0xFF\<rparr> else e)"

definition pick_step :: "DRBCC_t \<Rightarrow> bytes \<Rightarrow> nat \<Rightarrow> nat option \<Rightarrow> nat option" where
  "pick_step s data i emptyEntry =
     (let r = (if emptyEntry = None \<and> isEmpty (table_entry data i) then Some i else emptyEntry)
      in if same_file s (table_entry data i) then Some i else r)"

definition pick_entry :: "DRBCC_t \<Rightarrow> bytes \<Rightarrow> nat option" where
  "pick_entry s data = fold (pick_step s data) [0..<20] None"

definition put_entries :: "DRBCC_t \<Rightarrow> bytes \<Rightarrow> DRBCC_PARTENTRY_t list" where
  "put_entries s data = map (release s) (table_entries data)"

text \<open>
  The second loop: the file is read in chunks and a write message is queued for each, after
  an erase request when a new block begins. \<open>content\<close> is the file, \<open>pos\<close> the position of the
  descriptor. The result says whether the loop ran to its end. It always ends: the counter
  \<open>i\<close> reaches the length unless the length is within 128 of the largest \<^verbatim>\<open>unsigned\<close>, and
  then every round reads at least one byte of the file.
\<close>

definition chunk_len :: "u32 \<Rightarrow> u32 \<Rightarrow> u32 \<Rightarrow> u32" where
  "chunk_len maxlen first write_addr =
     (if write_addr + CHUNK \<le> first * 0x1000 + maxlen then CHUNK else maxlen mod CHUNK)"

definition abort_put :: "string \<Rightarrow> DRBCC_t \<Rightarrow> DRBCC_t" where
  "abort_put t s =
     (call_cb session_cb (Ev_session (session s) True) (call_error_cb t s))\<lparr>state := DRBCC_STATE_USER\<rparr>"

definition sys_read :: "bytes \<Rightarrow> nat \<Rightarrow> nat \<Rightarrow> DRBCC_t \<Rightarrow> int \<times> DRBCC_t" where
  "sys_read content pos n s = sys_call (min n (length content - pos)) s"

lemma sys_read_all:
  "sys_read content pos n s = (int n, s') \<Longrightarrow> 0 < n \<Longrightarrow> pos + n \<le> length content"
  by (auto simp: sys_read_def sys_call_def min_def split: option.splits if_splits)

function put_chunks :: "bytes \<Rightarrow> u32 \<Rightarrow> u32 \<Rightarrow> u32 \<Rightarrow> u32 \<Rightarrow> nat \<Rightarrow> DRBCC_t \<Rightarrow> bool \<times> DRBCC_t" where
  "put_chunks content maxlen first i write_addr pos s =
     (if i < maxlen
      then
        let s1 = (if i mod 0x1000 = 0
                  then snd (libdrbcc_req_flash_erase_block (i div 0x1000 + first) s) else s)
        in (case alloc_msg s1 of
              (None, s2) \<Rightarrow> (False, abort_put ''Out of memory during get file operation'' s2)
            | (Some block, s2) \<Rightarrow>
                (case sys_read content pos (unat (chunk_len maxlen first write_addr)) s2 of
                   (rd, s3) \<Rightarrow>
                     let n = chunk_len maxlen first write_addr
                     in if rd = int (unat n)
                        then put_chunks content maxlen first (i + CHUNK) (write_addr + n) (pos + unat n)
                               (libdrbcc_add_msg_sec
                                  (write_msg write_addr n (take (unat n) (drop pos content)) block) s3)
                        else (False, abort_put (''Cant read '' @ show_int (sint n) @
                               '' bytes from file during put flash file operation. read returned '' @
                               show_int rd) s3)))
      else (True, s))"
  by pat_completeness auto

lemma counter_advances:
  assumes "i < maxlen" and "unat maxlen \<le> 2 ^ 32 - 128"
  shows "unat maxlen - unat (i + CHUNK) < unat maxlen - unat (i :: u32)"
proof -
  have "unat i < unat maxlen" using assms(1) by (simp add: word_less_nat_alt)
  moreover from this have "unat (i + CHUNK) = unat i + 128"
    using assms(2) unat_add_lem [of i CHUNK] by simp
  ultimately show ?thesis by simp
qed

lemma chunk_len_pos:
  assumes "2 ^ 32 - 128 < unat maxlen"
  shows "0 < unat (chunk_len maxlen first write_addr)"
proof -
  define d where "d = unat maxlen - 4294967168"
  have "unat maxlen < 2 ^ LENGTH(32)" by (rule unsigned_less)
  then have "unat maxlen = 128 * 33554431 + d" "0 < d" "d < 128"
    using assms by (simp_all add: d_def)
  then have "unat maxlen mod 128 = d" by (simp only: mod_mult_self4 mod_less)
  with \<open>0 < d\<close> show ?thesis by (simp add: chunk_len_def unat_mod)
qed

termination put_chunks
proof (relation "measure (\<lambda>(content, maxlen, first, i, write_addr, pos, s).
    if unat maxlen \<le> 2 ^ 32 - 128 then unat maxlen - unat i else length content - pos)", goal_cases)
  case (2 content maxlen first i write_addr pos s s1 mem s2 block rd s3 n)
  then have i: "i < maxlen"
    and rd: "sys_read content pos (unat n) s2 = (int (unat n), s3)"
    and n: "n = chunk_len maxlen first write_addr" by simp_all
  show ?case
  proof (cases "unat maxlen \<le> 2 ^ 32 - 128")
    case True
    with counter_advances [OF i] show ?thesis by simp
  next
    case False
    then have "0 < unat n" unfolding n by (intro chunk_len_pos) simp
    moreover from this have "pos + unat n \<le> length content" by (rule sys_read_all [OF rd])
    ultimately show ?thesis using False by simp
  qed
qed simp

declare put_chunks.simps [simp del]

text \<open>The initialised part of the free/used table; its first element is not initialised.\<close>

definition uninit_area :: "DRBCC_t \<Rightarrow> FREE_USED_TABLE_t" where
  "uninit_area s = \<lparr>fu_start = stack s 2, fu_end = stack s 3, fu_free = (stack s 4 \<noteq> 0)\<rparr>"

definition put_table_entry :: "DRBCC_t \<Rightarrow> u32 \<Rightarrow> DRBCC_PARTENTRY_t" where
  "put_table_entry s first =
     \<lparr>typeinfo = mk_typeinfo (ucast (curFileIndex s)) (ucast (curFileType s)) 0,
      startblock = ucast first, plength = maxFilelength s\<rparr>"

text \<open>Sending the file to the area that starts at block \<open>first\<close>, then the new table. When
  the file cannot be opened nothing happens.\<close>

definition put_to_area :: "DRBCC_PARTENTRY_t list \<Rightarrow> nat \<Rightarrow> u32 \<Rightarrow> DRBCC_t \<Rightarrow> DRBCC_t" where
  "put_to_area es emptyEntry first s =
     (let (ok, s1) = sys_open False False (curFilename s) s
      in if \<not> ok then s1
         else
           let content = (case fs s1 (curFilename s1) of Some c \<Rightarrow> c | None \<Rightarrow> []);
               (done, s2) = put_chunks content (maxFilelength s1) first 0 (first * 0x1000) 0 s1
           in if done
              then write_table (build_table (es[emptyEntry := put_table_entry s2 first]) (uninit_bytes s2)) s2
              else s2)"

definition libdrbcc_put_file :: "u32 \<Rightarrow> u32 \<Rightarrow> bytes \<Rightarrow> DRBCC_t \<Rightarrow> DRBCC_t" where
  "libdrbcc_put_file addr len data s =
     (if addr \<noteq> 0 then fail_session ''Wrong flash space used for partition table!'' s
      else if \<not> has_magic data then fail_session ''No magic in flash partition table'' s
      else
        let s1 = warn_crc data s;
            es = put_entries s1 data;
            s2 = (if list_all in_range es then s1 else s1\<lparr>fault := True\<rparr>)
        in (case pick_entry s1 data of
              None \<Rightarrow> (fail_session ''Put flash file failed, partition table full'' s2)
                         \<lparr>state := DRBCC_STATE_USER\<rparr>
            | Some emptyEntry \<Rightarrow>
                let tbl = collect (mark_all es) (uninit_area s2);
                    s3 = (if length tbl \<le> 40 then s2 else s2\<lparr>fault := True\<rparr>);
                    found = best_fit (requiredBlocks (maxFilelength s3)) tbl
                in if found > 0
                   then put_to_area es emptyEntry (word_of_int (fu_start (tbl ! found))) s3
                   else (fail_session ''Put flash file failed, no space left'' s3)
                          \<lparr>state := DRBCC_STATE_USER\<rparr>))"

section \<open>Starting a file operation\<close>

text \<open>These functions refuse to work beside callbacks for raw flash access, and write the
  session number through the pointer of the caller unchecked.\<close>

definition file_guard :: "DRBCC_t \<Rightarrow> DRBCC_RC_t option" where
  "file_guard s =
     (case CHECK_HANDLE s of
        Some e \<Rightarrow> Some e
      | None \<Rightarrow>
          if cbs s read_flash_cb \<or> cbs s erase_flash_cb \<or> cbs s write_flash_cb
          then Some DRBCC_RC_CBREGISTERED
          else if session s \<noteq> 0 then Some DRBCC_RC_SESSIONACTIVE else None)"

definition take_session :: "bool \<Rightarrow> DRBCC_t \<Rightarrow> DRBCC_t" where
  "take_session sess s = s\<lparr>session := drbcc_session s, drbcc_session := drbcc_session s + 1,
     session_out := (if sess then drbcc_session s else session_out s), fault := (fault s \<or> \<not> sess)\<rparr>"

definition drbcc_get_partitiontable :: "bool \<Rightarrow> DRBCC_t \<Rightarrow> DRBCC_RC_t \<times> DRBCC_t" where
  "drbcc_get_partitiontable sess s =
     (case file_guard s of
        Some e \<Rightarrow> (e, s)
      | None \<Rightarrow> libdrbcc_request_partition ((take_session sess s)\<lparr>state := DRBCC_STATE_PARTITION_REQ\<rparr>))"

definition set_file :: "u32 \<Rightarrow> DRBCC_STATES_t \<Rightarrow> DRBCC_t \<Rightarrow> DRBCC_t" where
  "set_file index st s = s\<lparr>
     curFileType := (if index AND 0x80000000 \<noteq> 0 then drop_bit 4 index AND 0xF else curFileType s),
     curFileIndex := index, state := st\<rparr>"

definition drbcc_delete_file :: "u32 \<Rightarrow> bool \<Rightarrow> DRBCC_t \<Rightarrow> DRBCC_RC_t \<times> DRBCC_t" where
  "drbcc_delete_file index sess s =
     (case file_guard s of
        Some e \<Rightarrow> (e, s)
      | None \<Rightarrow> libdrbcc_request_partition (set_file index DRBCC_STATE_DELETE_FILE (take_session sess s)))"

definition drbcc_delete_file_type :: "u32 \<Rightarrow> bool \<Rightarrow> DRBCC_t \<Rightarrow> DRBCC_RC_t \<times> DRBCC_t" where
  "drbcc_delete_file_type type = drbcc_delete_file (type OR 0x80000000)"

definition drbcc_get_file :: "u32 \<Rightarrow> string \<Rightarrow> bool \<Rightarrow> DRBCC_t \<Rightarrow> DRBCC_RC_t \<times> DRBCC_t" where
  "drbcc_get_file index filename sess s =
     (case file_guard s of
        Some e \<Rightarrow> (e, s)
      | None \<Rightarrow>
          let (ok, s1) = sys_open True True filename s
          in if \<not> ok then (DRBCC_RC_INVALID_FILENAME, s1)
             else libdrbcc_request_partition (set_file index DRBCC_STATE_GET_FILE
                    (take_session sess (s1\<lparr>curFilename := filename\<rparr>))))"

definition drbcc_get_file_type :: "u32 \<Rightarrow> string \<Rightarrow> bool \<Rightarrow> DRBCC_t \<Rightarrow> DRBCC_RC_t \<times> DRBCC_t" where
  "drbcc_get_file_type type = drbcc_get_file (type OR 0x80000000)"

text \<open>The length is unsigned: the test for a length of at most zero only catches the empty
  file, not the \<open>-1\<close> of a failed \<^verbatim>\<open>lseek\<close>.\<close>

definition drbcc_put_file :: "u32 \<Rightarrow> u32 \<Rightarrow> string \<Rightarrow> bool \<Rightarrow> DRBCC_t \<Rightarrow> DRBCC_RC_t \<times> DRBCC_t" where
  "drbcc_put_file index type filename sess s =
     (case file_guard s of
        Some e \<Rightarrow> (e, s)
      | None \<Rightarrow>
          let (ok, s1) = sys_open False False filename s
          in if \<not> ok then (DRBCC_RC_INVALID_FILENAME, s1)
             else
               let (n, s2) = sys_call (length (the (fs s1 filename))) s1;
                   s3 = s2\<lparr>maxFilelength := word_of_int n\<rparr>
               in if maxFilelength s3 \<le> 0 then (DRBCC_RC_INVALID_FILENAME, s3)
                  else libdrbcc_request_partition ((take_session sess (s3\<lparr>curFilename := filename\<rparr>))
                         \<lparr>curFilelength := 0, curFileIndex := index, curFileType := type,
                          state := DRBCC_STATE_PUT_FILE\<rparr>))"

definition drbcc_put_file_type :: "u32 \<Rightarrow> string \<Rightarrow> bool \<Rightarrow> DRBCC_t \<Rightarrow> DRBCC_RC_t \<times> DRBCC_t" where
  "drbcc_put_file_type type = drbcc_put_file (type AND 0xF) (drop_bit 4 type AND 0xF)"

definition drbcc_upload_firmware :: "string \<Rightarrow> bool \<Rightarrow> DRBCC_t \<Rightarrow> DRBCC_RC_t \<times> DRBCC_t" where
  "drbcc_upload_firmware = drbcc_put_file 0 0"

definition drbcc_upload_bootloader :: "string \<Rightarrow> bool \<Rightarrow> DRBCC_t \<Rightarrow> DRBCC_RC_t \<times> DRBCC_t" where
  "drbcc_upload_bootloader = drbcc_put_file 0 1"

definition drbcc_register_partition_cb :: "bool \<Rightarrow> DRBCC_t \<Rightarrow> DRBCC_RC_t \<times> DRBCC_t" where
  "drbcc_register_partition_cb = register_cb partitiontable_cb"

definition drbcc_register_progress_cb :: "bool \<Rightarrow> DRBCC_t \<Rightarrow> DRBCC_RC_t \<times> DRBCC_t" where
  "drbcc_register_progress_cb = register_cb progress_cb"

end
