(* ===== verification/Ring_Log.thy ===== *)
theory Ring_Log
  imports Flash_Files
begin

text \<open>
  Reading the log (\<^verbatim>\<open>drbcc_files.c\<close>): the address in the ring to start from, the entries of
  a reply, and the joining of long entries that continue in extension entries, together with
  the functions for log and debug access.
\<close>

section \<open>Entries of the log\<close>

abbreviation DRBCC_E_EXTENSION :: u8 where "DRBCC_E_EXTENSION \<equiv> 1"

text \<open>The position the controller writes next, as an entry index of the ring.\<close>

definition curr_log_pos :: "DRBCC_t \<Rightarrow> u32" where
  "curr_log_pos s = curFileIndex s * 0x1000 div 16 + ucast (logentry s)"

definition skips_entry :: "u32 \<Rightarrow> DRBCC_t \<Rightarrow> bool" where
  "skips_entry pos s =
     (if logwrapflag s = 0xFF then pos < start s
      else if curr_log_pos s > start s then pos < start s
      else curr_log_pos s < pos \<and> pos < start s)"

definition handle_logentry :: "u32 \<Rightarrow> nat \<Rightarrow> bytes \<Rightarrow> DRBCC_t \<Rightarrow> DRBCC_t" where
  "handle_logentry pos len buf s =
     (if skips_entry pos s then s else call_cb getlog_cb (Ev_getlog pos len (take len buf)) s)"

text \<open>One entry of 16 bytes that is not empty; \<open>d\<close> is the reply from the entry on. A long
  entry is collected in \<^const>\<open>logdata\<close>.\<close>

definition log_entry :: "u32 \<Rightarrow> bytes \<Rightarrow> DRBCC_t \<Rightarrow> DRBCC_t" where
  "log_entry pos d s =
     (if d ! 0 \<noteq> DRBCC_E_EXTENSION
      then if d ! 1 \<noteq> 0xff \<and> d ! 8 > 7
           then (case drbcc_malloc (unat (d ! 8) * 3) s of
                   (None, s1) \<Rightarrow> s1\<lparr>logdata := None, fault := True\<rparr>
                 | (Some blk, s1) \<Rightarrow> s1\<lparr>logdata := Some (overwrite (take 16 d) blk),
                     logrest := unat (d ! 8) - 7, logindex := 16, logpos := pos\<rparr>)
           else handle_logentry pos (unat (d ! 8) + 9) d s
      else (case logdata s of
              None \<Rightarrow> handle_logentry pos 16 d s
            | Some buf \<Rightarrow>
                let n = min 15 (logrest s);
                    s1 = (if logindex s + n \<le> length buf then s else s\<lparr>fault := True\<rparr>);
                    buf1 = take (logindex s) buf @ take n (drop 1 d) @ drop (logindex s + n) buf
                in if logrest s > 15
                   then s1\<lparr>logdata := Some buf1, logindex := logindex s + 15, logrest := logrest s - 15\<rparr>
                   else (handle_logentry (logpos s) (unat (buf1 ! 8) + 9) buf1 s1)\<lparr>logdata := None\<rparr>))"

definition log_end_addr :: "DRBCC_t \<Rightarrow> u32" where
  "log_end_addr s = curFilestart s + curFileIndex s * 0x1000 + ucast (logentry s) * 16"

definition finish_log :: "DRBCC_t \<Rightarrow> DRBCC_t" where
  "finish_log s = end_session True (s\<lparr>state := DRBCC_STATE_USER\<rparr>)"

text \<open>The loop over the entries of a reply; \<open>True\<close> when the end of the log was met.\<close>

fun log_entries :: "u32 \<Rightarrow> u32 \<Rightarrow> bytes \<Rightarrow> nat list \<Rightarrow> DRBCC_t \<Rightarrow> bool \<times> DRBCC_t" where
  "log_entries addr pos data [] s = (False, s)"
| "log_entries addr pos data (i # is) s =
     (if length data < i + 16 then (True, s\<lparr>fault := True\<rparr>)
      else if data ! i \<noteq> 0xff
      then log_entries addr pos data is (log_entry (pos + of_nat i div 16) (drop i data) s)
      else if addr + of_nat i = log_end_addr s then (True, finish_log s)
      else log_entries addr pos data is s)"

definition get_log_data :: "u32 \<Rightarrow> u32 \<Rightarrow> bytes \<Rightarrow> DRBCC_t \<Rightarrow> DRBCC_t" where
  "get_log_data addr len data s =
     (let pos = (addr - curFilestart s) div 16;
          (ended, s1) = log_entries addr pos data (map (\<lambda>k. 16 * k) [0..<unat len div 16]) s
      in if ended then s1
         else if addr + 128 = log_end_addr s1 then finish_log s1
         else if addr + 128 = curFilestart s1 + maxFilelength s1
         then snd (libdrbcc_req_flash_read (curFilestart s1) 128 s1)
         else snd (libdrbcc_req_flash_read (addr + 128) 128 s1))"

section \<open>Where to start\<close>

abbreviation align128 :: "u32 \<Rightarrow> u32" where
  "align128 a \<equiv> a AND NOT 0x7F"

text \<open>\<^verbatim>\<open>%\<close> by the number of blocks of the ring; a ring of no blocks is a division by zero.\<close>

definition next_block :: "DRBCC_t \<Rightarrow> u32 \<times> DRBCC_t" where
  "next_block s =
     (let n = maxFilelength s div 0x1000
      in if n = 0 then (0, s\<lparr>fault := True\<rparr>) else ((curFileIndex s + 1) mod n, s))"

definition calculate_start_addr_wrap :: "u32 \<Rightarrow> u32 \<Rightarrow> DRBCC_t \<Rightarrow> u32 \<times> DRBCC_t" where
  "calculate_start_addr_wrap from_x cur s =
     (if from_x \<ge> cur
      then let (b, s1) = next_block s; next_entry = b * 0x1000 div 16
           in if next_entry = 0 then (0, s1\<lparr>start := 0\<rparr>)
              else if next_entry < from_x then (align128 (from_x * 16), s1\<lparr>start := from_x\<rparr>)
              else (next_entry * 16, s1\<lparr>start := next_entry\<rparr>)
      else (align128 (from_x * 16), s\<lparr>start := from_x\<rparr>))"

definition start_no_wrap :: "u32 \<Rightarrow> DRBCC_t \<Rightarrow> u32 \<times> DRBCC_t" where
  "start_no_wrap cur s =
     (let abs_entries = word_of_int \<bar>entries s\<bar>
      in if abs_entries \<ge> maxFilelength s div 16 then (0, s)
         else if abs_entries \<ge> cur then (0, s\<lparr>start := 0\<rparr>)
         else let x = (if entries s < 0 then cur - abs_entries else abs_entries)
              in (align128 (x * 16), s\<lparr>start := x\<rparr>))"

definition start_wrap :: "u32 \<Rightarrow> DRBCC_t \<Rightarrow> u32 \<times> DRBCC_t" where
  "start_wrap cur s =
     (let abs_entries = word_of_int \<bar>entries s\<bar>
      in if abs_entries \<ge> maxFilelength s div 16
         then let (b, s1) = next_block s; start_addr = b * 0x1000
              in (start_addr, s1\<lparr>start := start_addr div 16\<rparr>)
         else if entries s < 0
         then if abs_entries > cur
              then calculate_start_addr_wrap (maxFilelength s div 16 - 1 - (abs_entries - cur)) cur s
              else calculate_start_addr_wrap (cur - abs_entries) cur s
         else calculate_start_addr_wrap abs_entries cur s)"

definition log_start :: "DRBCC_t \<Rightarrow> u32 \<times> DRBCC_t" where
  "log_start s = (if logwrapflag s = 0xFF then start_no_wrap (curr_log_pos s) s
                  else start_wrap (curr_log_pos s) s)"

definition is_log_entry :: "DRBCC_t \<Rightarrow> DRBCC_PARTENTRY_t \<Rightarrow> bool" where
  "is_log_entry s e \<longleftrightarrow> bits_type e = (if logtype s then 6 else 5) \<and> bits_blocktype e = 1"

definition libdrbcc_get_log :: "u32 \<Rightarrow> u32 \<Rightarrow> bytes \<Rightarrow> DRBCC_t \<Rightarrow> DRBCC_t" where
  "libdrbcc_get_log addr len data s =
     (if addr \<noteq> 0 then get_log_data addr len data s
      else if \<not> has_magic data
      then end_session True ((call_error_cb ''No magic in flash partition table'' s)\<lparr>state := DRBCC_STATE_USER\<rparr>)
      else
        let s1 = warn_crc data s
        in (case find (\<lambda>i. is_log_entry s1 (table_entry data i)) [0..<20] of
              None \<Rightarrow> (fail_session ''Get log failed, partition entry missing'' s1)
                         \<lparr>state := DRBCC_STATE_USER\<rparr>
            | Some i \<Rightarrow>
                let e = table_entry data i;
                    s2 = s1\<lparr>curFilestart := ucast (startblock e) * 0x1000,
                            maxFilelength := plength e * 0x1000\<rparr>;
                    s3 = s2\<lparr>curFileIndex := curFileIndex s2 - curFilestart s2 div 0x1000\<rparr>;
                    (start_addr, s4) = log_start s3
                in snd (libdrbcc_req_flash_read (curFilestart s4 + start_addr) 128 s4)))"

section \<open>Starting a log or debug operation\<close>

text \<open>\<^verbatim>\<open>drbcc_put_log\<close> neither looks at the open session nor at the session callback. A
  negative length is cut to a byte.\<close>

definition drbcc_put_log :: "u32 \<Rightarrow> int \<Rightarrow> bytes \<Rightarrow> bool \<Rightarrow> DRBCC_t \<Rightarrow> DRBCC_RC_t \<times> DRBCC_t" where
  "drbcc_put_log ring len data sess s =
     (case CHECK_HANDLE s of
        Some e \<Rightarrow> (e, s)
      | None \<Rightarrow>
          if len > 137 then (DRBCC_RC_MSG_TOO_LONG, s)
          else (case alloc_msg (s\<lparr>state := DRBCC_STATE_USER\<rparr>) of
                  (None, s1) \<Rightarrow> (DRBCC_RC_OUTOFMEMORY, s1)
                | (Some block, s1) \<Rightarrow>
                    let (bs, s2) = fetch (Some data) 0 (nat len) s1;
                        s3 = libdrbcc_add_msg_prio (new_msg (word_of_int (len + 3))
                               ([cmd DRBCC_REQ_PUT_LOG, ucast ring, word_of_int len] @ bs) block) s2
                    in (DRBCC_RC_NOERROR, if sess then take_session True s3 else s3)))"

text \<open>The second byte of the request is left as the allocator returned it. Without
  \<open>ring\<close> no message is queued at all.\<close>

definition drbcc_get_log :: "bool \<Rightarrow> int \<Rightarrow> bool \<Rightarrow> DRBCC_t \<Rightarrow> DRBCC_RC_t \<times> DRBCC_t" where
  "drbcc_get_log ring n sess s =
     (case file_guard s of
        Some e \<Rightarrow> (e, s)
      | None \<Rightarrow>
          let s1 = s\<lparr>logtype := ring, start := 0, entries := n, state := DRBCC_STATE_GET_LOG\<rparr>
          in if ring
             then (case alloc_msg s1 of
                     (None, s2) \<Rightarrow> (DRBCC_RC_OUTOFMEMORY, s2)
                   | (Some block, s2) \<Rightarrow>
                       (DRBCC_RC_NOERROR, take_session sess ((libdrbcc_add_msg_prio
                          (new_msg 2 [cmd DRBCC_REQ_RINGLOG_POS] block) s2)\<lparr>curFileIndex := 0\<rparr>)))
             else (DRBCC_RC_NOERROR, take_session sess (s1\<lparr>curFileIndex := 0\<rparr>)))"

definition drbcc_get_pos :: "bool \<Rightarrow> DRBCC_t \<Rightarrow> DRBCC_RC_t \<times> DRBCC_t" where
  "drbcc_get_pos sess = prio_request [cmd DRBCC_REQ_RINGLOG_POS, 0] False sess"

definition drbcc_clear_log :: "bool \<Rightarrow> DRBCC_t \<Rightarrow> DRBCC_RC_t \<times> DRBCC_t" where
  "drbcc_clear_log sess = prio_request [cmd DRBCC_CLEAR_RINGLOG_REQ] False sess"

definition drbcc_debug_set :: "u32 \<Rightarrow> int \<Rightarrow> bytes \<Rightarrow> bool \<Rightarrow> DRBCC_t \<Rightarrow> DRBCC_RC_t \<times> DRBCC_t" where
  "drbcc_debug_set address len data sess s =
     (case CHECK_HANDLE s of
        Some e \<Rightarrow> (e, s)
      | None \<Rightarrow>
          if len > 136 then (DRBCC_RC_MSG_TOO_LONG, s)
          else if session s \<noteq> 0 then (DRBCC_RC_SESSIONACTIVE, s)
          else (case alloc_msg (s\<lparr>state := DRBCC_STATE_USER\<rparr>) of
                  (None, s1) \<Rightarrow> (DRBCC_RC_OUTOFMEMORY, s1)
                | (Some block, s1) \<Rightarrow>
                    let (bs, s2) = fetch (Some data) 0 (nat len) s1
                    in (DRBCC_RC_NOERROR, open_session False sess
                          (libdrbcc_add_msg_prio (new_msg (word_of_int (len + 4))
                             ([cmd DRBCC_REQ_DEBUG_SET, byte_of 8 address, byte_of 0 address,
                               word_of_int len] @ bs) block) s2))))"

definition drbcc_debug_get :: "u32 \<Rightarrow> bool \<Rightarrow> DRBCC_t \<Rightarrow> DRBCC_RC_t \<times> DRBCC_t" where
  "drbcc_debug_get address sess =
     prio_request [cmd DRBCC_REQ_DEBUG_GET, byte_of 8 address, byte_of 0 address] False sess"

definition drbcc_register_getlog_cb :: "bool \<Rightarrow> DRBCC_t \<Rightarrow> DRBCC_RC_t \<times> DRBCC_t" where
  "drbcc_register_getlog_cb = register_cb getlog_cb"

definition drbcc_register_getpos_cb :: "bool \<Rightarrow> DRBCC_t \<Rightarrow> DRBCC_RC_t \<times> DRBCC_t" where
  "drbcc_register_getpos_cb = register_cb getpos_cb"

definition drbcc_register_debug_get_cb :: "bool \<Rightarrow> DRBCC_t \<Rightarrow> DRBCC_RC_t \<times> DRBCC_t" where
  "drbcc_register_debug_get_cb = register_cb debug_get_cb"

interpretation get_pos: request_op drbcc_get_pos "[cmd DRBCC_REQ_RINGLOG_POS, 0]"
  unfolding drbcc_get_pos_def [abs_def] by (rule prio_request_op) auto

interpretation clear_log: request_op drbcc_clear_log "[cmd DRBCC_CLEAR_RINGLOG_REQ]"
  unfolding drbcc_clear_log_def [abs_def] by (rule prio_request_op) auto

interpretation debug_get: request_op "drbcc_debug_get address"
    "[cmd DRBCC_REQ_DEBUG_GET, byte_of 8 address, byte_of 0 address]" for address
  unfolding drbcc_debug_get_def [abs_def] by (rule prio_request_op) auto

end
