(* ===== verification/Proc_Msg.thy ===== *)
theory Proc_Msg
  imports Ring_Log
begin

text \<open>
  What a received message does: \<^verbatim>\<open>libdrbcc_readflash_cb\<close>, \<^verbatim>\<open>libdrbcc_logpos_cb\<close> and
  \<^verbatim>\<open>libdrbcc_writeflash_cb\<close> of \<^verbatim>\<open>drbcc_files.c\<close>, and \<^verbatim>\<open>libdrbcc_proc_ack_msg\<close> and
  \<^verbatim>\<open>libdrbcc_proc_msg\<close> of \<^verbatim>\<open>drbcc.c\<close>, with one definition for each case of the switch.
  The message is always \<^const>\<open>cur_msg\<close> of the handle.
\<close>

section \<open>Replies for the file operations\<close>

definition libdrbcc_readflash_cb :: "u32 \<Rightarrow> u32 \<Rightarrow> bytes \<Rightarrow> DRBCC_t \<Rightarrow> DRBCC_t" where
  "libdrbcc_readflash_cb addr len data s =
     (if \<not> retry s \<and> addr = 0 \<and> \<not> has_magic data
      then call_error_cb ''No magic in flash partition table, try other one''
             ((snd (libdrbcc_request_partition2 s))\<lparr>retry := True\<rparr>)
      else if addr = 4096 \<and> has_magic data
      then
        let s1 = snd (libdrbcc_req_flash_erase_block 0 s);
            s2 = snd (libdrbcc_req_flash_write 0 128 data s1)
        in snd (libdrbcc_req_flash_read 0 128 s2)
      else
        let (addr1, s1) =
              (if addr = 4096 \<and> cbs s error_cb
               then (0, call_error_cb ''No magic in 2nd flash partition table, try without'' s)
               else (addr, s));
            s2 = s1\<lparr>retry := False\<rparr>
        in (case state s2 of
              DRBCC_STATE_PARTITION_REQ \<Rightarrow> libdrbcc_got_partition addr1 len data s2
            | DRBCC_STATE_DELETE_FILE \<Rightarrow> libdrbcc_delete addr1 len data s2
            | DRBCC_STATE_GET_FILE \<Rightarrow> libdrbcc_get_file addr1 len data s2
            | DRBCC_STATE_PUT_FILE \<Rightarrow> libdrbcc_put_file addr1 len data s2
            | DRBCC_STATE_GET_LOG \<Rightarrow> libdrbcc_get_log addr1 len data s2
            | DRBCC_STATE_USER \<Rightarrow> fail_session ''No handler for read flash callback'' s2))"

definition libdrbcc_logpos_cb :: "DRBCC_t \<Rightarrow> DRBCC_t" where
  "libdrbcc_logpos_cb s =
     (if state s = DRBCC_STATE_GET_LOG then snd (libdrbcc_request_partition s)
      else fail_session ''No handler for logpos callback'' s)"

definition write_result_delete :: "u8 \<Rightarrow> DRBCC_t \<Rightarrow> DRBCC_t" where
  "write_result_delete result s =
     end_session (result \<noteq> 0)
       (call_error_cb (if result \<noteq> 0 then ''Flash file successfully deleted.'' else ''Delete flash file failed!'')
          (s\<lparr>state := DRBCC_STATE_USER\<rparr>))"

definition write_result_put :: "u32 \<Rightarrow> u32 \<Rightarrow> u8 \<Rightarrow> DRBCC_t \<Rightarrow> DRBCC_t" where
  "write_result_put addr len result s =
     (if result \<noteq> 0
      then
        let s1 = (if addr \<noteq> 0 \<and> addr \<noteq> 4096 then s\<lparr>curFilelength := curFilelength s + len\<rparr> else s);
            s2 = call_cb progress_cb (Ev_progress (curFilelength s1) (maxFilelength s1)) s1
        in if addr = 0 \<and> curFilelength s2 = maxFilelength s2
           then fail_session ''Put flash file successfully done'' s2 else s2
      else fail_session ''Flash file error result'' s)"

definition libdrbcc_writeflash_cb :: "u32 \<Rightarrow> u32 \<Rightarrow> u8 \<Rightarrow> DRBCC_t \<Rightarrow> DRBCC_t" where
  "libdrbcc_writeflash_cb addr len result s =
     (case state s of
        DRBCC_STATE_PARTITION_REQ \<Rightarrow> s
      | DRBCC_STATE_DELETE_FILE \<Rightarrow> write_result_delete result s
      | DRBCC_STATE_PUT_FILE \<Rightarrow> write_result_put addr len result s
      | _ \<Rightarrow> fail_session ''No handler for write flash callback'' s)"

section \<open>Acknowledgements\<close>

definition session_acks :: "u8 list" where
  "session_acks = map cmd [DRBCC_SYNC, DRBCC_REQ_DEBUG_SET, DRBCC_REQ_HEARTBEAT, DRBCC_REQ_SET_LED,
     DRBCC_REQ_SHUTDOWN, DRBCC_REQ_HD_EJECT]"

text \<open>Only called with a message to repeat.\<close>

definition libdrbcc_proc_ack_msg :: "DRBCC_t \<Rightarrow> DRBCC_t" where
  "libdrbcc_proc_ack_msg s =
     (case repeatMsg s of
        None \<Rightarrow> s\<lparr>fault := True\<rparr>
      | Some m \<Rightarrow>
          let c = msg m ! 0 AND NOT TOGGLE_BITMASK
          in if c = cmd DRBCC_SYNC \<and> wait_for_first_sync_ack s then s\<lparr>wait_for_first_sync_ack := False\<rparr>
             else if c \<in> set session_acks then close_session True s else s)"

section \<open>Messages of the controller\<close>

abbreviation rmsg :: "DRBCC_t \<Rightarrow> nat \<Rightarrow> u8" where
  "rmsg s k \<equiv> msg (cur_msg s) ! k"

abbreviation rlen :: "DRBCC_t \<Rightarrow> nat" where
  "rlen s \<equiv> unat (msg_len (cur_msg s))"

definition word16 :: "u8 \<Rightarrow> u8 \<Rightarrow> u32" where
  "word16 h l = push_bit 8 (ucast h) OR ucast l"

definition word24 :: "u8 \<Rightarrow> u8 \<Rightarrow> u8 \<Rightarrow> u32" where
  "word24 h m l = push_bit 16 (ucast h) OR push_bit 8 (ucast m) OR ucast l"

definition proc_ringlog_pos :: "DRBCC_t \<Rightarrow> DRBCC_t" where
  "proc_ringlog_pos s =
     (let s1 = s\<lparr>curFileIndex := word16 (rmsg s 1) (rmsg s 2),
                logentry := (if rlen s \<ge> 5 then rmsg s 3 else 0),
                logwrapflag := (if rlen s \<ge> 5 then rmsg s 4 else 0)\<rparr>
      in if state s1 = DRBCC_STATE_USER
         then close_session True
                (call_cb getpos_cb (Ev_getpos (curFileIndex s1) (logentry s1) (logwrapflag s1)) s1)
         else libdrbcc_logpos_cb s1)"

text \<open>The version goes to \<^verbatim>\<open>msg[2]\<close> twice; \<^verbatim>\<open>msg[3]\<close> is sent as the allocator left it.\<close>

definition proc_req_protocol :: "DRBCC_t \<Rightarrow> DRBCC_t" where
  "proc_req_protocol s =
     (case alloc_msg s of
        (Some block, s1) \<Rightarrow>
          libdrbcc_add_msg_prio (new_msg 4 [cmd DRBCC_CMD_IND_PROTOCOL_VERSION, 0, 0] block) s1
      | (None, s1) \<Rightarrow> s1)"

definition proc_ind_protocol :: "DRBCC_t \<Rightarrow> DRBCC_t" where
  "proc_ind_protocol s = close_session True
     (if rlen s \<ge> 4
      then call_cb protocol_cb (Ev_protocol (rmsg s 1) (rmsg s 2) (rmsg s 3)
             (take (rlen s - 4) (drop 4 (msg (cur_msg s))))) s
      else call_error_cb ''Received too short message content in DRBCC_CMD_IND_PROTOCOL_VERSION'' s)"

definition proc_extflash_id :: "DRBCC_t \<Rightarrow> DRBCC_t" where
  "proc_extflash_id s = close_session True
     (if rlen s \<ge> 4
      then call_cb flash_id_cb (Ev_flash_id (rmsg s 1) (rmsg s 2) (rmsg s 3)) s
      else call_error_cb ''Received too short message content in DRBCC_IND_EXTFLASH_ID'' s)"

definition proc_extflash_read :: "DRBCC_t \<Rightarrow> DRBCC_t" where
  "proc_extflash_read s =
     (if rlen s \<ge> 5 \<and> rlen s = unat (rmsg s 4) + 5
      then
        let addr = word24 (rmsg s 1) (rmsg s 2) (rmsg s 3);
            data = drop 5 (msg (cur_msg s))
        in if cbs s read_flash_cb
           then
             let s1 = call_cb read_flash_cb (Ev_read_flash addr (ucast (rmsg s 4))
                        (take (unat (rmsg s 4)) data)) s
             in if flashLen s1 \<noteq> 0 then snd (libdrbcc_req_flash_read (flashAddr s1) (flashLen s1) s1)
                else report_session True s1
           else libdrbcc_readflash_cb addr (ucast (rmsg s 4)) data s
      else close_session True
             (call_error_cb ''Received too short message content in DRBCC_IND_EXTFLASH_READ'' s))"

definition proc_extflash_write_result :: "DRBCC_t \<Rightarrow> DRBCC_t" where
  "proc_extflash_write_result s =
     (if rlen s \<ge> 6
      then
        let addr = word24 (rmsg s 1) (rmsg s 2) (rmsg s 3)
        in if cbs s write_flash_cb
           then
             let s1 = call_cb write_flash_cb (Ev_write_flash addr (ucast (rmsg s 4)) (rmsg s 5)) s
             in if flashLen s1 \<noteq> 0 then snd (libdrbcc_flash_write s1)
                else if cbs s1 session_cb then report_session True (s1\<lparr>flashData := None\<rparr>) else s1
           else libdrbcc_writeflash_cb addr (ucast (rmsg s 4)) (rmsg s 5) s
      else close_session True
             (call_error_cb ''Received too short message content in DRBCC_IND_EXTFLASH_WRITE_RESULT'' s))"

definition proc_extflash_blockerase :: "DRBCC_t \<Rightarrow> DRBCC_t" where
  "proc_extflash_blockerase s =
     (let s1 = (if rlen s \<ge> 4
                then call_cb erase_flash_cb (Ev_erase_flash (word16 (rmsg s 1) (rmsg s 2)) (rmsg s 3)) s
                else call_error_cb ''Received too short message content in DRBCC_IND_EXTFLASH_BLOCKERASE_RESULT'' s)
      in if state s1 = DRBCC_STATE_USER then report_session True s1 else s1)"

definition proc_rtc_read :: "DRBCC_t \<Rightarrow> DRBCC_t" where
  "proc_rtc_read s = close_session True
     (if rlen s \<ge> 9
      then call_cb rtc_cb (Ev_rtc (rtc_decode (take 7 (drop 1 (msg (cur_msg s))))) (rmsg s 8)) s
      else call_error_cb ''Received too short message content in DRBCC_IND_RTC_READ'' s)"

definition proc_bl_update :: "DRBCC_t \<Rightarrow> DRBCC_t" where
  "proc_bl_update s = close_session True
     (call_error_cb (if rmsg s 1 = 1 then ''BCTRL Boot loader update successfully''
                     else ''BCTRL Boot loader update FAILED'') s)"

definition proc_id_data :: "DRBCC_t \<Rightarrow> DRBCC_t" where
  "proc_id_data s = close_session True
     (if cbs s id_cb \<and> 3 < rlen s
      then call_cb id_cb (Ev_id (rmsg s 1) (rmsg s 2) (take (rlen s - 3) (drop 3 (msg (cur_msg s))))) s
      else call_error_cb ''ID Data no callback or invalid payload'' s)"

definition proc_hdd_off :: "DRBCC_t \<Rightarrow> DRBCC_t" where
  "proc_hdd_off s =
     (if 17 < rlen s
      then call_cb hdOffRequest_cb (Ev_hdOffRequest (take (rlen s - 1) (drop 1 (msg (cur_msg s))))) s
      else call_error_cb ''Received too short message content in DRBCC_HDD_OFF_REQ'' s)"

definition proc_status :: "DRBCC_t \<Rightarrow> DRBCC_t" where
  "proc_status s =
     (let s1 = (if rlen s > 1
                then call_cb status_cb (Ev_status (take (rlen s - 1) (drop 1 (msg (cur_msg s))))) s
                else call_error_cb ''Received too short message content in DRBCC_IND_STATUS'' s)
      in if \<not> wait_for_ack s1 \<or> indClosesSession s1
         then close_session True (s1\<lparr>indClosesSession := False\<rparr>) else s1)"

definition proc_accel_event :: "DRBCC_t \<Rightarrow> DRBCC_t" where
  "proc_accel_event s =
     (if rlen s > 7
      then call_cb accel_event_cb (Ev_accel_event (rmsg s 1) (ucast (word16 (rmsg s 3) (rmsg s 2)))
             (ucast (word16 (rmsg s 5) (rmsg s 4))) (ucast (word16 (rmsg s 7) (rmsg s 6)))) s
      else call_error_cb ''Received too short message content in DRBCC_IND_ACCEL_EVENT'' s)"

definition proc_debug_get :: "DRBCC_t \<Rightarrow> DRBCC_t" where
  "proc_debug_get s = close_session True
     (if rlen s \<ge> 4
      then call_cb debug_get_cb (Ev_debug_get (word16 (rmsg s 1) (rmsg s 2)) (unat (rmsg s 3))
             (take (unat (rmsg s 3)) (drop 4 (msg (cur_msg s))))) s
      else call_error_cb ''Received too short message content in DRBCC_IND_DEBUG_GET'' s)"

definition proc_unknown :: "DRBCC_t \<Rightarrow> DRBCC_t" where
  "proc_unknown s = call_error_cb
     (''Unknown message ID 0x'' @ show_hex (unat (rmsg s 0 AND NOT TOGGLE_BITMASK)) @ '' received'') s"

text \<open>The dispatcher. \<^const>\<open>DRBCC_CMD_ILLEGAL\<close> is \<open>0xFF\<close>, which the masked byte never is.\<close>

definition proc_dispatch :: "u8 \<Rightarrow> DRBCC_t \<Rightarrow> DRBCC_t" where
  "proc_dispatch c s =
     (if c = cmd DRBCC_IND_RINGLOG_POS then proc_ringlog_pos s
      else if c = cmd DRBCC_IND_PUT_LOG then close_session True s
      else if c = cmd DRBCC_ACK then call_error_cb ''Received illegal DRBCC_ACK message'' s
      else if c = cmd DRBCC_CMD_ILLEGAL then call_error_cb ''Received illegal message content'' s
      else if c = cmd DRBCC_SYNC_CMD_ERROR
      then call_error_cb ''Received DRBCC_SYNC_CMD_ERROR message'' s
      else if c = cmd DRBCC_CMD_REQ_PROTOCOL_VERSION then proc_req_protocol s
      else if c = cmd DRBCC_CMD_IND_PROTOCOL_VERSION then proc_ind_protocol s
      else if c = cmd DRBCC_IND_EXTFLASH_ID then proc_extflash_id s
      else if c = cmd DRBCC_IND_EXTFLASH_READ then proc_extflash_read s
      else if c = cmd DRBCC_IND_EXTFLASH_WRITE_RESULT then proc_extflash_write_result s
      else if c = cmd DRBCC_IND_EXTFLASH_BLOCKERASE_RESULT then proc_extflash_blockerase s
      else if c = cmd DRBCC_IND_RTC_READ then proc_rtc_read s
      else if c = cmd DRBCC_IND_FW_INVALIDATED
      then close_session True (call_error_cb ''BCTRL firmware successfully invalidated'' s)
      else if c = cmd DRBCC_IND_BCTRL_RESTART_ACCEPTED
      then close_session True (call_error_cb ''BCTRL restart successfully initiated'' s)
      else if c = cmd DRBCC_IND_FW_UPDATE_STARTED
      then call_error_cb ''BCTRL firmware update successfully started'' s
      else if c = cmd DRBCC_IND_BL_UPDATE then proc_bl_update s
      else if c = cmd DRBCC_IND_ID_DATA then proc_id_data s
      else if c = cmd DRBCC_HDD_OFF_REQ then proc_hdd_off s
      else if c = cmd DRBCC_IND_STATUS then proc_status s
      else if c = cmd DRBCC_IND_ACCEL_EVENT then proc_accel_event s
      else if c = cmd DRBCC_IND_DEBUG_GET then proc_debug_get s
      else proc_unknown s)"

definition libdrbcc_proc_msg :: "DRBCC_t \<Rightarrow> DRBCC_RC_t \<times> DRBCC_t" where
  "libdrbcc_proc_msg s =
     (case CHECK_HANDLE s of
        Some e \<Rightarrow> (e, s)
      | None \<Rightarrow> (DRBCC_RC_NOERROR, proc_dispatch (rmsg s 0 AND NOT TOGGLE_BITMASK) s))"

end
