(* ===== verification/Proc_Frame.thy ===== *)
theory Proc_Frame
  imports Proc_Msg
begin

text \<open>
  What the handlers of received messages leave alone. \<open>link_view\<close> blanks out the fields the
  handlers work on; a handler keeps the view, so it keeps every other field: the buffers and
  flags of the link, its toggles, its timers and the message waiting for an acknowledgement.
\<close>

definition link_view :: "DRBCC_t \<Rightarrow> DRBCC_t" where
  "link_view s = s\<lparr>
     session := 0, state := DRBCC_STATE_USER, prioQueue := [], secQueue := [], mallocs :=
     0, flashAddr := 0, flashPos := 0, flashLen := 0, flashData := None, curFileIndex :=
     0, curFilelength := 0, curFilestart := 0, maxFilelength := 0, start := 0, logdata :=
     None, logindex := 0, logrest := 0, logpos := 0, logentry := 0, logwrapflag := 0,
     retry := False, fs := (\<lambda>_. None), ios := 0, events := [], fault := False,
     cur_msg := zero_msg, indClosesSession := False\<rparr>"

lemma link_view_update [frame_simps]:
  "link_view (s\<lparr>session := x0\<rparr>) = link_view s"
  "link_view (s\<lparr>state := x1\<rparr>) = link_view s"
  "link_view (s\<lparr>prioQueue := x2\<rparr>) = link_view s"
  "link_view (s\<lparr>secQueue := x3\<rparr>) = link_view s"
  "link_view (s\<lparr>mallocs := x4\<rparr>) = link_view s"
  "link_view (s\<lparr>flashAddr := x5\<rparr>) = link_view s"
  "link_view (s\<lparr>flashPos := x6\<rparr>) = link_view s"
  "link_view (s\<lparr>flashLen := x7\<rparr>) = link_view s"
  "link_view (s\<lparr>flashData := x8\<rparr>) = link_view s"
  "link_view (s\<lparr>curFileIndex := x9\<rparr>) = link_view s"
  "link_view (s\<lparr>curFilelength := x10\<rparr>) = link_view s"
  "link_view (s\<lparr>curFilestart := x11\<rparr>) = link_view s"
  "link_view (s\<lparr>maxFilelength := x12\<rparr>) = link_view s"
  "link_view (s\<lparr>start := x13\<rparr>) = link_view s"
  "link_view (s\<lparr>logdata := x14\<rparr>) = link_view s"
  "link_view (s\<lparr>logindex := x15\<rparr>) = link_view s"
  "link_view (s\<lparr>logrest := x16\<rparr>) = link_view s"
  "link_view (s\<lparr>logpos := x17\<rparr>) = link_view s"
  "link_view (s\<lparr>logentry := x18\<rparr>) = link_view s"
  "link_view (s\<lparr>logwrapflag := x19\<rparr>) = link_view s"
  "link_view (s\<lparr>retry := x20\<rparr>) = link_view s"
  "link_view (s\<lparr>fs := x21\<rparr>) = link_view s"
  "link_view (s\<lparr>ios := x22\<rparr>) = link_view s"
  "link_view (s\<lparr>events := x23\<rparr>) = link_view s"
  "link_view (s\<lparr>fault := x24\<rparr>) = link_view s"
  "link_view (s\<lparr>cur_msg := x25\<rparr>) = link_view s"
  "link_view (s\<lparr>indClosesSession := x26\<rparr>) = link_view s"
  by (simp_all add: link_view_def)

section \<open>Helpers\<close>

lemma link_view_basic [frame_simps]:
  "link_view (call_cb c e s) = link_view s"
  "link_view (call_error_cb t s) = link_view s"
  "link_view (close_session ok s) = link_view s"
  "link_view (report_session ok s) = link_view s"
  "link_view (end_session ok s) = link_view s"
  "link_view (fail_session t s) = link_view s"
  "link_view (abort_put t s) = link_view s"
  "link_view (libdrbcc_add_msg_prio m s) = link_view s"
  "link_view (libdrbcc_add_msg_sec m s) = link_view s"
  by (simp_all add: call_cb_def call_error_cb_def close_session_def report_session_def
    end_session_def fail_session_def abort_put_def libdrbcc_add_msg_prio_def
    libdrbcc_add_msg_sec_def frame_simps)

lemma link_view_env [frame_simps]:
  "link_view (snd (drbcc_malloc n s)) = link_view s"
  "link_view (snd (alloc_msg s)) = link_view s"
  "link_view (snd (sys_call n s)) = link_view s"
  "link_view (snd (sys_read content pos n s)) = link_view s"
  "link_view (snd (sys_open creat trunc name s)) = link_view s"
  "link_view (snd (sys_write_at name off bs s)) = link_view s"
  "link_view (snd (fetch blk p n s)) = link_view s"
  by (simp_all add: drbcc_malloc_def alloc_msg_def sys_call_def sys_read_def sys_open_def
    sys_write_at_def fetch_def frame_simps split: prod.splits option.splits)

text \<open>The state after an operation whose result is bound by a pattern.\<close>

lemma link_view_pair:
  "alloc_msg s = (r, t) \<Longrightarrow> link_view t = link_view s"
  "drbcc_malloc n s = (r, t) \<Longrightarrow> link_view t = link_view s"
  "sys_call n s = (i, t) \<Longrightarrow> link_view t = link_view s"
  "sys_read content pos n s = (i, t) \<Longrightarrow> link_view t = link_view s"
  "sys_open creat trunc name s = (b, t) \<Longrightarrow> link_view t = link_view s"
  "sys_write_at name off bs s = (i, t) \<Longrightarrow> link_view t = link_view s"
  "fetch blk p n s = (bs, t) \<Longrightarrow> link_view t = link_view s"
  by (metis link_view_env snd_conv)+

section \<open>Flash access\<close>

lemma link_view_req_flash_read [frame_simps]:
  "link_view (snd (libdrbcc_req_flash_read addr len s)) = link_view s"
  by (auto simp: libdrbcc_req_flash_read_def Let_def frame_simps dest!: link_view_pair
    split: prod.split option.split)

lemma link_view_flash_write [frame_simps]: "link_view (snd (libdrbcc_flash_write s)) = link_view s"
  by (auto simp: libdrbcc_flash_write_def Let_def frame_simps dest!: link_view_pair
    split: prod.split option.split)

lemma link_view_erase_block [frame_simps]:
  "link_view (snd (libdrbcc_req_flash_erase_block b s)) = link_view s"
  by (auto simp: libdrbcc_req_flash_erase_block_def frame_simps dest!: link_view_pair
    split: prod.split option.split)

lemma link_view_write_first: "write_first addr n data s = (bs, t) \<Longrightarrow> link_view t = link_view s"
  by (auto simp: write_first_def frame_simps dest!: link_view_pair split: prod.splits option.splits)

lemma link_view_save_rest [frame_simps]: "link_view (save_rest addr len data s) = link_view s"
  by (auto simp: save_rest_def frame_simps dest!: link_view_pair split: prod.split option.split)

lemma link_view_req_flash_write [frame_simps]:
  "link_view (snd (libdrbcc_req_flash_write addr len data s)) = link_view s"
  by (auto simp: libdrbcc_req_flash_write_def Let_def frame_simps dest!: link_view_write_first
    split: prod.split)

section \<open>File operations\<close>

lemma link_view_warn_crc [frame_simps]: "link_view (warn_crc data s) = link_view s"
  by (simp add: warn_crc_def frame_simps)

lemma link_view_write_table [frame_simps]: "link_view (write_table data s) = link_view s"
  by (simp add: write_table_def Let_def frame_simps)

lemma link_view_create_partition [frame_simps]: "link_view (libdrbcc_create_partition s) = link_view s"
  by (simp add: libdrbcc_create_partition_def frame_simps)

lemma link_view_request_partition [frame_simps]:
  "link_view (snd (libdrbcc_request_partition s)) = link_view s"
  "link_view (snd (libdrbcc_request_partition2 s)) = link_view s"
  by (simp_all add: libdrbcc_request_partition_def libdrbcc_request_partition2_def frame_simps)

lemma link_view_got_partition [frame_simps]: "link_view (libdrbcc_got_partition addr len data s) = link_view s"
  by (simp add: libdrbcc_got_partition_def Let_def frame_simps)

lemma link_view_put_byte: "put_byte i b ds = (d, t) \<Longrightarrow> link_view t = link_view (snd ds)"
  by (auto simp: put_byte_def frame_simps split: prod.splits if_splits)

lemma link_view_clear_entry: "clear_entry base ds = (d, t) \<Longrightarrow> link_view t = link_view (snd ds)"
proof -
  have "link_view (snd (fold (\<lambda>k. put_byte (f k) 0xFF) ks ds)) = link_view (snd ds)" for f :: "nat \<Rightarrow> nat" and ks
    by (induction ks arbitrary: ds) (auto simp: link_view_put_byte prod_eq_iff)
  then show "clear_entry base ds = (d, t) \<Longrightarrow> link_view t = link_view (snd ds)"
    unfolding clear_entry_def by (metis snd_conv)
qed

lemma link_view_delete_entry: "delete_entry data s = (d, t) \<Longrightarrow> link_view t = link_view s"
  by (auto simp: delete_entry_def dest!: link_view_clear_entry split: if_splits option.splits)

lemma link_view_delete [frame_simps]: "link_view (libdrbcc_delete addr len data s) = link_view s"
  by (auto simp: libdrbcc_delete_def store_reply_def Let_def frame_simps dest!: link_view_delete_entry
    split: prod.split)

lemma link_view_get_file_data [frame_simps]: "link_view (get_file_data addr len data s) = link_view s"
  by (auto simp: get_file_data_def Let_def frame_simps dest!: link_view_pair split: prod.split)

lemma link_view_wanted_entry: "wanted_entry data s = (e, t) \<Longrightarrow> link_view t = link_view s"
  by (auto simp: wanted_entry_def Let_def frame_simps split: if_splits option.splits)

lemma link_view_get_file [frame_simps]: "link_view (libdrbcc_get_file addr len data s) = link_view s"
  by (auto simp: libdrbcc_get_file_def Let_def frame_simps dest!: link_view_wanted_entry split: prod.split)

lemma link_view_put_chunks:
  "link_view (snd (put_chunks content maxlen first i write_addr pos s)) = link_view s"
proof (induction content maxlen first i write_addr pos s rule: put_chunks.induct)
  case (1 content maxlen first i write_addr pos s)
  show ?case
    using 1 by (subst put_chunks.simps)
      (auto simp: Let_def frame_simps dest!: link_view_pair split: prod.split option.split)
qed

lemma link_view_put_to_area [frame_simps]: "link_view (put_to_area es k first s) = link_view s"
proof -
  have "put_chunks content maxlen first i write_addr pos u = (d, t) \<Longrightarrow> link_view t = link_view u"
    for content maxlen i write_addr pos u d t
    by (metis link_view_put_chunks snd_conv)
  then show ?thesis
    by (auto simp: put_to_area_def Let_def frame_simps dest!: link_view_pair split: prod.split)
qed

lemma link_view_put_file [frame_simps]: "link_view (libdrbcc_put_file addr len data s) = link_view s"
  by (simp add: libdrbcc_put_file_def Let_def frame_simps split: option.split)

section \<open>The log\<close>

lemma link_view_handle_logentry [frame_simps]: "link_view (handle_logentry pos len buf s) = link_view s"
  by (simp add: handle_logentry_def frame_simps)

lemma link_view_log_entry [frame_simps]: "link_view (log_entry pos d s) = link_view s"
  by (auto simp: log_entry_def Let_def frame_simps dest!: link_view_pair split: prod.split option.split)

lemma link_view_finish_log [frame_simps]: "link_view (finish_log s) = link_view s"
  by (simp add: finish_log_def frame_simps)

lemma link_view_log_entries [frame_simps]:
  "link_view (snd (log_entries addr pos data is s)) = link_view s"
  by (induction addr pos data "is" s rule: log_entries.induct) (simp_all add: frame_simps)

lemma link_view_get_log_data [frame_simps]: "link_view (get_log_data addr len data s) = link_view s"
proof -
  have "log_entries a p d is u = (b, t) \<Longrightarrow> link_view t = link_view u" for a p d "is" u b t
    by (metis link_view_log_entries snd_conv)
  then show ?thesis
    by (auto simp: get_log_data_def Let_def frame_simps split: prod.split)
qed

lemma link_view_next_block: "next_block s = (b, t) \<Longrightarrow> link_view t = link_view s"
  by (auto simp: next_block_def Let_def frame_simps split: if_splits)

lemma link_view_start_addr: "link_view (snd (calculate_start_addr_wrap from_x cur s)) = link_view s"
  by (auto simp: calculate_start_addr_wrap_def Let_def frame_simps dest!: link_view_next_block split: prod.split)

lemma link_view_log_start: "link_view (snd (log_start s)) = link_view s"
  by (auto simp: log_start_def start_no_wrap_def start_wrap_def link_view_start_addr
    Let_def frame_simps dest!: link_view_next_block split: prod.split)

lemma link_view_get_log [frame_simps]: "link_view (libdrbcc_get_log addr len data s) = link_view s"
  by (simp add: libdrbcc_get_log_def link_view_log_start Let_def split_def frame_simps split: option.split)

section \<open>The handlers\<close>

lemma link_view_if: "link_view a = v \<Longrightarrow> link_view b = v \<Longrightarrow> link_view (if c then a else b) = v"
  by simp

lemma link_view_readflash_cb [frame_simps]: "link_view (libdrbcc_readflash_cb addr len data s) = link_view s"
  unfolding libdrbcc_readflash_cb_def Let_def
  by (intro link_view_if) (simp_all add: frame_simps split: prod.split DRBCC_STATES_t.split)

lemma link_view_writeflash_cb [frame_simps]: "link_view (libdrbcc_writeflash_cb addr len r s) = link_view s"
  by (simp add: libdrbcc_writeflash_cb_def write_result_delete_def write_result_put_def Let_def frame_simps
    split: DRBCC_STATES_t.split)

lemma link_view_ringlog_pos [frame_simps]: "link_view (proc_ringlog_pos s) = link_view s"
  by (simp add: proc_ringlog_pos_def libdrbcc_logpos_cb_def Let_def frame_simps)

lemma link_view_req_protocol [frame_simps]: "link_view (proc_req_protocol s) = link_view s"
  by (auto simp: proc_req_protocol_def frame_simps dest!: link_view_pair split: prod.split option.split)

lemma link_view_extflash [frame_simps]:
  "link_view (proc_extflash_read s) = link_view s"
  "link_view (proc_extflash_write_result s) = link_view s"
  "link_view (proc_extflash_blockerase s) = link_view s"
  by (simp_all add: proc_extflash_read_def proc_extflash_write_result_def proc_extflash_blockerase_def
    Let_def frame_simps)

lemma link_view_reports [frame_simps]:
  "link_view (proc_ind_protocol s) = link_view s"
  "link_view (proc_extflash_id s) = link_view s"
  "link_view (proc_rtc_read s) = link_view s"
  "link_view (proc_bl_update s) = link_view s"
  "link_view (proc_id_data s) = link_view s"
  "link_view (proc_hdd_off s) = link_view s"
  "link_view (proc_status s) = link_view s"
  "link_view (proc_accel_event s) = link_view s"
  "link_view (proc_debug_get s) = link_view s"
  "link_view (proc_unknown s) = link_view s"
  by (simp_all add: proc_ind_protocol_def proc_extflash_id_def proc_rtc_read_def proc_bl_update_def
    proc_id_data_def proc_hdd_off_def proc_status_def proc_accel_event_def proc_debug_get_def
    proc_unknown_def Let_def frame_simps)

lemma link_view_dispatch [frame_simps]: "link_view (proc_dispatch c s) = link_view s"
  unfolding proc_dispatch_def by (intro link_view_if) (simp_all only: frame_simps)

lemma link_view_proc_msg [frame_simps]: "link_view (snd (libdrbcc_proc_msg s)) = link_view s"
  by (simp add: libdrbcc_proc_msg_def frame_simps split: option.split)

text \<open>The fields of the link, as the receiver needs them.\<close>

lemma link_view_fields:
  assumes "link_view t = link_view s"
  shows "bufstart t = bufstart s" "bufend t = bufend s" "readbuf t = readbuf s" "rx t = rx s"
    "tx t = tx s" "writebuf t = writebuf s" "writepos t = writepos s" "escaped t = escaped s"
    "wait_for_ack t = wait_for_ack s" "wait_for_answer t = wait_for_answer s"
    "wait_for_stop_char t = wait_for_stop_char s" "sync_mode t = sync_mode s"
    "repeatMsg t = repeatMsg s" "repeatCount t = repeatCount s" "send_toggle t = send_toggle s"
    "expected_recv_toggle t = expected_recv_toggle s" "magic t = magic s"
    "libdrbcc_initialized t = libdrbcc_initialized s" "cbs t = cbs s" "heap t = heap s"
    "ackTimeout t = ackTimeout s" "nextTimeout t = nextTimeout s" "crc t = crc s"
  using arg_cong [OF assms, of bufstart] arg_cong [OF assms, of bufend] arg_cong [OF assms, of readbuf]
    arg_cong [OF assms, of rx] arg_cong [OF assms, of tx] arg_cong [OF assms, of writebuf]
    arg_cong [OF assms, of writepos] arg_cong [OF assms, of escaped] arg_cong [OF assms, of wait_for_ack]
    arg_cong [OF assms, of wait_for_answer] arg_cong [OF assms, of wait_for_stop_char]
    arg_cong [OF assms, of sync_mode] arg_cong [OF assms, of repeatMsg] arg_cong [OF assms, of repeatCount]
    arg_cong [OF assms, of send_toggle] arg_cong [OF assms, of expected_recv_toggle]
    arg_cong [OF assms, of magic] arg_cong [OF assms, of libdrbcc_initialized] arg_cong [OF assms, of cbs]
    arg_cong [OF assms, of heap] arg_cong [OF assms, of ackTimeout] arg_cong [OF assms, of nextTimeout]
    arg_cong [OF assms, of crc]
  by (simp_all add: link_view_def)

lemmas proc_msg_fields [simp] = link_view_fields [OF link_view_proc_msg]

end
