(* ===== verification/Proc_Inv.thy ===== *)
theory Proc_Inv
  imports Proc_Frame
begin

text \<open>
  The messages in the queues are well formed and not empty, and the buffer of the received
  message has its size: every handler of a received message keeps this.
\<close>

definition good_msg :: "DRBCC_MESSAGE_t \<Rightarrow> bool" where
  "good_msg m \<longleftrightarrow> wf_msg m \<and> 0 < msg_len m"

definition msgs_ok :: "DRBCC_t \<Rightarrow> bool" where
  "msgs_ok s \<longleftrightarrow> list_all good_msg (prioQueue s) \<and> list_all good_msg (secQueue s) \<and>
     length (msg (cur_msg s)) = DRBCC_MAX_PAYLOAD"

lemma msgs_ok_update [simp]:
  "msgs_ok (s\<lparr>fd := x0\<rparr>) = msgs_ok s"
  "msgs_ok (s\<lparr>send_toggle := x1\<rparr>) = msgs_ok s"
  "msgs_ok (s\<lparr>expected_recv_toggle := x2\<rparr>) = msgs_ok s"
  "msgs_ok (s\<lparr>escaped := x3\<rparr>) = msgs_ok s"
  "msgs_ok (s\<lparr>wait_for_ack := x4\<rparr>) = msgs_ok s"
  "msgs_ok (s\<lparr>wait_for_answer := x5\<rparr>) = msgs_ok s"
  "msgs_ok (s\<lparr>wait_for_stop_char := x6\<rparr>) = msgs_ok s"
  "msgs_ok (s\<lparr>wait_for_first_sync_ack := x7\<rparr>) = msgs_ok s"
  "msgs_ok (s\<lparr>sync_mode := x8\<rparr>) = msgs_ok s"
  "msgs_ok (s\<lparr>repeatCount := x9\<rparr>) = msgs_ok s"
  "msgs_ok (s\<lparr>session := x10\<rparr>) = msgs_ok s"
  "msgs_ok (s\<lparr>indClosesSession := x11\<rparr>) = msgs_ok s"
  "msgs_ok (s\<lparr>crc := x12\<rparr>) = msgs_ok s"
  "msgs_ok (s\<lparr>readbuf := x13\<rparr>) = msgs_ok s"
  "msgs_ok (s\<lparr>writebuf := x14\<rparr>) = msgs_ok s"
  "msgs_ok (s\<lparr>writepos := x15\<rparr>) = msgs_ok s"
  "msgs_ok (s\<lparr>bufstart := x16\<rparr>) = msgs_ok s"
  "msgs_ok (s\<lparr>bufend := x17\<rparr>) = msgs_ok s"
  "msgs_ok (s\<lparr>curFileIndex := x18\<rparr>) = msgs_ok s"
  "msgs_ok (s\<lparr>curFilelength := x19\<rparr>) = msgs_ok s"
  "msgs_ok (s\<lparr>curFilestart := x20\<rparr>) = msgs_ok s"
  "msgs_ok (s\<lparr>maxFilelength := x21\<rparr>) = msgs_ok s"
  "msgs_ok (s\<lparr>curFileType := x22\<rparr>) = msgs_ok s"
  "msgs_ok (s\<lparr>flashAddr := x23\<rparr>) = msgs_ok s"
  "msgs_ok (s\<lparr>flashPos := x24\<rparr>) = msgs_ok s"
  "msgs_ok (s\<lparr>flashLen := x25\<rparr>) = msgs_ok s"
  "msgs_ok (s\<lparr>flashData := x26\<rparr>) = msgs_ok s"
  "msgs_ok (s\<lparr>start := x27\<rparr>) = msgs_ok s"
  "msgs_ok (s\<lparr>logdata := x28\<rparr>) = msgs_ok s"
  "msgs_ok (s\<lparr>logindex := x29\<rparr>) = msgs_ok s"
  "msgs_ok (s\<lparr>logrest := x30\<rparr>) = msgs_ok s"
  "msgs_ok (s\<lparr>logpos := x31\<rparr>) = msgs_ok s"
  "msgs_ok (s\<lparr>logentry := x32\<rparr>) = msgs_ok s"
  "msgs_ok (s\<lparr>logwrapflag := x33\<rparr>) = msgs_ok s"
  "msgs_ok (s\<lparr>curFilename := x34\<rparr>) = msgs_ok s"
  "msgs_ok (s\<lparr>ackTimeout := x35\<rparr>) = msgs_ok s"
  "msgs_ok (s\<lparr>resend := x36\<rparr>) = msgs_ok s"
  "msgs_ok (s\<lparr>sendnext := x37\<rparr>) = msgs_ok s"
  "msgs_ok (s\<lparr>state := x38\<rparr>) = msgs_ok s"
  "msgs_ok (s\<lparr>repeatMsg := x39\<rparr>) = msgs_ok s"
  "msgs_ok (s\<lparr>retry := x40\<rparr>) = msgs_ok s"
  "msgs_ok (s\<lparr>session_out := x41\<rparr>) = msgs_ok s"
  "msgs_ok (s\<lparr>drbcc_session := x42\<rparr>) = msgs_ok s"
  "msgs_ok (s\<lparr>mallocs := x43\<rparr>) = msgs_ok s"
  "msgs_ok (s\<lparr>ticks := x44\<rparr>) = msgs_ok s"
  "msgs_ok (s\<lparr>rx := x45\<rparr>) = msgs_ok s"
  "msgs_ok (s\<lparr>tx := x46\<rparr>) = msgs_ok s"
  "msgs_ok (s\<lparr>fs := x47\<rparr>) = msgs_ok s"
  "msgs_ok (s\<lparr>ios := x48\<rparr>) = msgs_ok s"
  "msgs_ok (s\<lparr>events := x49\<rparr>) = msgs_ok s"
  "msgs_ok (s\<lparr>fault := x50\<rparr>) = msgs_ok s"
  by (simp_all add: msgs_ok_def)

lemma good_new_msg:
  assumes "length block = DRBCC_MAX_PAYLOAD" and "length bs \<le> DRBCC_MAX_PAYLOAD"
    and "0 < n" and "unat n \<le> DRBCC_MAX_MSG_LEN"
  shows "good_msg (new_msg n bs block)"
proof -
  have "msg_len (new_msg n bs block) = n" by (simp add: new_msg_def)
  then show ?thesis using assms wf_new_msg by (simp add: good_msg_def)
qed

lemma good_write_msg:
  assumes "length block = DRBCC_MAX_PAYLOAD" "length data = unat n" "unat n \<le> 128"
  shows "good_msg (write_msg a n data block)"
proof -
  have "unat (5 + n) = 5 + unat n" using unat_add_lem [of 5 n] assms(3) by simp
  then have "unat (ucast (5 + n) :: u8) = 5 + unat n"
    using assms(3) by (simp add: unsigned_ucast_eq take_bit_eq_mod)
  then have "0 < msg_len (write_msg a n data block)"
    by (simp add: write_msg_def new_msg_def word_less_nat_alt)
  then show ?thesis using write_msg_payload(1) [OF assms] by (simp add: good_msg_def)
qed

section \<open>Helpers\<close>

lemma msgs_ok_basic [simp]:
  "msgs_ok (call_cb c e s) = msgs_ok s"
  "msgs_ok (call_error_cb t s) = msgs_ok s"
  "msgs_ok (close_session ok s) = msgs_ok s"
  "msgs_ok (report_session ok s) = msgs_ok s"
  "msgs_ok (end_session ok s) = msgs_ok s"
  "msgs_ok (fail_session t s) = msgs_ok s"
  "msgs_ok (abort_put t s) = msgs_ok s"
  "msgs_ok (warn_crc data s) = msgs_ok s"
  by (simp_all add: call_cb_def call_error_cb_def close_session_def report_session_def
    end_session_def fail_session_def abort_put_def warn_crc_def)

lemma msgs_ok_add_msg [simp]:
  "msgs_ok (libdrbcc_add_msg_prio m s) \<longleftrightarrow> msgs_ok s \<and> good_msg m"
  "msgs_ok (libdrbcc_add_msg_sec m s) \<longleftrightarrow> msgs_ok s \<and> good_msg m"
  by (auto simp: msgs_ok_def libdrbcc_add_msg_prio_def libdrbcc_add_msg_sec_def)

lemma msgs_ok_pair:
  "drbcc_malloc n s = (r, t) \<Longrightarrow> msgs_ok t = msgs_ok s"
  "sys_call n s = (i, t) \<Longrightarrow> msgs_ok t = msgs_ok s"
  "sys_read content pos n s = (i, t) \<Longrightarrow> msgs_ok t = msgs_ok s"
  "sys_open creat trunc name s = (b, t) \<Longrightarrow> msgs_ok t = msgs_ok s"
  "sys_write_at name off bs s = (i, t) \<Longrightarrow> msgs_ok t = msgs_ok s"
  by (auto simp: drbcc_malloc_def sys_call_def sys_read_def sys_open_def sys_write_at_def
    split: prod.splits option.splits if_splits)

lemma msgs_ok_alloc: "alloc_msg s = (Some block, t) \<Longrightarrow> msgs_ok t = msgs_ok s \<and> length block = DRBCC_MAX_PAYLOAD"
  "alloc_msg s = (None, t) \<Longrightarrow> msgs_ok t = msgs_ok s"
  by (auto simp: alloc_msg_def drbcc_malloc_def)

lemma msgs_ok_fetch: "fetch blk p n s = (bs, t) \<Longrightarrow> msgs_ok t = msgs_ok s \<and> length bs = n"
  by (auto simp: fetch_def split: option.splits if_splits)

section \<open>Flash access\<close>

lemma msgs_ok_req_flash_read [inv_intros]:
  "msgs_ok s \<Longrightarrow> msgs_ok (snd (libdrbcc_req_flash_read addr len s))"
  by (auto simp: libdrbcc_req_flash_read_def Let_def dest!: msgs_ok_alloc intro!: good_new_msg
    split: prod.split option.split)

lemma msgs_ok_flash_write [inv_intros]: "msgs_ok s \<Longrightarrow> msgs_ok (snd (libdrbcc_flash_write s))"
proof -
  have "\<not> CHUNK \<le> l \<Longrightarrow> unat l \<le> 128" for l :: u32 by (simp add: word_le_nat_alt)
  then show "msgs_ok s \<Longrightarrow> msgs_ok (snd (libdrbcc_flash_write s))"
    by (auto simp: libdrbcc_flash_write_def Let_def dest!: msgs_ok_alloc msgs_ok_fetch
      intro!: good_write_msg split: prod.split option.split)
qed

lemma msgs_ok_erase_block [inv_intros]: "msgs_ok s \<Longrightarrow> msgs_ok (snd (libdrbcc_req_flash_erase_block b s))"
  by (auto simp: libdrbcc_req_flash_erase_block_def dest!: msgs_ok_alloc intro!: good_new_msg
    split: prod.split option.split)

lemma unat_first_chunk_le: "unat (first_chunk addr len) \<le> 128"
proof -
  have "unat (CHUNK - addr mod CHUNK) = 128 - unat (addr mod CHUNK)"
    by (simp add: unat_sub word_le_nat_alt unat_mod)
  then show ?thesis by (auto simp: first_chunk_def word_le_nat_alt)
qed

lemma msgs_ok_req_flash_write [inv_intros]:
  assumes "msgs_ok s"
  shows "msgs_ok (snd (libdrbcc_req_flash_write addr len data s))"
proof -
  have w: "msgs_ok (snd (write_first addr (first_chunk addr len) data s))"
    using assms unat_first_chunk_le
    by (auto simp: write_first_def dest!: msgs_ok_alloc msgs_ok_fetch intro!: good_write_msg
      split: prod.split option.split)
  have r: "msgs_ok t \<Longrightarrow> msgs_ok (save_rest a l d t)" for a l d t
    by (auto simp: save_rest_def dest!: msgs_ok_pair msgs_ok_fetch split: prod.split option.split)
  show ?thesis using assms w r
    by (auto simp: libdrbcc_req_flash_write_def Let_def split: prod.split)
qed

section \<open>File operations\<close>

lemma msgs_ok_write_table [inv_intros]: "msgs_ok s \<Longrightarrow> msgs_ok (write_table data s)"
  by (simp add: write_table_def Let_def inv_intros)

lemma msgs_ok_request_partition [inv_intros]:
  "msgs_ok s \<Longrightarrow> msgs_ok (snd (libdrbcc_request_partition s))"
  "msgs_ok s \<Longrightarrow> msgs_ok (snd (libdrbcc_request_partition2 s))"
  by (simp_all add: libdrbcc_request_partition_def libdrbcc_request_partition2_def inv_intros)

lemma msgs_ok_got_partition [inv_intros]: "msgs_ok s \<Longrightarrow> msgs_ok (libdrbcc_got_partition addr len data s)"
  by (simp add: libdrbcc_got_partition_def libdrbcc_create_partition_def Let_def inv_intros)

lemma put_byte_ok:
  "put_byte i b (d, s) = (d', t) \<Longrightarrow> length d' = length d \<and> msgs_ok t = msgs_ok s \<and> cur_msg t = cur_msg s"
  by (auto simp: put_byte_def split: if_splits)

lemma clear_entry_ok:
  assumes "clear_entry base (d, s) = (d', t)"
  shows "length d' = length d \<and> msgs_ok t = msgs_ok s \<and> cur_msg t = cur_msg s"
proof -
  have "fold (\<lambda>k. put_byte (f k) 0xFF) ks (d, s) = (d', t) \<Longrightarrow>
      length d' = length d \<and> msgs_ok t = msgs_ok s \<and> cur_msg t = cur_msg s" for f :: "nat \<Rightarrow> nat" and ks
  proof (induction ks arbitrary: d s)
    case (Cons k ks)
    obtain d1 s1 where 1: "put_byte (f k) 0xFF (d, s) = (d1, s1)" by fastforce
    with Cons show ?case using put_byte_ok [OF 1] by simp
  qed simp
  note fold_ok = this
  show ?thesis by (rule fold_ok [OF assms [unfolded clear_entry_def]])
qed

lemma delete_entry_ok:
  "delete_entry d s = (d', t) \<Longrightarrow> length d' = length d \<and> msgs_ok t = msgs_ok s \<and> cur_msg t = cur_msg s"
  by (auto simp: delete_entry_def dest!: clear_entry_ok split: if_splits option.splits)

lemma msgs_ok_store_reply:
  "msgs_ok s \<Longrightarrow> length data = 140 \<Longrightarrow> msgs_ok (store_reply data s)"
  by (simp add: msgs_ok_def store_reply_def)

lemma msgs_ok_delete [inv_intros]:
  "msgs_ok s \<Longrightarrow> length data = 140 \<Longrightarrow> msgs_ok (libdrbcc_delete addr len data s)"
  by (auto simp: libdrbcc_delete_def Let_def dest!: delete_entry_ok
    intro!: msgs_ok_write_table msgs_ok_store_reply split: prod.split)

lemma msgs_ok_get_file_data [inv_intros]: "msgs_ok s \<Longrightarrow> msgs_ok (get_file_data addr len data s)"
  by (auto simp: get_file_data_def Let_def dest!: msgs_ok_pair msgs_ok_fetch
    intro!: msgs_ok_req_flash_read split: prod.split)

lemma msgs_ok_wanted_entry: "wanted_entry data s = (e, t) \<Longrightarrow> msgs_ok t = msgs_ok s"
  by (auto simp: wanted_entry_def Let_def split: if_splits option.splits)

lemma msgs_ok_get_file [inv_intros]: "msgs_ok s \<Longrightarrow> msgs_ok (libdrbcc_get_file addr len data s)"
  by (auto simp: libdrbcc_get_file_def Let_def msgs_ok_get_file_data dest!: msgs_ok_wanted_entry
    intro!: msgs_ok_req_flash_read split: prod.split)

lemma unat_chunk_len: "unat (chunk_len maxlen first write_addr) \<le> 128"
  by (simp add: chunk_len_def unat_mod less_imp_le)

lemma msgs_ok_put_chunks:
  "msgs_ok s \<Longrightarrow> msgs_ok (snd (put_chunks content maxlen first i write_addr pos s))"
proof (induction content maxlen first i write_addr pos s rule: put_chunks.induct)
  case (1 content maxlen first i write_addr pos s)
  show ?case
  proof (cases "i < maxlen")
    case False
    with 1(2) show ?thesis by (subst put_chunks.simps) simp
  next
    case True
    let ?n = "chunk_len maxlen first write_addr"
    define s1 where "s1 = (if i mod 0x1000 = 0
      then snd (libdrbcc_req_flash_erase_block (i div 0x1000 + first) s) else s)"
    have s1: "msgs_ok s1" using 1(2) by (simp add: s1_def inv_intros)
    obtain mem s2 where a: "alloc_msg s1 = (mem, s2)" by fastforce
    obtain rd s3 where r: "sys_read content pos (unat ?n) s2 = (rd, s3)" by fastforce
    show ?thesis
    proof (cases "\<exists>block. mem = Some block \<and> rd = int (unat ?n)")
      case False
      with a r s1 \<open>i < maxlen\<close> show ?thesis
        by (subst put_chunks.simps)
          (auto simp: Let_def s1_def [symmetric] dest!: msgs_ok_alloc msgs_ok_pair split: option.split)
    next
      case True
      then obtain block where b: "mem = Some block" "rd = int (unat ?n)" by blast
      have "pos + unat ?n \<le> length content \<or> unat ?n = 0" using sys_read_all r b by blast
      then have l: "length (take (unat ?n) (drop pos content)) = unat ?n" by auto
      have "msgs_ok (libdrbcc_add_msg_sec (write_msg write_addr ?n (take (unat ?n) (drop pos content)) block) s3)"
        using a r b s1 l unat_chunk_len by (auto dest!: msgs_ok_alloc msgs_ok_pair intro!: good_write_msg)
      with 1(1) [OF \<open>i < maxlen\<close> s1_def a [unfolded b, symmetric] refl r [symmetric] refl b(2)] a r b
      show ?thesis using \<open>i < maxlen\<close>
        by (subst put_chunks.simps) (simp add: Let_def s1_def [symmetric])
    qed
  qed
qed

lemma msgs_ok_put_to_area [inv_intros]:
  assumes "msgs_ok s"
  shows "msgs_ok (put_to_area es k first s)"
proof -
  have "put_chunks content maxlen first i write_addr pos u = (d, t) \<Longrightarrow> msgs_ok u \<Longrightarrow> msgs_ok t"
    for content maxlen i write_addr pos u d t
    by (metis msgs_ok_put_chunks snd_conv)
  with assms show ?thesis
    by (auto simp: put_to_area_def Let_def dest!: msgs_ok_pair intro!: msgs_ok_write_table split: prod.split)
qed

lemma msgs_ok_put_file [inv_intros]: "msgs_ok s \<Longrightarrow> msgs_ok (libdrbcc_put_file addr len data s)"
  by (simp add: libdrbcc_put_file_def Let_def inv_intros split: option.split)

section \<open>The log\<close>

lemma msgs_ok_handle_logentry [simp]: "msgs_ok (handle_logentry pos len buf s) = msgs_ok s"
  by (simp add: handle_logentry_def)

lemma msgs_ok_log_entry [simp]: "msgs_ok (log_entry pos d s) = msgs_ok s"
  by (auto simp: log_entry_def Let_def dest!: msgs_ok_pair split: prod.split option.split)

lemma msgs_ok_log_entries [simp]: "msgs_ok (snd (log_entries addr pos data is s)) = msgs_ok s"
  by (induction addr pos data "is" s rule: log_entries.induct) (simp_all add: finish_log_def)

lemma msgs_ok_get_log_data [inv_intros]:
  assumes "msgs_ok s"
  shows "msgs_ok (get_log_data addr len data s)"
proof -
  have "log_entries a p d is u = (b, t) \<Longrightarrow> msgs_ok t = msgs_ok u" for a p d "is" u b t
    by (metis msgs_ok_log_entries snd_conv)
  with assms show ?thesis
    by (auto simp: get_log_data_def Let_def finish_log_def intro!: msgs_ok_req_flash_read split: prod.split)
qed

lemma msgs_ok_next_block: "next_block s = (b, t) \<Longrightarrow> msgs_ok t = msgs_ok s"
  by (auto simp: next_block_def Let_def split: if_splits)

lemma msgs_ok_start_addr [simp]: "msgs_ok (snd (calculate_start_addr_wrap from_x cur s)) = msgs_ok s"
  by (auto simp: calculate_start_addr_wrap_def Let_def dest!: msgs_ok_next_block split: prod.split)

lemma msgs_ok_log_start [simp]: "msgs_ok (snd (log_start s)) = msgs_ok s"
  by (auto simp: log_start_def start_no_wrap_def start_wrap_def Let_def dest!: msgs_ok_next_block
    split: prod.split)

lemma msgs_ok_get_log [inv_intros]: "msgs_ok s \<Longrightarrow> msgs_ok (libdrbcc_get_log addr len data s)"
  by (simp add: libdrbcc_get_log_def Let_def split_def inv_intros split: option.split)

section \<open>The handlers\<close>

lemma msgs_ok_if: "msgs_ok a \<Longrightarrow> msgs_ok b \<Longrightarrow> msgs_ok (if c then a else b)"
  by simp

lemma msgs_ok_readflash_cb [inv_intros]:
  "msgs_ok s \<Longrightarrow> length data = 140 \<Longrightarrow> msgs_ok (libdrbcc_readflash_cb addr len data s)"
  unfolding libdrbcc_readflash_cb_def Let_def
  by (intro msgs_ok_if) (simp_all add: inv_intros split: prod.split DRBCC_STATES_t.split)

lemma msgs_ok_writeflash_cb [simp]: "msgs_ok (libdrbcc_writeflash_cb addr len r s) = msgs_ok s"
  by (simp add: libdrbcc_writeflash_cb_def write_result_delete_def write_result_put_def Let_def
    split: DRBCC_STATES_t.split)

lemma msgs_ok_ringlog_pos [inv_intros]: "msgs_ok s \<Longrightarrow> msgs_ok (proc_ringlog_pos s)"
  by (simp add: proc_ringlog_pos_def libdrbcc_logpos_cb_def Let_def inv_intros)

lemma msgs_ok_req_protocol [inv_intros]: "msgs_ok s \<Longrightarrow> msgs_ok (proc_req_protocol s)"
  by (auto simp: proc_req_protocol_def dest!: msgs_ok_alloc intro!: good_new_msg split: prod.split option.split)

lemma msgs_ok_extflash [inv_intros]:
  "msgs_ok s \<Longrightarrow> msgs_ok (proc_extflash_read s)"
  "msgs_ok s \<Longrightarrow> msgs_ok (proc_extflash_write_result s)"
  "msgs_ok s \<Longrightarrow> msgs_ok (proc_extflash_blockerase s)"
proof -
  assume s: "msgs_ok s"
  then have "length (drop 5 (msg (cur_msg s))) = 140" by (simp add: msgs_ok_def)
  with s show "msgs_ok (proc_extflash_read s)" "msgs_ok (proc_extflash_write_result s)"
    "msgs_ok (proc_extflash_blockerase s)"
    by (simp_all add: proc_extflash_read_def proc_extflash_write_result_def proc_extflash_blockerase_def
      Let_def inv_intros)
qed

lemma msgs_ok_reports [simp]:
  "msgs_ok (proc_ind_protocol s) = msgs_ok s"
  "msgs_ok (proc_extflash_id s) = msgs_ok s"
  "msgs_ok (proc_rtc_read s) = msgs_ok s"
  "msgs_ok (proc_bl_update s) = msgs_ok s"
  "msgs_ok (proc_id_data s) = msgs_ok s"
  "msgs_ok (proc_hdd_off s) = msgs_ok s"
  "msgs_ok (proc_status s) = msgs_ok s"
  "msgs_ok (proc_accel_event s) = msgs_ok s"
  "msgs_ok (proc_debug_get s) = msgs_ok s"
  "msgs_ok (proc_unknown s) = msgs_ok s"
  by (simp_all add: proc_ind_protocol_def proc_extflash_id_def proc_rtc_read_def proc_bl_update_def
    proc_id_data_def proc_hdd_off_def proc_status_def proc_accel_event_def proc_debug_get_def
    proc_unknown_def Let_def)

lemma msgs_ok_dispatch [inv_intros]: "msgs_ok s \<Longrightarrow> msgs_ok (proc_dispatch c s)"
  unfolding proc_dispatch_def by (intro msgs_ok_if) (simp_all add: inv_intros)

lemma msgs_ok_proc_msg [inv_intros]: "msgs_ok s \<Longrightarrow> msgs_ok (snd (libdrbcc_proc_msg s))"
  by (simp add: libdrbcc_proc_msg_def inv_intros split: option.split)

end
