(* ===== verification/Link.thy ===== *)
theory Link
  imports Proc_Inv
begin

text \<open>
  The receiving half of the link and the loop that drives it: \<^verbatim>\<open>libdrbcc_receive\<close> and
  \<^verbatim>\<open>drbcc_trigger\<close> of \<^verbatim>\<open>drbcc.c\<close>. The body of the receive loop is \<open>recv_step\<close>, one byte
  at a time; its result says whether the function returned, and carries the local variable
  \<^verbatim>\<open>ack\<close>, which keeps its value from one message to the next within a call.
\<close>

section \<open>Receiving\<close>

definition fill_buffer :: "DRBCC_t \<Rightarrow> DRBCC_t" where
  "fill_buffer s =
     (if bufend s = bufstart s
      then let (bs, s1) = tty_read (length (readbuf s)) (s\<lparr>bufstart := 0, bufend := 0\<rparr>)
           in s1\<lparr>readbuf := overwrite bs (readbuf s1), bufend := length bs\<rparr>
      else if bufend s > 0 \<and> bufend s < length (readbuf s)
      then let (bs, s1) = tty_read (length (readbuf s) - bufend s) s
           in s1\<lparr>readbuf := take (bufend s) (readbuf s1) @ overwrite bs (drop (bufend s) (readbuf s1)),
                 bufend := bufend s + length bs\<rparr>
      else s)"

definition recv_data :: "u8 \<Rightarrow> DRBCC_t \<Rightarrow> DRBCC_t" where
  "recv_data b s =
     (let m = cur_msg s; n = unat (msg_len m);
          s1 = (if n < length (msg m) then s else s\<lparr>fault := True\<rparr>)
      in s1\<lparr>crc := libdrbcc_crc_ccitt_update (crc s) b,
            cur_msg := \<lparr>msg_len = msg_len m + 1, msg = (msg m)[n := b]\<rparr>\<rparr>)"

definition clear_msg :: "DRBCC_t \<Rightarrow> DRBCC_t" where
  "clear_msg s = s\<lparr>cur_msg := \<lparr>msg_len = 0, msg = (msg (cur_msg s))[0 := cmd DRBCC_CMD_ILLEGAL]\<rparr>\<rparr>"

definition release_repeat :: "DRBCC_t \<Rightarrow> DRBCC_t" where
  "release_repeat s = s\<lparr>wait_for_ack := False, repeatCount := 0, repeatMsg := None\<rparr>"

text \<open>A message of the peer that is no acknowledgement.\<close>

definition recv_peer :: "DRBCC_t \<Rightarrow> DRBCC_t" where
  "recv_peer s =
     (let s1 = s\<lparr>cur_msg := (cur_msg s)\<lparr>msg_len := msg_len (cur_msg s) - 2\<rparr>\<rparr>;
          s2 = (if \<not> sync_mode s1 then libdrbcc_send_ack (cur_msg s1) s1 else s1);
          s3 = (if sync_mode s2 \<or>
                   rmsg s2 0 AND TOGGLE_BITMASK = ucast (expected_recv_toggle s2) AND TOGGLE_BITMASK
                then snd (libdrbcc_proc_msg
                       (s2\<lparr>expected_recv_toggle := NOT (expected_recv_toggle s2),
                           wait_for_answer := (wait_for_ack s2 \<and> wait_for_answer s2)\<rparr>))
                else (close_session False (call_error_cb ''TOGGLE_BIT ERROR'' s2))\<lparr>state := DRBCC_STATE_USER\<rparr>)
      in if sync_mode s3 then release_repeat (s3\<lparr>send_toggle := 0, wait_for_answer := False\<rparr>) else s3)"

definition recv_frame :: "u8 \<Rightarrow> DRBCC_t \<Rightarrow> bool \<times> u8 \<times> DRBCC_t" where
  "recv_frame ack s =
     (let ack1 = (if send_toggle s \<noteq> 0 then cmd DRBCC_ACK OR TOGGLE_BITMASK else ack)
      in if rmsg s 0 = ack1
         then (False, ack1,
               if repeatMsg s \<noteq> None
               then let s1 = clear_msg (libdrbcc_proc_ack_msg s)
                    in release_repeat (s1\<lparr>send_toggle := NOT (send_toggle s1)\<rparr>)
               else call_error_cb ''Received unexpected ack message'' s)
         else if rmsg s 0 = cmd DRBCC_SYNC_ANSWER
         then (False, ack1,
               let s1 = clear_msg s
               in (release_repeat (s1\<lparr>send_toggle := NOT (send_toggle s1)\<rparr>))
                    \<lparr>sync_mode := True, ackTimeout := Timeval (tv_sec (ackTimeout s1)) (250 * 1000)\<rparr>)
         else if cmd_bits (rmsg s 0) \<noteq> cmd DRBCC_ACK
         then let s1 = recv_peer s in (\<not> sync_mode s1, ack1, s1)
         else (True, ack1, s))"

definition recv_stop :: "u8 \<Rightarrow> DRBCC_t \<Rightarrow> bool \<times> u8 \<times> DRBCC_t" where
  "recv_stop ack s =
     (if \<not> wait_for_stop_char s then (False, ack, s)
      else
        let s1 = s\<lparr>wait_for_stop_char := False\<rparr>
        in if msg_len (cur_msg s1) < 3 then (False, ack, s1)
           else if crc s1 = 0 then recv_frame ack s1
           else (True, ack, s1))"

definition recv_char :: "u8 \<Rightarrow> u8 \<Rightarrow> DRBCC_t \<Rightarrow> bool \<times> u8 \<times> DRBCC_t" where
  "recv_char b ack s =
     (if b = DRBCC_ESC_CHAR then (False, ack, s\<lparr>escaped := True\<rparr>)
      else if escaped s then (False, ack, recv_data (NOT b) (s\<lparr>escaped := False\<rparr>))
      else if b = DRBCC_START_CHAR
      then (False, ack, s\<lparr>cur_msg := (cur_msg s)\<lparr>msg_len := 0\<rparr>, crc := 0xffff, wait_for_stop_char := True\<rparr>)
      else if b = DRBCC_STOP_CHAR then recv_stop ack s
      else (False, ack, recv_data b s))"

definition recv_step :: "u8 \<Rightarrow> DRBCC_t \<Rightarrow> bool \<times> u8 \<times> DRBCC_t" where
  "recv_step ack s =
     (let s1 = (if bufstart s < length (readbuf s) then s else s\<lparr>fault := True\<rparr>)
      in recv_char (readbuf s ! bufstart s) ack (s1\<lparr>bufstart := bufstart s + 1\<rparr>))"

text \<open>The fuel is the number of buffered bytes; each round takes one.\<close>

fun recv_loop :: "nat \<Rightarrow> u8 \<Rightarrow> DRBCC_t \<Rightarrow> DRBCC_t" where
  "recv_loop 0 ack s = s"
| "recv_loop (Suc n) ack s =
     (if bufstart s < bufend s
      then let (ret, ack1, s1) = recv_step ack s in if ret then s1 else recv_loop n ack1 s1
      else s)"

definition libdrbcc_receive :: "DRBCC_t \<Rightarrow> DRBCC_t" where
  "libdrbcc_receive s =
     (let s1 = fill_buffer s in recv_loop (bufend s1 - bufstart s1) (cmd DRBCC_ACK) s1)"

section \<open>The driver\<close>

definition trigger_send :: "DRBCC_t \<Rightarrow> DRBCC_t" where
  "trigger_send s =
     (if \<not> wait_for_ack s \<and> prioQueue s \<noteq> []
      then let (rc, m, s1) = libdrbcc_send_message (hd (prioQueue s)) (s\<lparr>prioQueue := tl (prioQueue s)\<rparr>)
           in s1\<lparr>repeatMsg := Some m, wait_for_ack := True\<rparr>
      else if \<not> wait_for_ack s \<and> \<not> wait_for_answer s \<and> secQueue s \<noteq> []
      then let (rc, m, s1) = libdrbcc_send_message (hd (secQueue s)) (s\<lparr>secQueue := tl (secQueue s)\<rparr>)
           in s1\<lparr>repeatMsg := Some m, wait_for_ack := True, wait_for_answer := True\<rparr>
      else s)"

definition trigger_repeat :: "timeval \<Rightarrow> DRBCC_t \<Rightarrow> DRBCC_t" where
  "trigger_repeat now s =
     (if repeatCount s < 25
      then (case repeatMsg s of
              None \<Rightarrow> s
            | Some m \<Rightarrow>
                let s1 = call_error_cb ''REPEAT sending msg cause ACK timeout'' s;
                    (rc, m1, s2) = libdrbcc_send_message m s1
                in s2\<lparr>repeatMsg := Some m1, resend := timeradd now (ackTimeout s2),
                      repeatCount := repeatCount s2 + 1\<rparr>)
      else release_repeat (close_session True
             (call_error_cb ''ERROR: Sending failed after repeat counter reached maximum'' s)))"

definition trigger_timeouts :: "DRBCC_t \<Rightarrow> DRBCC_t" where
  "trigger_timeouts s =
     (let (now, s1) = drbcc_gettimeofday s;
          s2 = (if wait_for_answer s1 \<and> sendnext s1 < now then s1\<lparr>wait_for_answer := False\<rparr> else s1)
      in if wait_for_ack s2 \<and> resend s2 < now then trigger_repeat now s2 else s2)"

definition trigger_round :: "DRBCC_t \<Rightarrow> DRBCC_t" where
  "trigger_round s = trigger_timeouts (trigger_send (libdrbcc_receive s))"

definition trigger_idle :: "DRBCC_t \<Rightarrow> bool" where
  "trigger_idle s \<longleftrightarrow> \<not> wait_for_ack s \<and> \<not> wait_for_answer s \<and> secQueue s = [] \<and> prioQueue s = []"

partial_function (option) trigger_loop :: "int \<Rightarrow> DRBCC_t \<Rightarrow> DRBCC_t option" where
  "trigger_loop i s =
     (if i = 0 then Some s
      else let s1 = trigger_round s in if trigger_idle s1 then Some s1 else trigger_loop (i - 1) s1)"

definition drbcc_trigger :: "int \<Rightarrow> DRBCC_t \<Rightarrow> (DRBCC_RC_t \<times> DRBCC_t) option" where
  "drbcc_trigger maxLoops s =
     (case CHECK_HANDLE s of
        Some e \<Rightarrow> Some (e, s)
      | None \<Rightarrow> map_option (Pair DRBCC_RC_NOERROR) (trigger_loop maxLoops s))"

end
