(* ===== verification/Link_Receive.thy ===== *)
theory Link_Receive
  imports Link "HOL-Library.Sublist"
begin

text \<open>
  The receiver undoes what the sender does: however the bytes of a frame are cut into
  chunks by the serial line, the message that reaches \<^const>\<open>recv_frame\<close> is the one that
  was framed, with a checksum that fits, and a frame with one changed byte is dropped.
\<close>

section \<open>Bytes inside of a frame\<close>

text \<open>Every byte but a stop byte changes the receiver in a simple way.\<close>

definition scan :: "u8 \<Rightarrow> DRBCC_t \<Rightarrow> DRBCC_t" where
  "scan b s =
     (if b = DRBCC_ESC_CHAR then s\<lparr>escaped := True\<rparr>
      else if escaped s then recv_data (NOT b) (s\<lparr>escaped := False\<rparr>)
      else if b = DRBCC_START_CHAR
      then s\<lparr>cur_msg := (cur_msg s)\<lparr>msg_len := 0\<rparr>, crc := 0xffff, wait_for_stop_char := True\<rparr>
      else recv_data b s)"

lemma recv_char_scan: "b \<noteq> DRBCC_STOP_CHAR \<Longrightarrow> recv_char b ack s = (False, ack, scan b s)"
  by (simp add: recv_char_def scan_def)

text \<open>The buffer of the receiver: \<open>pending\<close> is what it has not looked at yet.\<close>

definition pending :: "DRBCC_t \<Rightarrow> bytes" where
  "pending s = drop (bufstart s) (take (bufend s) (readbuf s))"

definition set_line :: "bytes \<Rightarrow> nat \<Rightarrow> nat \<Rightarrow> bytes list \<Rightarrow> DRBCC_t \<Rightarrow> DRBCC_t" where
  "set_line rb i j cs s = s\<lparr>readbuf := rb, bufstart := i, bufend := j, rx := cs\<rparr>"

lemma set_line_set_line [simp]: "set_line rb i j cs (set_line rb' i' j' cs' s) = set_line rb i j cs s"
  by (simp add: set_line_def)

lemma set_line_fields [simp]:
  "readbuf (set_line rb i j cs s) = rb" "bufstart (set_line rb i j cs s) = i"
  "bufend (set_line rb i j cs s) = j" "rx (set_line rb i j cs s) = cs"
  "escaped (set_line rb i j cs s) = escaped s" "cur_msg (set_line rb i j cs s) = cur_msg s"
  "crc (set_line rb i j cs s) = crc s" "wait_for_stop_char (set_line rb i j cs s) = wait_for_stop_char s"
  by (simp_all add: set_line_def)

lemma set_line_self: "set_line (readbuf s) (bufstart s) (bufend s) (rx s) s = s"
  by (simp add: set_line_def)

lemma scan_set_line: "scan b (set_line rb i j cs s) = set_line rb i j cs (scan b s)"
  by (simp add: scan_def set_line_def recv_data_def Let_def)

lemma fold_scan_set_line: "fold scan bs (set_line rb i j cs s) = set_line rb i j cs (fold scan bs s)"
  by (induction bs arbitrary: s) (simp_all add: scan_set_line)

lemma pending_nonempty:
  assumes "pending s = b # bs"
  shows "bufstart s < bufend s" "bufstart s < length (readbuf s)" "readbuf s ! bufstart s = b"
    "drop (Suc (bufstart s)) (take (bufend s) (readbuf s)) = bs"
proof -
  let ?l = "take (bufend s) (readbuf s)"
  have l: "bufstart s < length ?l" using assms by (auto simp: pending_def not_le [symmetric])
  then show "bufstart s < bufend s" "bufstart s < length (readbuf s)" by simp_all
  from l have "drop (bufstart s) ?l = ?l ! bufstart s # drop (Suc (bufstart s)) ?l"
    by (rule Cons_nth_drop_Suc [symmetric])
  with assms l show "readbuf s ! bufstart s = b" "drop (Suc (bufstart s)) ?l = bs"
    by (simp_all add: pending_def)
qed

lemma recv_loop_scan:
  assumes "pending s = p @ q" and "DRBCC_STOP_CHAR \<notin> set p"
  shows "recv_loop (length p + k) ack s =
    recv_loop k ack (set_line (readbuf s) (bufstart s + length p) (bufend s) (rx s) (fold scan p s))"
  using assms
proof (induction p arbitrary: s)
  case Nil
  then show ?case by (simp add: set_line_self)
next
  case (Cons b p)
  let ?s1 = "set_line (readbuf s) (Suc (bufstart s)) (bufend s) (rx s) s"
  have b: "b \<noteq> DRBCC_STOP_CHAR" using Cons.prems(2) by auto
  have p: "pending s = b # (p @ q)" using Cons.prems(1) by simp
  note n = pending_nonempty [OF p]
  have "recv_step ack s = recv_char b ack (s\<lparr>bufstart := bufstart s + 1\<rparr>)"
    using n by (simp add: recv_step_def)
  also have "s\<lparr>bufstart := bufstart s + 1\<rparr> = ?s1" by (simp add: set_line_def)
  finally have step: "recv_step ack s = (False, ack, scan b ?s1)" by (simp add: recv_char_scan b)
  have sc: "scan b ?s1 = set_line (readbuf s) (Suc (bufstart s)) (bufend s) (rx s) (scan b s)"
    by (rule scan_set_line)
  have "pending (scan b ?s1) = p @ q" using n(4) by (simp add: sc pending_def)
  from Cons.IH [OF this] Cons.prems(2) n(1) show ?case
    by (simp add: step) (simp add: sc fold_scan_set_line)
qed

section \<open>Collecting a frame\<close>

text \<open>The receiver after the data bytes \<open>bs\<close> of a frame.\<close>

definition collected :: "bytes \<Rightarrow> DRBCC_t \<Rightarrow> DRBCC_t" where
  "collected bs s = s\<lparr>crc := crc_ccitt bs, wait_for_stop_char := True,
     cur_msg := \<lparr>msg_len = of_nat (length bs), msg = overwrite bs (msg (cur_msg s))\<rparr>\<rparr>"

lemma scan_esc:
  assumes "\<not> escaped s"
  shows "fold scan (esc b) s = recv_data b s"
proof (cases "b \<in> {DRBCC_START_CHAR, DRBCC_STOP_CHAR, DRBCC_ESC_CHAR}")
  case True
  have "s\<lparr>escaped := False\<rparr> = s" using assms by simp
  with True show ?thesis by (auto simp: esc_def scan_def)
next
  case False
  with assms show ?thesis by (simp add: esc_def scan_def)
qed

lemma escaped_recv_data [simp]: "escaped (recv_data b s) = escaped s"
  by (simp add: recv_data_def Let_def)

lemma fold_scan_esc: "\<not> escaped s \<Longrightarrow> fold scan (concat (map esc bs)) s = fold recv_data bs s"
  by (induction bs arbitrary: s) (simp_all add: scan_esc)

lemma recv_data_collected:
  assumes "length bs < length (msg (cur_msg s))" and "length (msg (cur_msg s)) \<le> 255"
  shows "recv_data b (collected bs s) = collected (bs @ [b]) s"
proof -
  have n: "unat (of_nat (length bs) :: u8) = length bs" using assms by (simp add: unat_of_nat)
  have "(overwrite bs (msg (cur_msg s)))[length bs := b] = overwrite (bs @ [b]) (msg (cur_msg s))"
    using Cons_nth_drop_Suc [OF assms(1)] by (simp add: overwrite_def list_update_append) (metis list_update_code(2))
  with assms n show ?thesis
    by (simp add: recv_data_def collected_def crc_ccitt_def Let_def)
qed

lemma fold_recv_data_collected:
  assumes "length as + length bs \<le> length (msg (cur_msg s))" and "length (msg (cur_msg s)) \<le> 255"
  shows "fold recv_data bs (collected as s) = collected (as @ bs) s"
  using assms
proof (induction bs arbitrary: as)
  case (Cons b bs)
  from Cons.IH [of "as @ [b]"] Cons.prems show ?case by (simp add: recv_data_collected)
qed simp

lemma crc_ccitt_with_crc: "crc_ccitt (with_crc bs) = 0"
  using ccitt.residue_append_iff [of "0xffff" bs] by (simp add: crc_ccitt_def with_crc_def)

text \<open>A frame around arbitrary data, and the same without its stop byte.\<close>

definition open_frame :: "bytes \<Rightarrow> bytes" where
  "open_frame d = DRBCC_START_CHAR # concat (map esc d)"

definition raw_frame :: "bytes \<Rightarrow> bytes" where
  "raw_frame d = open_frame d @ [DRBCC_STOP_CHAR]"

lemma frame_raw_frame: "frame bs = raw_frame (with_crc bs)"
  by (simp add: frame_def raw_frame_def open_frame_def)

lemma STOP_notin_frame: "DRBCC_STOP_CHAR \<notin> set (open_frame d)"
proof -
  have "DRBCC_STOP_CHAR \<notin> set (esc b)" for b by (auto simp: esc_def)
  then show ?thesis by (simp add: open_frame_def)
qed

lemma fold_scan_frame:
  assumes "\<not> escaped s" and "length d \<le> length (msg (cur_msg s))"
    and "length (msg (cur_msg s)) \<le> 255"
  shows "fold scan (open_frame d) s = collected d s"
proof -
  have "scan DRBCC_START_CHAR s = collected [] s"
    using assms(1) by (simp add: scan_def collected_def crc_ccitt_def overwrite_def)
  moreover have "\<not> escaped (collected [] s)" using assms(1) by (simp add: collected_def)
  ultimately have "fold scan (open_frame d) s = fold recv_data d (collected [] s)"
    by (simp add: open_frame_def fold_scan_esc)
  also have "\<dots> = collected d s"
    using fold_recv_data_collected [of "[]" d s] assms(2,3) by simp
  finally show ?thesis .
qed

section \<open>Receiving chunks\<close>

lemma fill_buffer_chunk:
  assumes "bufend s = bufstart s" and "rx s = c # cs" and "length c \<le> length (readbuf s)"
  shows "fill_buffer s = set_line (overwrite c (readbuf s)) 0 (length c) cs s"
  using assms by (simp add: fill_buffer_def tty_read_def set_line_def)

lemma receive_chunk:
  assumes "bufend s = bufstart s" and "rx s = c # cs" and "length c \<le> length (readbuf s)"
    and "DRBCC_STOP_CHAR \<notin> set c"
  shows "libdrbcc_receive s =
    set_line (overwrite c (readbuf s)) (length c) (length c) cs (fold scan c s)"
proof -
  let ?s = "set_line (overwrite c (readbuf s)) 0 (length c) cs s"
  have "pending ?s = c @ []" by (simp add: pending_def)
  from recv_loop_scan [OF this assms(4), of 0] show ?thesis
    by (simp add: libdrbcc_receive_def fill_buffer_chunk assms Let_def fold_scan_set_line)
qed

lemma receive_last_chunk:
  assumes "bufend s = bufstart s" and "rx s = (c @ [DRBCC_STOP_CHAR]) # cs"
    and "length c < length (readbuf s)" and "DRBCC_STOP_CHAR \<notin> set c" and "\<not> escaped (fold scan c s)"
  shows "libdrbcc_receive s = snd (snd (recv_stop (cmd DRBCC_ACK)
    (set_line (overwrite (c @ [DRBCC_STOP_CHAR]) (readbuf s)) (Suc (length c)) (Suc (length c)) cs
      (fold scan c s))))"
proof -
  let ?b = "overwrite (c @ [DRBCC_STOP_CHAR]) (readbuf s)"
  let ?s = "set_line ?b 0 (Suc (length c)) cs s"
  let ?t = "set_line ?b (length c) (Suc (length c)) cs (fold scan c s)"
  have f: "fill_buffer s = ?s"
    using fill_buffer_chunk [OF assms(1,2)] assms(3) by simp
  have "take (Suc (length c)) ?b = c @ [DRBCC_STOP_CHAR]" by (simp add: overwrite_def)
  then have "pending ?s = c @ [DRBCC_STOP_CHAR]" "pending ?t = [DRBCC_STOP_CHAR]"
    by (simp_all add: pending_def)
  note p = recv_loop_scan [OF this(1) assms(4), of 1] pending_nonempty [OF this(2)]
  have "?t\<lparr>bufstart := bufstart ?t + 1\<rparr> = set_line ?b (Suc (length c)) (Suc (length c)) cs (fold scan c s)"
    by (simp add: set_line_def)
  then have "recv_step a ?t = recv_stop a (set_line ?b (Suc (length c)) (Suc (length c)) cs (fold scan c s))" for a
    using p(3) p(4) assms(5) by (simp only: recv_step_def recv_char_def Let_def) simp
  then show ?thesis
    using p(1) by (simp add: libdrbcc_receive_def f Let_def fold_scan_set_line split: prod.splits)
qed

lemma receive_chunks:
  assumes "bufend s = bufstart s" and "rx s = cs @ later" and "\<forall>c\<in>set cs. length c \<le> length (readbuf s)"
    and "DRBCC_STOP_CHAR \<notin> set (concat cs)"
  shows "\<exists>rb k. length rb = length (readbuf s) \<and>
    (libdrbcc_receive ^^ length cs) s = set_line rb k k later (fold scan (concat cs) s)"
  using assms
proof (induction cs arbitrary: s)
  case Nil
  then show ?case by (metis append_Nil concat.simps(1) fold_simps(1) funpow_0 list.size(3) set_line_self)
next
  case (Cons c cs)
  let ?t = "set_line (overwrite c (readbuf s)) (length c) (length c) (cs @ later) (fold scan c s)"
  have t: "libdrbcc_receive s = ?t"
    using Cons.prems by (intro receive_chunk) auto
  have "length (readbuf ?t) = length (readbuf s)" using Cons.prems(3) by simp
  moreover from this obtain rb k where "length rb = length (readbuf ?t)"
    "(libdrbcc_receive ^^ length cs) ?t = set_line rb k k later (fold scan (concat cs) ?t)"
    using Cons.IH [of ?t] Cons.prems by auto
  ultimately show ?case
    by (intro exI [of _ rb] exI [of _ k])
      (simp add: funpow_Suc_right t fold_scan_set_line del: funpow.simps)
qed

lemma receive_raw_frame:
  assumes "bufend s = bufstart s" and "rx s = cs @ later" and "\<forall>c\<in>set cs. length c \<le> length (readbuf s)"
    and "concat cs = raw_frame d" and "cs \<noteq> []" "last cs \<noteq> []"
    and "\<not> escaped s" and "length d \<le> length (msg (cur_msg s))" "length (msg (cur_msg s)) \<le> 255"
  shows "\<exists>rb k. length rb = length (readbuf s) \<and> (libdrbcc_receive ^^ length cs) s =
    snd (snd (recv_stop (cmd DRBCC_ACK) (set_line rb k k later (collected d s))))"
proof -
  obtain ds e where cs: "cs = ds @ [e]" using assms(5) by (cases cs rule: rev_cases) auto
  obtain c z where e: "e = c @ [z]" using assms(6) cs by (cases e rule: rev_cases) auto
  have d: "open_frame d = concat ds @ c" and z: "z = DRBCC_STOP_CHAR"
    using assms(4) by (auto simp: cs e raw_frame_def)
  have stop: "DRBCC_STOP_CHAR \<notin> set (concat ds)" "DRBCC_STOP_CHAR \<notin> set c"
    using STOP_notin_frame [of d] by (auto simp: d)
  obtain rb k where r: "length rb = length (readbuf s)"
    "(libdrbcc_receive ^^ length ds) s = set_line rb k k (e # later) (fold scan (concat ds) s)" (is "_ = ?t")
    using receive_chunks [of s ds "e # later"] assms(1-3) stop(1) by (auto simp: cs)
  have sc: "fold scan c (fold scan (concat ds) s) = collected d s"
    using fold_scan_frame [OF assms(7-9)] by (simp add: d)
  have "libdrbcc_receive ?t = snd (snd (recv_stop (cmd DRBCC_ACK)
      (set_line (overwrite e rb) (length e) (length e) later (collected d s))))"
    using receive_last_chunk [of ?t c later] assms(3,7) r(1) stop(2) sc
    by (simp add: e z cs fold_scan_set_line) (simp add: collected_def set_line_def)
  moreover have "(libdrbcc_receive ^^ length cs) s = libdrbcc_receive ?t"
    using r(2) by (simp add: cs)
  moreover have "length (overwrite e rb) = length (readbuf s)" using assms(3) r(1) by (simp add: cs)
  ultimately show ?thesis by metis
qed

section \<open>Delivery\<close>

text \<open>The receiver when the stop byte of a frame around \<open>bs\<close> was seen.\<close>

definition received :: "bytes \<Rightarrow> DRBCC_t \<Rightarrow> DRBCC_t" where
  "received bs s = s\<lparr>crc := 0, wait_for_stop_char := False,
     cur_msg := \<lparr>msg_len = of_nat (length bs + 2), msg = overwrite (with_crc bs) (msg (cur_msg s))\<rparr>\<rparr>"

definition receiver_idle :: "DRBCC_t \<Rightarrow> bool" where
  "receiver_idle s \<longleftrightarrow> bufend s = bufstart s \<and> \<not> escaped s \<and> length (readbuf s) = DRBCC_MAX_PAYLOAD \<and>
     length (msg (cur_msg s)) = DRBCC_MAX_PAYLOAD"

text \<open>The serial line will deliver \<open>bytes\<close>, cut into chunks that fit in the read buffer.\<close>

definition arrives :: "bytes list \<Rightarrow> bytes \<Rightarrow> DRBCC_t \<Rightarrow> bool" where
  "arrives cs bytes s \<longleftrightarrow> prefix cs (rx s) \<and> concat cs = bytes \<and> cs \<noteq> [] \<and> last cs \<noteq> [] \<and>
     (\<forall>c\<in>set cs. length c \<le> DRBCC_MAX_PAYLOAD)"

lemma receive_arrives:
  assumes "receiver_idle s" and "arrives cs (raw_frame d) s" and "length d \<le> DRBCC_MAX_PAYLOAD"
  shows "\<exists>rb k. length rb = DRBCC_MAX_PAYLOAD \<and> (libdrbcc_receive ^^ length cs) s =
    snd (snd (recv_stop (cmd DRBCC_ACK) (set_line rb k k (drop (length cs) (rx s)) (collected d s))))"
proof -
  obtain later where "rx s = cs @ later" using assms(2) by (auto simp: arrives_def prefix_def)
  with receive_raw_frame [of s cs later d] assms show ?thesis
    by (simp add: receiver_idle_def arrives_def)
qed

lemma recv_stop_collected:
  assumes "length d = n" "3 \<le> n" "n \<le> DRBCC_MAX_PAYLOAD"
  shows "recv_stop ack (set_line rb k j cs (collected d s)) =
    (if crc_ccitt d = 0
     then recv_frame ack (set_line rb k j cs ((collected d s)\<lparr>wait_for_stop_char := False\<rparr>))
     else (True, ack, set_line rb k j cs ((collected d s)\<lparr>wait_for_stop_char := False\<rparr>)))"
proof -
  have "unat (of_nat n :: u8) = n" using assms(3) by (simp add: unat_of_nat)
  then have "\<not> (of_nat n :: u8) < 3" using assms(2) by (simp add: word_less_nat_alt)
  moreover have "(set_line rb k j cs (collected d s))\<lparr>wait_for_stop_char := False\<rparr> =
      set_line rb k j cs ((collected d s)\<lparr>wait_for_stop_char := False\<rparr>)"
    by (simp add: set_line_def)
  ultimately show ?thesis using assms(1)
    by (simp add: recv_stop_def Let_def) (simp add: collected_def)
qed

lemma receive_frame:
  assumes "receiver_idle s" and "arrives cs (frame bs) s" and "bs \<noteq> []" and "length bs \<le> 143"
  shows "\<exists>rb k. length rb = DRBCC_MAX_PAYLOAD \<and> (libdrbcc_receive ^^ length cs) s =
    snd (snd (recv_frame (cmd DRBCC_ACK) (received bs (set_line rb k k (drop (length cs) (rx s)) s))))"
proof -
  let ?d = "with_crc bs"
  have l: "length ?d = length bs + 2" by (simp add: with_crc_def)
  obtain rb k where "length rb = DRBCC_MAX_PAYLOAD" "(libdrbcc_receive ^^ length cs) s =
      snd (snd (recv_stop (cmd DRBCC_ACK) (set_line rb k k (drop (length cs) (rx s)) (collected ?d s))))"
    using receive_arrives [of s cs ?d] assms l by (auto simp: frame_raw_frame)
  moreover have "set_line rb k k r ((collected ?d s)\<lparr>wait_for_stop_char := False\<rparr>) =
      received bs (set_line rb k k r s)" for r
    by (simp add: set_line_def collected_def received_def crc_ccitt_with_crc l)
  moreover have "3 \<le> length bs + 2" using assms(3) by (cases bs) auto
  ultimately show ?thesis
    using recv_stop_collected [OF l] assms(4) by (auto simp: crc_ccitt_with_crc)
qed

text \<open>C26. Messages get through: when a frame of a message of 1 to 143 bytes arrives at an idle
  receiver, in whatever chunks, then as many reads as there are chunks hand exactly this
  message, with its length and a checksum that is right, to \<^const>\<open>recv_frame\<close>. Nothing else
  of the handle has changed but the read buffer.\<close>

theorem link_delivers:
  assumes "receiver_idle s" and "arrives cs (frame bs) s" and "bs \<noteq> []" and "length bs \<le> 143"
  shows "\<exists>rb k. length rb = DRBCC_MAX_PAYLOAD \<and> (libdrbcc_receive ^^ length cs) s =
    snd (snd (recv_frame (cmd DRBCC_ACK) (received bs (set_line rb k k (drop (length cs) (rx s)) s))))"
  using assms by (rule receive_frame)


theorem link_delivers_witness:
  "\<exists>rb k. (libdrbcc_receive ^^ 1) (zero_handle\<lparr>rx := [frame [0x85, 0xFB, 7]]\<rparr>) =
     snd (snd (recv_frame (cmd DRBCC_ACK)
       (received [0x85, 0xFB, 7] (set_line rb k k [] (zero_handle\<lparr>rx := [frame [0x85, 0xFB, 7]]\<rparr>)))))"
proof -
  let ?s = "zero_handle\<lparr>rx := [frame [0x85, 0xFB, 7]]\<rparr>"
  have "receiver_idle ?s" by (simp add: receiver_idle_def zero_handle_def zero_msg_def)
  moreover have "arrives [frame [0x85, 0xFB, 7]] (frame [0x85, 0xFB, 7]) ?s"
    using length_frame [of "[0x85, 0xFB, 7]"] by (simp add: arrives_def frame_def)
  ultimately show ?thesis using link_delivers [of ?s "[frame [0x85, 0xFB, 7]]" "[0x85, 0xFB, 7]"] by auto
qed

lemma length_raw_frame: "length (raw_frame d) \<le> 2 * length d + 2"
  using length_concat_esc [of d] by (simp add: raw_frame_def open_frame_def)


text \<open>C28. The receiver does not bound the length of a message: 146 data bytes after a start
  byte are enough to make it write behind the end of \<^verbatim>\<open>cur_msg.msg\<close>.\<close>

theorem long_frame_overflows:
  assumes "receiver_idle s" and "length d = 146" and "arrives cs (open_frame d) s"
  shows "fault ((libdrbcc_receive ^^ length cs) s)"
proof -
  obtain later where rx: "rx s = cs @ later" using assms(3) by (auto simp: arrives_def prefix_def)
  have l: "length (msg (cur_msg s)) = 145" and e: "\<not> escaped s"
    using assms(1) by (simp_all add: receiver_idle_def)
  obtain d1 b where d: "d = d1 @ [b]" "length d1 = 145" using assms(2) by (cases d rule: rev_cases) auto
  have "unat (145 :: u8) = 145" by simp
  then have "fault (recv_data b (collected d1 s))"
    by (simp add: recv_data_def collected_def d(2) l Let_def)
  moreover have "fold scan (open_frame d) s = recv_data b (collected d1 s)"
  proof -
    have "\<not> escaped (collected d1 s)" using e by (simp add: collected_def)
    moreover have "open_frame d = open_frame d1 @ esc b" by (simp add: open_frame_def d(1))
    ultimately show ?thesis using fold_scan_frame [OF e, of d1] l d(2) scan_esc by simp
  qed
  moreover have "\<exists>rb k. (libdrbcc_receive ^^ length cs) s = set_line rb k k later (fold scan (open_frame d) s)"
  proof -
    have "concat cs = open_frame d" using assms(3) by (simp add: arrives_def)
    then have "DRBCC_STOP_CHAR \<notin> set (concat cs)" using STOP_notin_frame [of d] by simp
    then have "\<forall>c\<in>set cs. DRBCC_STOP_CHAR \<notin> set c" by auto
    then show ?thesis
      using receive_chunks [of s cs later] rx assms by (auto simp: arrives_def receiver_idle_def)
  qed
  ultimately show ?thesis by (auto simp: set_line_def)
qed

theorem long_frame_overflows_witness:
  "fault ((libdrbcc_receive ^^ 2)
     (zero_handle\<lparr>rx := [DRBCC_START_CHAR # replicate 100 0, replicate 46 0]\<rparr>))"
proof -
  let ?cs = "[DRBCC_START_CHAR # replicate 100 0, replicate 46 0]"
  have "concat (map esc (replicate n 0)) = replicate n 0" for n
    by (induction n) (simp_all add: esc_def)
  then have "arrives ?cs (open_frame (replicate 146 0)) (zero_handle\<lparr>rx := ?cs\<rparr>)"
    by (simp add: arrives_def open_frame_def flip: replicate_add)
  moreover have "receiver_idle (zero_handle\<lparr>rx := ?cs\<rparr>)"
    by (simp add: receiver_idle_def zero_handle_def zero_msg_def)
  ultimately show ?thesis using long_frame_overflows [of _ "replicate 146 0" ?cs] by (simp add: numeral_2_eq_2)
qed

end
