(* ===== verification/Link_Inv.thy ===== *)
theory Link_Inv
  imports Link
begin

text \<open>
  The invariant of the link: the buffers keep their sizes, a message is outstanding exactly
  while an acknowledgement is awaited, and the queued and the outstanding messages fit into a
  frame. Every step of the receiver and of \<^verbatim>\<open>drbcc_trigger\<close> keeps it, and it gives the
  properties of the stop-and-wait protocol: at most one message in flight, a bounded number of
  repetitions, one processing per message of the peer.
\<close>

section \<open>The invariant\<close>

definition link_inv :: "DRBCC_t \<Rightarrow> bool" where
  "link_inv s \<longleftrightarrow> msgs_ok s \<and> writepos s = 0 \<and> length (writebuf s) = 2 * DRBCC_MAX_PAYLOAD \<and>
     length (readbuf s) = DRBCC_MAX_PAYLOAD \<and> bufstart s \<le> bufend s \<and> bufend s \<le> DRBCC_MAX_PAYLOAD \<and>
     (wait_for_ack s \<longleftrightarrow> repeatMsg s \<noteq> None) \<and> pred_option good_msg (repeatMsg s) \<and>
     repeatCount s \<le> 25 \<and> (repeatMsg s = None \<longrightarrow> repeatCount s = 0)"

lemma link_inv_update [simp]:
  "link_inv (s\<lparr>send_toggle := t\<rparr>) = link_inv s"
  "link_inv (s\<lparr>expected_recv_toggle := t\<rparr>) = link_inv s"
  "link_inv (s\<lparr>escaped := b\<rparr>) = link_inv s"
  "link_inv (s\<lparr>wait_for_answer := b\<rparr>) = link_inv s"
  "link_inv (s\<lparr>wait_for_stop_char := b\<rparr>) = link_inv s"
  "link_inv (s\<lparr>wait_for_first_sync_ack := b\<rparr>) = link_inv s"
  "link_inv (s\<lparr>sync_mode := b\<rparr>) = link_inv s"
  "link_inv (s\<lparr>session := i\<rparr>) = link_inv s"
  "link_inv (s\<lparr>crc := c\<rparr>) = link_inv s"
  "link_inv (s\<lparr>ackTimeout := tv\<rparr>) = link_inv s"
  "link_inv (s\<lparr>resend := tv\<rparr>) = link_inv s"
  "link_inv (s\<lparr>sendnext := tv\<rparr>) = link_inv s"
  "link_inv (s\<lparr>state := st\<rparr>) = link_inv s"
  "link_inv (s\<lparr>ticks := n\<rparr>) = link_inv s"
  "link_inv (s\<lparr>ios := n\<rparr>) = link_inv s"
  "link_inv (s\<lparr>rx := cs\<rparr>) = link_inv s"
  "link_inv (s\<lparr>tx := cs\<rparr>) = link_inv s"
  "link_inv (s\<lparr>events := es\<rparr>) = link_inv s"
  "link_inv (s\<lparr>fault := b\<rparr>) = link_inv s"
  by (simp_all add: link_inv_def)

lemma link_inv_basic [simp]:
  "link_inv (call_cb c e s) = link_inv s"
  "link_inv (call_error_cb t s) = link_inv s"
  "link_inv (close_session ok s) = link_inv s"
  by (simp_all add: call_cb_def call_error_cb_def close_session_def)

lemma report_fields [simp]:
  "repeatMsg (call_error_cb t s) = repeatMsg s" "repeatMsg (close_session ok s) = repeatMsg s"
  "repeatCount (call_error_cb t s) = repeatCount s" "wait_for_ack (call_error_cb t s) = wait_for_ack s"
  "send_toggle (call_error_cb t s) = send_toggle s" "send_toggle (close_session ok s) = send_toggle s"
  "tx (call_error_cb t s) = tx s" "tx (close_session ok s) = tx s"
  "ticks (call_error_cb t s) = ticks s" "ticks (close_session ok s) = ticks s"
  "clock (call_error_cb t s) = clock s" "clock (close_session ok s) = clock s"
  "bufstart (call_error_cb t s) = bufstart s" "bufend (call_error_cb t s) = bufend s"
  "rx (call_error_cb t s) = rx s" "rx (close_session ok s) = rx s"
  "nextTimeout (call_error_cb t s) = nextTimeout s" "nextTimeout (close_session ok s) = nextTimeout s"
  "resend (call_error_cb t s) = resend s" "resend (close_session ok s) = resend s"
  "sendnext (call_error_cb t s) = sendnext s" "sendnext (close_session ok s) = sendnext s"
  "prioQueue (call_error_cb t s) = prioQueue s" "prioQueue (close_session ok s) = prioQueue s"
  "secQueue (call_error_cb t s) = secQueue s" "secQueue (close_session ok s) = secQueue s"
  "wait_for_answer (call_error_cb t s) = wait_for_answer s" "wait_for_answer (close_session ok s) = wait_for_answer s"
  "bufstart (close_session ok s) = bufstart s" "bufend (close_session ok s) = bufend s"
  "ackTimeout (call_error_cb t s) = ackTimeout s" "ackTimeout (close_session ok s) = ackTimeout s"
  by (simp_all add: call_cb_def call_error_cb_def close_session_def)

lemma link_inv_release_repeat [simp]: "link_inv s \<Longrightarrow> link_inv (release_repeat s)"
  by (simp add: link_inv_def release_repeat_def)

lemma link_inv_set_msg:
  "link_inv s \<Longrightarrow> length (msg m) = DRBCC_MAX_PAYLOAD \<Longrightarrow> link_inv (s\<lparr>cur_msg := m\<rparr>)"
  by (simp add: link_inv_def msgs_ok_def)

lemma link_inv_length_cur_msg: "link_inv s \<Longrightarrow> length (msg (cur_msg s)) = DRBCC_MAX_PAYLOAD"
  by (simp add: link_inv_def msgs_ok_def)

lemma link_inv_transmit:
  "link_inv s \<Longrightarrow> length wb = length (writebuf s) \<Longrightarrow> link_inv (transmit wb bs s)"
  by (simp add: link_inv_def transmit_def)

lemma link_inv_arm_timers [simp]: "link_inv (arm_timers s) = link_inv s"
  by (simp add: arm_timers_def)

section \<open>Sending\<close>

text \<open>What a transmission leaves as it was.\<close>

definition same_protocol :: "DRBCC_t \<Rightarrow> DRBCC_t \<Rightarrow> bool" where
  "same_protocol s t \<longleftrightarrow> repeatMsg t = repeatMsg s \<and> repeatCount t = repeatCount s \<and>
     wait_for_ack t = wait_for_ack s \<and> wait_for_answer t = wait_for_answer s \<and>
     prioQueue t = prioQueue s \<and> secQueue t = secQueue s \<and> cur_msg t = cur_msg s \<and>
     sync_mode t = sync_mode s \<and> fault t = fault s \<and> events t = events s \<and> session t = session s \<and>
     clock t = clock s \<and> ackTimeout t = ackTimeout s \<and> cbs t = cbs s \<and>
     nextTimeout t = nextTimeout s \<and> rx t = rx s \<and> bufstart t = bufstart s \<and> bufend t = bufend s \<and> ticks s \<le> ticks t"

lemma same_protocol_trans: "same_protocol s t \<Longrightarrow> same_protocol t u \<Longrightarrow> same_protocol s u"
  by (simp add: same_protocol_def)

lemma send_message_inv:
  assumes inv: "link_inv s" and m: "good_msg m" and snd: "libdrbcc_send_message m s = (rc, m', t)"
  shows "link_inv t" and "good_msg m'" and "same_protocol s t" and "m' = fst (stamp_toggle m s)"
    and "send_toggle t = send_toggle (snd (stamp_toggle m s))"
    and "\<exists>k. tx t = tx s @ [take k (frame (payload m'))]"
    and "(resend t, sendnext t, ticks t) = (resend s, sendnext s, ticks s) \<or>
      (resend t, sendnext t, ticks t) = (timeradd (clock s (ticks s)) (ackTimeout s),
        timeradd (clock s (ticks s)) (nextTimeout s), Suc (ticks s))"
proof -
  obtain m1 s1 where st: "stamp_toggle m s = (m1, s1)" by fastforce
  have buf: "writepos s = 0" "length (writebuf s) = 2 * DRBCC_MAX_PAYLOAD"
    using inv by (simp_all add: link_inv_def)
  obtain rc' wb where wb: "length wb = length (writebuf s)" and
    eq: "libdrbcc_send_message m s = (rc', m1,
      (if cmd_bits (msg m1 ! 0) \<noteq> cmd DRBCC_ACK then arm_timers else id)
        (transmit wb (frame (payload m1)) s1))"
    using send_message_eq [OF _ _ buf st] m by (auto simp: good_msg_def)
  let ?F = "frame (payload m1)"
  have t: "m' = m1" "t = arm_timers (transmit wb ?F s1) \<or> t = transmit wb ?F s1"
    using snd eq by (auto split: if_splits)
  have "s1 = s \<or> s1 = s\<lparr>send_toggle := -1, expected_recv_toggle := 0\<rparr>"
    using stamp_toggle_cases [of m s] st by simp
  then have s1: "link_inv s1" "length wb = length (writebuf s1)" "same_protocol s s1" "tx s1 = tx s"
    "resend s1 = resend s" "sendnext s1 = sendnext s" "ticks s1 = ticks s"
    using inv wb by (auto simp: same_protocol_def)
  show "link_inv t" using t s1(1,2) link_inv_transmit by auto
  show "good_msg m'"
    using m t(1) wf_stamp_toggle [of m s] msg_len_stamp_toggle [of m s] st by (simp add: good_msg_def)
  have "same_protocol u (arm_timers u)" "same_protocol u (transmit wb bs u)" for u bs
    by (simp_all add: same_protocol_def arm_timers_def transmit_def)
  then show "same_protocol s t" using t s1(3) same_protocol_trans by blast
  show "m' = fst (stamp_toggle m s)" using t st by simp
  show "send_toggle t = send_toggle (snd (stamp_toggle m s))"
    using t st by (auto simp: arm_timers_def transmit_def)
  show "\<exists>k. tx t = tx s @ [take k (frame (payload m'))]"
    using t s1(4) by (auto simp: arm_timers_def transmit_def)
  show "(resend t, sendnext t, ticks t) = (resend s, sendnext s, ticks s) \<or>
      (resend t, sendnext t, ticks t) = (timeradd (clock s (ticks s)) (ackTimeout s),
        timeradd (clock s (ticks s)) (nextTimeout s), Suc (ticks s))"
    using t(2) s1(3,5,6,7) by (auto simp: arm_timers_def transmit_def same_protocol_def)
qed

lemma send_ack_inv:
  assumes "link_inv s"
  shows "link_inv (libdrbcc_send_ack m s)" and "same_protocol s (libdrbcc_send_ack m s)"
    and "send_toggle (libdrbcc_send_ack m s) = send_toggle s"
proof -
  define a where "a = \<lparr>msg_len = 1, msg = (if msg m ! 0 AND TOGGLE_BITMASK = TOGGLE_BITMASK
    then cmd DRBCC_ACK OR TOGGLE_BITMASK else cmd DRBCC_ACK) # replicate (DRBCC_MAX_PAYLOAD - 1) 0\<rparr>"
  have a: "good_msg a" "snd (stamp_toggle a s) = s"
    by (simp_all add: a_def good_msg_def wf_msg_def stamp_toggle_def Let_def)
  obtain rc m' t where snd: "libdrbcc_send_message a s = (rc, m', t)" by (cases "libdrbcc_send_message a s")
  have "libdrbcc_send_ack m s = t"
    unfolding libdrbcc_send_ack_def Let_def a_def [symmetric] snd by simp
  then show "link_inv (libdrbcc_send_ack m s)" "same_protocol s (libdrbcc_send_ack m s)"
    "send_toggle (libdrbcc_send_ack m s) = send_toggle s"
    using send_message_inv [OF assms a(1) snd] a(2) by simp_all
qed

section \<open>Receiving\<close>

lemma link_inv_proc_msg: "link_inv s \<Longrightarrow> link_inv (snd (libdrbcc_proc_msg s))"
  by (simp add: link_inv_def msgs_ok_proc_msg)

lemma link_inv_proc_ack_msg: "link_inv s \<Longrightarrow> link_inv (libdrbcc_proc_ack_msg s)"
  by (simp add: libdrbcc_proc_ack_msg_def Let_def split: option.split)

lemma link_inv_clear_msg: "link_inv s \<Longrightarrow> link_inv (clear_msg s)"
  unfolding clear_msg_def by (rule link_inv_set_msg) (simp_all add: link_inv_length_cur_msg)

lemma link_inv_recv_data: "link_inv s \<Longrightarrow> link_inv (recv_data b s)"
  unfolding recv_data_def Let_def by (rule link_inv_set_msg) (simp_all add: link_inv_length_cur_msg)

lemma link_inv_recv_peer: "link_inv s \<Longrightarrow> link_inv (recv_peer s)"
proof -
  assume "link_inv s"
  then have "link_inv (s\<lparr>cur_msg := (cur_msg s)\<lparr>msg_len := msg_len (cur_msg s) - 2\<rparr>\<rparr>)"
    by (rule link_inv_set_msg) (simp add: link_inv_length_cur_msg \<open>link_inv s\<close>)
  then show ?thesis
    by (simp add: recv_peer_def Let_def send_ack_inv link_inv_proc_msg)
qed

lemma link_inv_recv_frame: "link_inv s \<Longrightarrow> link_inv (snd (snd (recv_frame ack s)))"
  by (simp add: recv_frame_def Let_def link_inv_clear_msg link_inv_proc_ack_msg link_inv_recv_peer)

lemma link_inv_recv_char: "link_inv s \<Longrightarrow> link_inv (snd (snd (recv_char b ack s)))"
  by (simp add: recv_char_def recv_stop_def Let_def link_inv_recv_frame link_inv_recv_data
    link_inv_set_msg link_inv_length_cur_msg)

lemma link_inv_recv_step:
  assumes "link_inv s" "bufstart s < bufend s"
  shows "link_inv (snd (snd (recv_step ack s)))"
proof -
  have "link_inv (s\<lparr>bufstart := bufstart s + 1\<rparr>)" "bufstart s < length (readbuf s)"
    using assms by (auto simp: link_inv_def)
  then show ?thesis by (simp add: recv_step_def Let_def link_inv_recv_char)
qed

lemma link_inv_recv_loop: "link_inv s \<Longrightarrow> link_inv (recv_loop n ack s)"
proof (induction n ack s rule: recv_loop.induct)
  case (2 n ack s)
  obtain ret ack1 s1 where st: "recv_step ack s = (ret, ack1, s1)" by (cases "recv_step ack s")
  show ?case
  proof (cases "bufstart s < bufend s")
    case True
    then have "link_inv s1" using link_inv_recv_step [OF 2(2), of ack] st by simp
    with 2(1) [OF True st [symmetric] refl] True st show ?thesis by simp
  qed (use 2(2) in simp)
qed simp

lemma length_tty_read: "tty_read n s = (bs, t) \<Longrightarrow> length bs \<le> n \<and> (\<exists>r. t = s\<lparr>rx := r\<rparr>)"
  by (auto simp: tty_read_def intro: exI [of _ "rx s"] split: list.splits if_splits)

lemma link_inv_set_buffer:
  "link_inv s \<Longrightarrow> length rb = DRBCC_MAX_PAYLOAD \<Longrightarrow> i \<le> j \<Longrightarrow> j \<le> DRBCC_MAX_PAYLOAD \<Longrightarrow>
    link_inv (s\<lparr>bufstart := i, rx := r, readbuf := rb, bufend := j\<rparr>)"
  by (simp add: link_inv_def)

lemma link_inv_fill_buffer:
  assumes inv: "link_inv s"
  shows "link_inv (fill_buffer s)"
proof -
  have s: "length (readbuf s) = DRBCC_MAX_PAYLOAD" "bufstart s \<le> bufend s"
    using inv by (simp_all add: link_inv_def)
  consider (empty) "bufend s = bufstart s" | (partial) "bufend s \<noteq> bufstart s" "bufend s > 0"
    "bufend s < length (readbuf s)"
    | (full) "bufend s \<noteq> bufstart s" "\<not> (bufend s > 0 \<and> bufend s < length (readbuf s))"
    by argo
  then show ?thesis
  proof cases
    case empty
    obtain bs t where r: "tty_read (length (readbuf s)) (s\<lparr>bufstart := 0, bufend := 0\<rparr>) = (bs, t)"
      by fastforce
    then obtain q where t: "length bs \<le> DRBCC_MAX_PAYLOAD" "t = s\<lparr>bufstart := 0, bufend := 0, rx := q\<rparr>"
      using length_tty_read [OF r] s(1) by auto
    have "fill_buffer s = s\<lparr>bufstart := 0, rx := q, readbuf := overwrite bs (readbuf s), bufend := length bs\<rparr>"
      using empty r t(2) by (simp add: fill_buffer_def)
    then show ?thesis using inv s t(1) by (simp add: link_inv_set_buffer)
  next
    case partial
    obtain bs t where r: "tty_read (length (readbuf s) - bufend s) s = (bs, t)" by fastforce
    then obtain q where t: "length bs \<le> DRBCC_MAX_PAYLOAD - bufend s" "t = s\<lparr>rx := q\<rparr>"
      using length_tty_read [OF r] s(1) by auto
    have "fill_buffer s = s\<lparr>bufstart := bufstart s, rx := q, readbuf := take (bufend s) (readbuf s) @
        overwrite bs (drop (bufend s) (readbuf s)), bufend := bufend s + length bs\<rparr>"
      using partial r t(2) by (simp add: fill_buffer_def)
    moreover have "link_inv \<dots>" by (rule link_inv_set_buffer) (use inv s t(1) partial in auto)
    ultimately show ?thesis by (simp only:)
  next
    case full
    have "fill_buffer s = s" by (simp only: fill_buffer_def full if_False)
    with inv show ?thesis by simp
  qed
qed

lemma link_inv_receive: "link_inv s \<Longrightarrow> link_inv (libdrbcc_receive s)"
  by (simp add: libdrbcc_receive_def Let_def link_inv_recv_loop link_inv_fill_buffer)

section \<open>The driver\<close>

lemma link_inv_gettimeofday: "drbcc_gettimeofday s = (now, t) \<Longrightarrow> link_inv t = link_inv s"
  by (auto simp: drbcc_gettimeofday_def)

lemma link_inv_outstanding:
  "link_inv s \<Longrightarrow> good_msg m \<Longrightarrow> repeatCount s \<le> 25 \<Longrightarrow> link_inv (s\<lparr>repeatMsg := Some m, wait_for_ack := True\<rparr>)"
  by (simp add: link_inv_def)

text \<open>Taking a message from a queue and sending it.\<close>

lemma link_inv_dequeue:
  assumes "link_inv s"
  shows "prioQueue s \<noteq> [] \<Longrightarrow> link_inv (s\<lparr>prioQueue := tl (prioQueue s)\<rparr>) \<and> good_msg (hd (prioQueue s))"
    and "secQueue s \<noteq> [] \<Longrightarrow> link_inv (s\<lparr>secQueue := tl (secQueue s)\<rparr>) \<and> good_msg (hd (secQueue s))"
  using assms by (cases "prioQueue s"; cases "secQueue s"; simp add: link_inv_def msgs_ok_def)+

lemma link_inv_trigger_send:
  assumes "link_inv s"
  shows "link_inv (trigger_send s)"
proof -
  have sent: "link_inv (t\<lparr>repeatMsg := Some m', wait_for_ack := True\<rparr>)"
    if "link_inv u" "good_msg m" "libdrbcc_send_message m u = (rc, m', t)" for u m rc m' t
    using send_message_inv(1,2) [OF that] by (simp add: link_inv_def)
  note deq = link_inv_dequeue [OF assms]
  show ?thesis
    using assms sent [OF conjunct1 [OF deq(1)] conjunct2 [OF deq(1)]]
      sent [OF conjunct1 [OF deq(2)] conjunct2 [OF deq(2)]]
    by (auto simp: trigger_send_def split: prod.split)
qed

lemma link_inv_trigger_repeat:
  assumes "link_inv s"
  shows "link_inv (trigger_repeat now s)"
proof (cases "repeatCount s < 25")
  case True
  show ?thesis
  proof (cases "repeatMsg s")
    case (Some m)
    obtain rc m1 t where snd: "libdrbcc_send_message m
        (call_error_cb ''REPEAT sending msg cause ACK timeout'' s) = (rc, m1, t)"
      by (metis prod.exhaust)
    have "good_msg m" using assms Some by (simp add: link_inv_def)
    note sent = send_message_inv [OF _ this snd]
    then have "link_inv t" "good_msg m1" "repeatCount t < 25" "repeatMsg t = Some m"
      using assms True Some by (simp_all add: same_protocol_def)
    then show ?thesis using True Some snd by (simp add: trigger_repeat_def link_inv_def)
  qed (use assms True in \<open>simp add: trigger_repeat_def\<close>)
qed (use assms in \<open>simp add: trigger_repeat_def\<close>)

lemma link_inv_trigger_timeouts: "link_inv s \<Longrightarrow> link_inv (trigger_timeouts s)"
  by (auto simp: trigger_timeouts_def Let_def link_inv_trigger_repeat dest!: link_inv_gettimeofday
    split: prod.split)

lemma link_inv_trigger_round: "link_inv s \<Longrightarrow> link_inv (trigger_round s)"
  by (simp add: trigger_round_def link_inv_trigger_timeouts link_inv_trigger_send link_inv_receive)

end
