(* ===== verification/Protocol.thy ===== *)
theory Protocol
  imports Link_Inv
begin

text \<open>
  The stop-and-wait protocol as the peer sees it: a message that is not acknowledged is
  repeated, byte by byte the same, at most 25 times, and is then given up;
  \<^verbatim>\<open>drbcc_trigger\<close> returns after the number of rounds it is given.
\<close>

section \<open>The outstanding message keeps its toggle bit\<close>

definition stamped :: "DRBCC_t \<Rightarrow> bool" where
  "stamped s \<longleftrightarrow> pred_option (\<lambda>m. fst (stamp_toggle m s) = m) (repeatMsg s)"

lemma stamped_cong: "send_toggle s = send_toggle t \<Longrightarrow> repeatMsg s = repeatMsg t \<Longrightarrow> stamped s = stamped t"
  by (simp add: stamped_def stamp_toggle_def Let_def)

lemma set_toggle_twice: "set_toggle (set_toggle m) = set_toggle m"
  by (cases "msg m") (simp_all add: set_toggle_def)

lemma cmd_bits_set_toggle:
  assumes "msg m \<noteq> []"
  shows "cmd_bits (msg (set_toggle m) ! 0) = cmd_bits (msg m ! 0)"
proof -
  have "(b OR TOGGLE_BITMASK) AND NOT TOGGLE_BITMASK = b AND NOT TOGGLE_BITMASK" for b
    by (rule bit_eqI) (auto simp: bit_simps)
  then show ?thesis using assms by (simp add: set_toggle_def)
qed

lemma stamp_toggle_twice:
  assumes "msg m \<noteq> []" and "send_toggle t = send_toggle (snd (stamp_toggle m s))"
  shows "fst (stamp_toggle (fst (stamp_toggle m s)) t) = fst (stamp_toggle m s)"
  using assms cmd_bits_set_toggle [OF assms(1)] cmd_bits_set_toggle [of "set_toggle m"]
  by (auto simp: stamp_toggle_def Let_def set_toggle_twice)

lemma stamp_toggle_content:
  assumes "msg m \<noteq> []"
  shows "tl (payload (fst (stamp_toggle m s))) = tl (payload m)"
    and "cmd_bits (msg (fst (stamp_toggle m s)) ! 0) = cmd_bits (msg m ! 0)"
proof -
  have t: "tl (payload (set_toggle k)) = tl (payload k)" for k
    by (cases "msg k"; cases "unat (msg_len k)") (simp_all add: set_toggle_def payload_def)
  have n: "msg (set_toggle m) \<noteq> []" using assms by (simp add: set_toggle_def)
  show "tl (payload (fst (stamp_toggle m s))) = tl (payload m)" by (simp add: stamp_toggle_def Let_def t)
  show "cmd_bits (msg (fst (stamp_toggle m s)) ! 0) = cmd_bits (msg m ! 0)"
    using cmd_bits_set_toggle [OF assms] cmd_bits_set_toggle [OF n] by (simp add: stamp_toggle_def Let_def)
qed

lemma stamped_release_repeat [simp]: "stamped (release_repeat s)"
  by (simp add: stamped_def release_repeat_def)

lemma stamped_recv_peer:
  assumes inv: "link_inv s" and "stamped s"
  shows "stamped (recv_peer s)"
proof -
  define s1 where "s1 = s\<lparr>cur_msg := (cur_msg s)\<lparr>msg_len := msg_len (cur_msg s) - 2\<rparr>\<rparr>"
  have "link_inv s1"
    unfolding s1_def using inv by (rule link_inv_set_msg) (simp add: link_inv_length_cur_msg [OF inv])
  note ack = send_ack_inv [OF this]
  define s2 where "s2 = (if \<not> sync_mode s1 then libdrbcc_send_ack (cur_msg s1) s1 else s1)"
  have s2: "send_toggle s2 = send_toggle s" "repeatMsg s2 = repeatMsg s"
    using ack(2,3) by (simp_all add: s2_def same_protocol_def) (simp_all add: s1_def)
  have "stamped t" if "send_toggle t = send_toggle s2" "repeatMsg t = repeatMsg s2" for t
    using stamped_cong [of t s] that s2 assms(2) by simp
  then show ?thesis
    by (simp add: recv_peer_def Let_def flip: s1_def s2_def)
qed

lemma stamped_recv_frame: "link_inv s \<Longrightarrow> stamped s \<Longrightarrow> stamped (snd (snd (recv_frame ack s)))"
  using stamped_cong [of "call_error_cb ''Received unexpected ack message'' s" s]
  by (auto simp: recv_frame_def Let_def stamped_recv_peer) (simp_all add: stamped_def release_repeat_def)

lemma stamped_recv_step:
  assumes "link_inv s" "stamped s" "bufstart s < bufend s"
  shows "stamped (snd (snd (recv_step ack s)))"
proof -
  have keep: "stamped t" if "send_toggle t = send_toggle s" "repeatMsg t = repeatMsg s" for t
    using stamped_cong [OF that] assms(2) by simp
  have inv: "link_inv (s\<lparr>bufstart := bufstart s + 1, wait_for_stop_char := False\<rparr>)"
    "bufstart s < length (readbuf s)"
    using assms by (auto simp: link_inv_def)
  show ?thesis
    using inv stamped_recv_frame [OF inv(1)]
    by (auto simp: recv_step_def recv_char_def recv_stop_def recv_data_def Let_def keep)
qed

lemma stamped_recv_loop: "link_inv s \<Longrightarrow> stamped s \<Longrightarrow> stamped (recv_loop n ack s)"
proof (induction n ack s rule: recv_loop.induct)
  case (2 n ack s)
  obtain ret ack1 s1 where st: "recv_step ack s = (ret, ack1, s1)" by (cases "recv_step ack s")
  show ?case
  proof (cases "bufstart s < bufend s")
    case True
    then have "link_inv s1" "stamped s1"
      using link_inv_recv_step [OF 2(2), of ack] stamped_recv_step [OF 2(2,3), of ack] st by simp_all
    with 2(1) [OF True st [symmetric] refl] True st show ?thesis by simp
  qed (use 2(3) in simp)
qed simp

lemma stamped_receive:
  assumes "link_inv s" "stamped s"
  shows "stamped (libdrbcc_receive s)"
proof -
  have "send_toggle (fill_buffer s) = send_toggle s \<and> repeatMsg (fill_buffer s) = repeatMsg s"
    by (auto simp: fill_buffer_def Let_def dest!: length_tty_read split: prod.split)
  then have "stamped (fill_buffer s)" using assms(2) stamped_cong by blast
  then show ?thesis
    by (simp add: libdrbcc_receive_def Let_def stamped_recv_loop link_inv_fill_buffer assms(1))
qed

lemma stamped_sent:
  assumes "link_inv s" and "good_msg m" and "libdrbcc_send_message m s = (rc, m', t)"
    and "send_toggle u = send_toggle t" and "repeatMsg u = Some m'"
  shows "stamped u"
proof -
  have "msg m \<noteq> []" using assms(2) by (auto simp: good_msg_def wf_msg_def)
  then show ?thesis
    using stamp_toggle_twice [of m u s] send_message_inv(4,5) [OF assms(1,2,3)] assms(4,5)
    by (simp add: stamped_def)
qed

lemma stamped_trigger_send:
  assumes "link_inv s" and "stamped s"
  shows "stamped (trigger_send s)"
proof -
  note deq = link_inv_dequeue [OF assms(1)]
  have "stamped (snd (snd r)\<lparr>repeatMsg := Some (fst (snd r)), wait_for_ack := True\<rparr>)"
      "stamped (snd (snd r)\<lparr>repeatMsg := Some (fst (snd r)), wait_for_ack := True, wait_for_answer := True\<rparr>)"
    if "link_inv u" "good_msg m" "libdrbcc_send_message m u = r" for u m r
    using that stamped_sent [OF that(1,2), of "fst r" "fst (snd r)" "snd (snd r)"] by simp_all
  from this [OF conjunct1 conjunct2 refl, OF deq(1) deq(1)] this [OF conjunct1 conjunct2 refl, OF deq(2) deq(2)]
  show ?thesis using assms(2) by (simp add: trigger_send_def Let_def split_def)
qed

section \<open>Repetition\<close>

text \<open>Nothing arrives, and every look at the clock finds the waiting times over.\<close>

definition silent :: "DRBCC_t \<Rightarrow> bool" where
  "silent s \<longleftrightarrow> rx s = [] \<and> bufstart s = bufend s \<and>
     resend s < clock s (ticks s) \<and> sendnext s < clock s (ticks s) \<and>
     (\<forall>i j. i < j \<longrightarrow> timeradd (clock s i) (ackTimeout s) < clock s j \<and>
       timeradd (clock s i) (nextTimeout s) < clock s j \<and> clock s i < clock s j)"

lemma silentD:
  assumes "silent s" and "i < j"
  shows "timeradd (clock s i) (ackTimeout s) < clock s j" "timeradd (clock s i) (nextTimeout s) < clock s j"
    "clock s i < clock s j"
  using assms by (simp_all add: silent_def)

lemma silent_sent:
  assumes "link_inv s" and "good_msg m" and "libdrbcc_send_message m s = (rc, m', t)" and "silent s"
  shows "silent t"
proof -
  note sent = send_message_inv [OF assms(1-3)]
  have "resend t < clock s (ticks t)" "sendnext t < clock s (ticks t)"
    using sent(7) assms(4) silentD [OF assms(4), of "ticks s" "Suc (ticks s)"]
    by (auto simp: silent_def)
  then show ?thesis using sent(3) assms(4) by (simp add: silent_def same_protocol_def)
qed

lemma silent_tick: "silent s \<Longrightarrow> silent (s\<lparr>ticks := Suc (ticks s)\<rparr>)"
  using silentD(3) [of s "ticks s" "Suc (ticks s)"] by (auto simp: silent_def intro: less_trans)

lemma receive_silent:
  "rx s = [] \<Longrightarrow> bufstart s = bufend s \<Longrightarrow> libdrbcc_receive s = s\<lparr>bufstart := 0, bufend := 0\<rparr>"
  by (simp add: libdrbcc_receive_def fill_buffer_def tty_read_def overwrite_def)

lemma trigger_timeouts_silent:
  assumes "wait_for_ack s" and "resend s < clock s (ticks s)"
  shows "\<exists>b. trigger_timeouts s = trigger_repeat (clock s (ticks s))
    (s\<lparr>ticks := Suc (ticks s), wait_for_answer := b\<rparr>)"
proof (cases "wait_for_answer s \<and> sendnext s < clock s (ticks s)")
  case True
  then show ?thesis using assms
    by (intro exI [of _ False]) (simp add: trigger_timeouts_def drbcc_gettimeofday_def)
next
  case False
  then show ?thesis using assms
    by (intro exI [of _ "wait_for_answer s"]) (auto simp: trigger_timeouts_def drbcc_gettimeofday_def Let_def)
qed

text \<open>One round: the message is sent again, and all is as before but the counter.\<close>

lemma silent_round:
  assumes inv: "link_inv s" "stamped s" "silent s" and m: "repeatMsg s = Some m" and less: "repeatCount s < 25"
  defines "t \<equiv> trigger_round s"
  shows "link_inv t" "stamped t" "silent t" "repeatMsg t = Some m" "repeatCount t = repeatCount s + 1"
    "\<exists>k. tx t = tx s @ [take k (frame (payload m))]"
proof -
  define s1 where "s1 = s\<lparr>bufstart := 0, bufend := 0\<rparr>"
  have s1: "libdrbcc_receive s = s1" "wait_for_ack s1" "resend s1 < clock s1 (ticks s1)"
    using inv m by (simp_all add: silent_def receive_silent s1_def link_inv_def)
  obtain b where t0: "trigger_timeouts s1 =
      trigger_repeat (clock s (ticks s)) (s1\<lparr>ticks := Suc (ticks s), wait_for_answer := b\<rparr>)"
    using trigger_timeouts_silent [OF s1(2,3)] by (auto simp: s1_def)
  define s2 where "s2 = s1\<lparr>ticks := Suc (ticks s), wait_for_answer := b\<rparr>"
  let ?e = "call_error_cb ''REPEAT sending msg cause ACK timeout'' s2"
  obtain rc m1 u where snd: "libdrbcc_send_message m ?e = (rc, m1, u)" by (metis prod.exhaust)
  have t: "t = u\<lparr>repeatMsg := Some m1, resend := timeradd (clock s (ticks s)) (ackTimeout u), repeatCount := repeatCount u + 1\<rparr>"
    using t0 snd m less s1(1,2)
    by (simp add: t_def trigger_round_def trigger_send_def trigger_repeat_def flip: s2_def) (simp add: s2_def s1_def)
  have e: "link_inv ?e" using inv link_inv_receive [of s] s1(1) by (simp add: s2_def)
  have gm: "good_msg m" using inv(1) m by (simp add: link_inv_def)
  note sent = send_message_inv [OF e gm snd]
  have same: "send_toggle ?e = send_toggle s" "repeatMsg ?e = repeatMsg s" by (simp_all add: s2_def s1_def)
  then have m1: "m1 = m" using stamped_cong [OF same] inv(2) m sent(4) by (simp add: stamped_def)
  have "link_inv (trigger_round s)" using inv(1) by (rule link_inv_trigger_round)
  then show "link_inv t" by (simp add: t_def)
  show "stamped t" by (rule stamped_sent [OF e gm snd]) (simp_all add: t)
  show "repeatMsg t = Some m" using m1 t by simp
  show "repeatCount t = repeatCount s + 1" using sent(3) by (simp add: t same_protocol_def s2_def s1_def)
  show "\<exists>k. tx t = tx s @ [take k (frame (payload m))]" using sent(6) m1 by (simp add: t s2_def s1_def)
  have "silent ?e" using silent_tick [OF inv(3)] by (simp add: silent_def s2_def s1_def)
  from silent_sent [OF e gm snd this] have "silent u" .
  moreover have "clock u = clock s" "ackTimeout u = ackTimeout s" "ticks s < ticks u"
    using sent(3) by (simp_all add: same_protocol_def s2_def s1_def)
  ultimately show "silent t" using silentD(1) [OF inv(3), of "ticks s" "ticks u"] by (simp add: silent_def t)
qed



section \<open>The driver returns\<close>

lemma trigger_loop_rounds:
  "\<exists>k \<le> n. trigger_loop (int n) s = Some ((trigger_round ^^ k) s) \<and>
    (k = n \<or> trigger_idle ((trigger_round ^^ k) s))"
proof (induction n arbitrary: s)
  case (Suc n)
  show ?case
  proof (cases "trigger_idle (trigger_round s)")
    case True
    then show ?thesis by (intro exI [of _ 1]) (simp add: trigger_loop.simps)
  next
    case False
    obtain k where "k \<le> n" "trigger_loop (int n) (trigger_round s) = Some ((trigger_round ^^ k) (trigger_round s))"
      "k = n \<or> trigger_idle ((trigger_round ^^ k) (trigger_round s))"
      using Suc.IH by blast
    moreover have "trigger_loop (int (Suc n)) s = trigger_loop (int n) (trigger_round s)"
      using False by (subst trigger_loop.simps) (simp add: Let_def)
    ultimately show ?thesis by (intro exI [of _ "Suc k"]) (simp add: funpow_swap1)
  qed
qed (simp add: trigger_loop.simps)



text \<open>With a negative number of rounds it runs until nothing is left to do. The work that is
  left: each queued message costs its transmissions and the wait for an answer.\<close>

definition work :: "DRBCC_t \<Rightarrow> nat" where
  "work s = 29 * (length (prioQueue s) + length (secQueue s)) +
     (if repeatMsg s = None then 0 else 27 - repeatCount s) + (if wait_for_answer s then 1 else 0)"

lemma trigger_timeouts_expired:
  assumes "silent s"
  shows "trigger_timeouts s = (if wait_for_ack s then trigger_repeat (clock s (ticks s)) else id)
    (s\<lparr>ticks := Suc (ticks s), wait_for_answer := False\<rparr>)"
proof -
  have e: "resend s < clock s (ticks s)" "sendnext s < clock s (ticks s)"
    using assms by (simp_all add: silent_def)
  show ?thesis
  proof (cases "wait_for_answer s")
    case True
    with e show ?thesis by (simp add: trigger_timeouts_def drbcc_gettimeofday_def)
  next
    case False
    then have same: "s\<lparr>ticks := Suc (ticks s), wait_for_answer := False\<rparr> = s\<lparr>ticks := Suc (ticks s)\<rparr>"
      by (cases s) simp
    show ?thesis unfolding same using False e by (simp add: trigger_timeouts_def drbcc_gettimeofday_def)
  qed
qed

lemma trigger_repeat_work:
  assumes "link_inv s" "silent s" "wait_for_ack s" and now: "timeradd now (ackTimeout s) < clock s (ticks s)"
  shows "silent (trigger_repeat now s)" "work (trigger_repeat now s) < work s"
proof -
  obtain m where m: "repeatMsg s = Some m" "good_msg m" "repeatCount s \<le> 25"
    using assms(1,3) by (auto simp: link_inv_def)
  let ?e = "call_error_cb ''REPEAT sending msg cause ACK timeout'' s"
  obtain rc m1 u where snd: "libdrbcc_send_message m ?e = (rc, m1, u)" by (metis prod.exhaust)
  have e: "link_inv ?e" "silent ?e" using assms(1,2) by (simp_all add: silent_def)
  note sent = send_message_inv(3) [OF e(1) m(2) snd] silent_sent [OF e(1) m(2) snd e(2)]
  have "clock s (ticks s) \<le> clock s (ticks u)"
    using silentD(3) [OF assms(2), of "ticks s" "ticks u"] sent(1)
    by (cases "ticks s = ticks u") (auto simp: same_protocol_def)
  with now have late: "timeradd now (ackTimeout s) < clock s (ticks u)" by (rule less_le_trans)
  show "silent (trigger_repeat now s)"
  proof (cases "repeatCount s < 25")
    case True
    then have "trigger_repeat now s =
        u\<lparr>repeatMsg := Some m1, resend := timeradd now (ackTimeout u), repeatCount := repeatCount u + 1\<rparr>"
      using m snd by (simp add: trigger_repeat_def)
    then show ?thesis using sent late by (simp add: silent_def same_protocol_def)
  next
    case False
    then show ?thesis using assms(2) by (simp add: trigger_repeat_def release_repeat_def silent_def)
  qed
  show "work (trigger_repeat now s) < work s"
    using sent(1) m snd by (auto simp: trigger_repeat_def release_repeat_def work_def same_protocol_def)
qed

lemma trigger_timeouts_work:
  assumes "link_inv s" "silent s"
  shows "silent (trigger_timeouts s)" and "work (trigger_timeouts s) \<le> work s"
    and "wait_for_ack s \<or> wait_for_answer s \<Longrightarrow> work (trigger_timeouts s) < work s"
    and "\<not> wait_for_ack s \<Longrightarrow> trigger_timeouts s = s\<lparr>ticks := Suc (ticks s), wait_for_answer := False\<rparr>"
proof -
  let ?t = "s\<lparr>ticks := Suc (ticks s), wait_for_answer := False\<rparr>"
  have t: "link_inv ?t" "silent ?t" using assms silent_tick [OF assms(2)] by (simp_all add: silent_def)
  have w: "work ?t \<le> work s" "wait_for_answer s \<Longrightarrow> work ?t < work s" by (simp_all add: work_def)
  note repeat = trigger_repeat_work [OF t, of "clock s (ticks s)"]
  have "timeradd (clock s (ticks s)) (ackTimeout s) < clock s (Suc (ticks s))"
    by (rule silentD(1) [OF assms(2)]) simp
  note repeat = repeat [simplified, OF _ this]
  show "\<not> wait_for_ack s \<Longrightarrow> trigger_timeouts s = ?t" by (simp add: trigger_timeouts_expired [OF assms(2)])
  show "silent (trigger_timeouts s)" using repeat t by (simp add: trigger_timeouts_expired [OF assms(2)])
  show less: "wait_for_ack s \<or> wait_for_answer s \<Longrightarrow> work (trigger_timeouts s) < work s"
  proof (cases "wait_for_ack s")
    case True
    have "work (trigger_timeouts s) < work ?t"
      using True repeat(2) by (simp add: trigger_timeouts_expired [OF assms(2)])
    then show ?thesis using w(1) by linarith
  next
    case False
    assume "wait_for_ack s \<or> wait_for_answer s"
    with False w(2) show ?thesis by (simp add: trigger_timeouts_expired [OF assms(2)])
  qed
  show "work (trigger_timeouts s) \<le> work s"
    using less w by (cases "wait_for_ack s") (simp_all add: trigger_timeouts_expired [OF assms(2)] less_imp_le)
qed

lemma trigger_send_cases:
  obtains (prio) rc m t where "\<not> wait_for_ack s" "prioQueue s \<noteq> []"
      "libdrbcc_send_message (hd (prioQueue s)) (s\<lparr>prioQueue := tl (prioQueue s)\<rparr>) = (rc, m, t)"
      "trigger_send s = t\<lparr>repeatMsg := Some m, wait_for_ack := True\<rparr>"
    | (sec) rc m t where "\<not> wait_for_ack s" "\<not> wait_for_answer s" "secQueue s \<noteq> []"
      "libdrbcc_send_message (hd (secQueue s)) (s\<lparr>secQueue := tl (secQueue s)\<rparr>) = (rc, m, t)"
      "trigger_send s = t\<lparr>repeatMsg := Some m, wait_for_ack := True, wait_for_answer := True\<rparr>"
    | (nothing) "wait_for_ack s \<or> prioQueue s = [] \<and> (wait_for_answer s \<or> secQueue s = [])" "trigger_send s = s"
proof (cases "\<not> wait_for_ack s \<and> prioQueue s \<noteq> []")
  case True
  then show thesis using prio
    by (cases "libdrbcc_send_message (hd (prioQueue s)) (s\<lparr>prioQueue := tl (prioQueue s)\<rparr>)")
      (simp add: trigger_send_def)
next
  case no_prio: False
  show thesis
  proof (cases "\<not> wait_for_ack s \<and> \<not> wait_for_answer s \<and> secQueue s \<noteq> []")
    case True
    then show thesis using no_prio sec
      by (cases "libdrbcc_send_message (hd (secQueue s)) (s\<lparr>secQueue := tl (secQueue s)\<rparr>)")
        (simp add: trigger_send_def)
  next
    case False
    then have "wait_for_ack s \<or> prioQueue s = [] \<and> (wait_for_answer s \<or> secQueue s = [])"
      using no_prio by argo
    moreover have "trigger_send s = s" using no_prio False unfolding trigger_send_def by argo
    ultimately show thesis by (rule nothing)
  qed
qed

lemma trigger_send_work:
  assumes "link_inv s" "silent s"
  shows "silent (trigger_send s)" and "work (trigger_send s) \<le> work s"
    and "\<not> wait_for_ack (trigger_send s) \<Longrightarrow> trigger_send s = s"
proof -
  note deq = link_inv_dequeue [OF assms(1)]
  have q: "silent (s\<lparr>prioQueue := tl (prioQueue s)\<rparr>)" "silent (s\<lparr>secQueue := tl (secQueue s)\<rparr>)"
    using assms(2) by (simp_all add: silent_def)
  have "silent (trigger_send s) \<and> work (trigger_send s) \<le> work s \<and>
    (wait_for_ack (trigger_send s) \<or> trigger_send s = s)"
  proof (cases rule: trigger_send_cases [of s])
    case (prio rc m t)
    note snd = deq(1) [OF prio(2), THEN conjunct1] deq(1) [OF prio(2), THEN conjunct2] prio(3)
    have "silent (trigger_send s)"
      using silent_sent [OF snd q(1)] by (simp add: prio(4) silent_def)
    moreover have "prioQueue t = tl (prioQueue s)" "secQueue t = secQueue s"
        "wait_for_answer t = wait_for_answer s"
      using send_message_inv(3) [OF snd] by (simp_all add: same_protocol_def)
    moreover obtain n where "length (prioQueue s) = Suc n" using prio by (cases "prioQueue s") auto
    ultimately show ?thesis by (simp add: prio(4) work_def)
  next
    case (sec rc m t)
    note snd = deq(2) [OF sec(3), THEN conjunct1] deq(2) [OF sec(3), THEN conjunct2] sec(4)
    have "silent (trigger_send s)"
      using silent_sent [OF snd q(2)] by (simp add: sec(5) silent_def)
    moreover have "prioQueue t = prioQueue s" "secQueue t = tl (secQueue s)"
        "wait_for_answer t = wait_for_answer s"
      using send_message_inv(3) [OF snd] by (simp_all add: same_protocol_def)
    moreover obtain n where "length (secQueue s) = Suc n" using sec by (cases "secQueue s") auto
    ultimately show ?thesis by (simp add: sec(5) work_def)
  next
    case nothing
    then show ?thesis using assms(2) by simp
  qed
  then show "silent (trigger_send s)" "work (trigger_send s) \<le> work s"
    "\<not> wait_for_ack (trigger_send s) \<Longrightarrow> trigger_send s = s" by auto
qed

lemma trigger_round_work:
  assumes "link_inv s" "silent s"
  shows "silent (trigger_round s)" and "work (trigger_round s) < work s \<or> trigger_idle (trigger_round s)"
proof -
  define s1 where "s1 = s\<lparr>bufstart := 0, bufend := 0\<rparr>"
  have recv: "libdrbcc_receive s = s1" using assms(2) by (simp add: silent_def receive_silent s1_def)
  have s1: "link_inv s1" "silent s1" "work s1 = work s"
    using link_inv_receive [OF assms(1)] assms(2) by (simp add: recv, simp_all add: silent_def s1_def work_def)
  define s2 where "s2 = trigger_send s1"
  have s2: "link_inv s2" "silent s2" "work s2 \<le> work s" "\<not> wait_for_ack s2 \<Longrightarrow> s2 = s1"
    using link_inv_trigger_send [OF s1(1)] trigger_send_work [OF s1(1,2)] s1(3) by (simp_all add: s2_def)
  have r: "trigger_round s = trigger_timeouts s2" by (simp add: trigger_round_def recv s2_def)
  note t = trigger_timeouts_work [OF s2(1,2)]
  show "silent (trigger_round s)" using t(1) by (simp add: r)
  show "work (trigger_round s) < work s \<or> trigger_idle (trigger_round s)"
  proof (cases "wait_for_ack s2 \<or> wait_for_answer s2")
    case False
    then have eq: "s2 = s1" "\<not> wait_for_ack s1" "\<not> wait_for_answer s1" using s2(4) by auto
    have idle: "prioQueue s1 = [] \<and> secQueue s1 = []"
    proof (cases rule: trigger_send_cases [of s1])
      case (prio rc m t)
      then have "wait_for_ack s2" by (simp add: s2_def)
      with False show ?thesis by simp
    next
      case (sec rc m t)
      then have "wait_for_ack s2" by (simp add: s2_def)
      with False show ?thesis by simp
    next
      case nothing
      with eq(2,3) show ?thesis by simp
    qed
    have "trigger_timeouts s2 = s1\<lparr>ticks := Suc (ticks s1), wait_for_answer := False\<rparr>"
      using t(4) eq(1,2) by simp
    then show ?thesis using idle eq(2) by (simp add: r trigger_idle_def)
  next
    case True
    from t(3) [OF True] s2(3) show ?thesis by (simp add: r)
  qed
qed

lemma trigger_loop_drains:
  assumes "link_inv s" "silent s" "i < 0"
  shows "\<exists>k \<le> Suc (work s). trigger_loop i s = Some ((trigger_round ^^ k) s) \<and> trigger_idle ((trigger_round ^^ k) s)"
  using assms
proof (induction "work s" arbitrary: s i rule: less_induct)
  case less
  let ?t = "trigger_round s"
  have loop: "trigger_loop i s = (if trigger_idle ?t then Some ?t else trigger_loop (i - 1) ?t)"
    using less.prems(3) by (subst trigger_loop.simps) (simp add: Let_def)
  show ?case
  proof (cases "trigger_idle ?t")
    case True
    then show ?thesis by (intro exI [of _ 1]) (simp add: loop)
  next
    case False
    then have w: "work ?t < work s" using trigger_round_work(2) [OF less.prems(1,2)] by simp
    obtain k where "k \<le> Suc (work ?t)" "trigger_loop (i - 1) ?t = Some ((trigger_round ^^ k) ?t)"
      "trigger_idle ((trigger_round ^^ k) ?t)"
      using less.hyps [OF w link_inv_trigger_round [OF less.prems(1)] trigger_round_work(1) [OF less.prems(1,2)],
        of "i - 1"] less.prems(3) by auto
    with w False show ?thesis by (intro exI [of _ "Suc k"]) (simp add: loop funpow_swap1)
  qed
qed



end
