(* ===== verification/Delivery.thy ===== *)
theory Delivery
  imports Link_Receive Protocol
begin

text \<open>
  Both halves of the link together: a frame that was written arrives as the message it was
  made from, and a message of the peer that arrives twice is processed once.
\<close>

section \<open>Acknowledging\<close>

definition ack_byte :: "u8 \<Rightarrow> u8" where
  "ack_byte b = (if b AND TOGGLE_BITMASK = TOGGLE_BITMASK then cmd DRBCC_ACK OR TOGGLE_BITMASK else cmd DRBCC_ACK)"

lemma send_ack_eq:
  assumes "writepos s = 0" "length (writebuf s) = 2 * DRBCC_MAX_PAYLOAD"
  shows "\<exists>wb. length wb = length (writebuf s) \<and>
    libdrbcc_send_ack m s = transmit wb (frame [ack_byte (msg m ! 0)]) s"
proof -
  define a where "a = \<lparr>msg_len = 1, msg = ack_byte (msg m ! 0) # replicate (DRBCC_MAX_PAYLOAD - 1) 0\<rparr>"
  have a: "wf_msg a" "0 < msg_len a" "payload a = [ack_byte (msg m ! 0)]" "stamp_toggle a s = (a, s)"
    "cmd_bits (msg a ! 0) = cmd DRBCC_ACK"
    by (simp_all add: a_def wf_msg_def payload_def stamp_toggle_def ack_byte_def Let_def)
  have "libdrbcc_send_ack m s = snd (snd (libdrbcc_send_message a s))"
    unfolding libdrbcc_send_ack_def Let_def a_def ack_byte_def ..
  then show ?thesis using send_message_eq [OF a(1,2) assms a(4)] a(3,5) by auto
qed

lemma transmit_fields [simp]:
  "sync_mode (transmit wb bs s) = sync_mode s" "cur_msg (transmit wb bs s) = cur_msg s"
  "expected_recv_toggle (transmit wb bs s) = expected_recv_toggle s"
  "wait_for_ack (transmit wb bs s) = wait_for_ack s" "wait_for_answer (transmit wb bs s) = wait_for_answer s"
  "prioQueue (transmit wb bs s) = prioQueue s" "secQueue (transmit wb bs s) = secQueue s"
  "events (transmit wb bs s) = events s" "fs (transmit wb bs s) = fs s" "cbs (transmit wb bs s) = cbs s"
  "session (transmit wb bs s) = session s" "bufstart (transmit wb bs s) = bufstart s"
  "bufend (transmit wb bs s) = bufend s" "escaped (transmit wb bs s) = escaped s"
  "readbuf (transmit wb bs s) = readbuf s" "rx (transmit wb bs s) = rx s"
  "writepos (transmit wb bs s) = 0" "writebuf (transmit wb bs s) = wb"
  by (simp_all add: transmit_def)

text \<open>A message of the peer in asynchronous mode: it is acknowledged, and processed if its
  toggle bit is the expected one.\<close>

definition in_order :: "u8 \<Rightarrow> DRBCC_t \<Rightarrow> bool" where
  "in_order b s \<longleftrightarrow> b AND TOGGLE_BITMASK = ucast (expected_recv_toggle s) AND TOGGLE_BITMASK"

lemma recv_peer_async:
  assumes "writepos s = 0" "length (writebuf s) = 2 * DRBCC_MAX_PAYLOAD" and "\<not> sync_mode s"
  defines "s1 \<equiv> s\<lparr>cur_msg := (cur_msg s)\<lparr>msg_len := msg_len (cur_msg s) - 2\<rparr>\<rparr>"
  shows "\<exists>wb. length wb = length (writebuf s) \<and> recv_peer s =
    (let s2 = transmit wb (frame [ack_byte (rmsg s 0)]) s1
     in if in_order (rmsg s 0) s
        then snd (libdrbcc_proc_msg (s2\<lparr>expected_recv_toggle := NOT (expected_recv_toggle s),
               wait_for_answer := (wait_for_ack s \<and> wait_for_answer s)\<rparr>))
        else (close_session False (call_error_cb ''TOGGLE_BIT ERROR'' s2))\<lparr>state := DRBCC_STATE_USER\<rparr>)"
proof -
  obtain wb where "length wb = length (writebuf s)" and
    ack: "libdrbcc_send_ack (cur_msg s1) s1 = transmit wb (frame [ack_byte (rmsg s 0)]) s1"
    using send_ack_eq [of s1 "cur_msg s1"] assms(1,2) by (auto simp: s1_def)
  have "sync_mode (close_session False (call_error_cb t s2)) = sync_mode s2" for t s2
    by (simp add: close_session_def call_error_cb_def call_cb_def)
  moreover have "\<not> sync_mode s1" "rmsg s1 0 = rmsg s 0" "expected_recv_toggle s1 = expected_recv_toggle s"
    "wait_for_ack s1 = wait_for_ack s" "wait_for_answer s1 = wait_for_answer s"
    using assms(3) by (simp_all add: s1_def)
  ultimately have "recv_peer s =
    (let s2 = transmit wb (frame [ack_byte (rmsg s 0)]) s1
     in if in_order (rmsg s 0) s
        then snd (libdrbcc_proc_msg (s2\<lparr>expected_recv_toggle := NOT (expected_recv_toggle s),
               wait_for_answer := (wait_for_ack s \<and> wait_for_answer s)\<rparr>))
        else (close_session False (call_error_cb ''TOGGLE_BIT ERROR'' s2))\<lparr>state := DRBCC_STATE_USER\<rparr>)"
    by (simp add: recv_peer_def Let_def ack in_order_def flip: s1_def)
  then show ?thesis using \<open>length wb = length (writebuf s)\<close> by blast
qed

section \<open>Exactly once\<close>

lemma received_fields [simp]:
  "rmsg (received (b # bs) s) 0 = b" "sync_mode (received bs s) = sync_mode s"
  "writepos (received bs s) = writepos s" "writebuf (received bs s) = writebuf s"
  "send_toggle (received bs s) = send_toggle s"
  by (simp_all add: received_def with_crc_def overwrite_def)

lemma recv_frame_peer:
  assumes "cmd_bits (rmsg s 0) \<noteq> cmd DRBCC_ACK" and "rmsg s 0 \<noteq> cmd DRBCC_SYNC_ANSWER"
  shows "snd (snd (recv_frame (cmd DRBCC_ACK) s)) = recv_peer s"
proof -
  have "rmsg s 0 \<noteq> cmd DRBCC_ACK" "rmsg s 0 \<noteq> cmd DRBCC_ACK OR TOGGLE_BITMASK"
    using assms(1) by (auto simp: bit.conj_disj_distrib2)
  with assms show ?thesis by (simp add: recv_frame_def Let_def)
qed

text \<open>The handle when the message is handed to \<^const>\<open>libdrbcc_proc_msg\<close>: only the line, the
  message and the acknowledgement differ from before.\<close>

definition handed :: "bytes \<Rightarrow> DRBCC_t \<Rightarrow> DRBCC_t \<Rightarrow> bool" where
  "handed bs s p \<longleftrightarrow> payload (cur_msg p) = bs \<and> events p = events s \<and> prioQueue p = prioQueue s \<and>
     secQueue p = secQueue s \<and> fs p = fs s \<and> session p = session s \<and> cbs p = cbs s \<and>
     (\<exists>k. tx p = tx s @ [take k (frame [ack_byte (hd bs)])]) \<and>
     receiver_idle p \<and> \<not> sync_mode p \<and> writepos p = 0 \<and> length (writebuf p) = 2 * DRBCC_MAX_PAYLOAD"

lemma receive_peer:
  assumes idle: "receiver_idle s" and arr: "arrives cs (frame bs) s" and bs: "bs \<noteq> []" "length bs \<le> 143"
    and b: "cmd_bits (hd bs) \<noteq> cmd DRBCC_ACK" "hd bs \<noteq> cmd DRBCC_SYNC_ANSWER"
    and s: "\<not> sync_mode s" "writepos s = 0" "length (writebuf s) = 2 * DRBCC_MAX_PAYLOAD"
  shows "\<exists>p. handed bs s p \<and> (libdrbcc_receive ^^ length cs) s =
    (if in_order (hd bs) s
     then snd (libdrbcc_proc_msg (p\<lparr>expected_recv_toggle := NOT (expected_recv_toggle s)\<rparr>))
     else (close_session False (call_error_cb ''TOGGLE_BIT ERROR'' p))\<lparr>state := DRBCC_STATE_USER\<rparr>)"
proof -
  obtain rb k where rb: "length rb = DRBCC_MAX_PAYLOAD" and
    recv: "(libdrbcc_receive ^^ length cs) s =
      snd (snd (recv_frame (cmd DRBCC_ACK) (received bs (set_line rb k k (drop (length cs) (rx s)) s))))"
    using receive_frame [OF idle arr bs] by blast
  define r where "r = received bs (set_line rb k k (drop (length cs) (rx s)) s)"
  obtain c ds where c: "bs = c # ds" using bs(1) by (cases bs) auto
  have r: "rmsg r 0 = c" "\<not> sync_mode r" "writepos r = 0" "length (writebuf r) = 2 * DRBCC_MAX_PAYLOAD"
    "in_order c r = in_order c s" "expected_recv_toggle r = expected_recv_toggle s"
    using s by (simp_all add: r_def c set_line_def) (simp_all add: received_def in_order_def)
  from recv_peer_async [OF r(3,4,2)] obtain wb where wb: "length wb = length (writebuf r)" and
    peer: "recv_peer r = (let s2 = transmit wb (frame [ack_byte c]) (r\<lparr>cur_msg := (cur_msg r)\<lparr>msg_len := msg_len (cur_msg r) - 2\<rparr>\<rparr>)
     in if in_order c s
        then snd (libdrbcc_proc_msg (s2\<lparr>expected_recv_toggle := NOT (expected_recv_toggle s),
               wait_for_answer := (wait_for_ack r \<and> wait_for_answer r)\<rparr>))
        else (close_session False (call_error_cb ''TOGGLE_BIT ERROR'' s2))\<lparr>state := DRBCC_STATE_USER\<rparr>)"
    unfolding r by blast
  define p where "p = transmit wb (frame [ack_byte c]) (r\<lparr>cur_msg := (cur_msg r)\<lparr>msg_len := msg_len (cur_msg r) - 2\<rparr>\<rparr>)"
  have "unat (of_nat (length bs) :: u8) = length bs" using bs(2) by (simp add: unat_of_nat)
  then have "payload (cur_msg p) = bs"
    by (simp add: p_def r_def received_def payload_def with_crc_def overwrite_def)
  moreover have "length (msg (cur_msg p)) = DRBCC_MAX_PAYLOAD"
    using idle bs(2) by (simp add: p_def r_def received_def receiver_idle_def with_crc_def set_line_def)
  ultimately have h: "handed bs s (p\<lparr>wait_for_answer := w\<rparr>)" for w
    using idle s wb rb r(4)
    by (simp add: handed_def receiver_idle_def p_def c) (auto simp: r_def received_def set_line_def transmit_def)
  have "handed bs s p" using h [of "wait_for_answer p"] by simp
  moreover have "(libdrbcc_receive ^^ length cs) s = recv_peer r"
    using recv recv_frame_peer [of r] b r(1) by (simp add: c r_def)
  moreover define q where "q = p\<lparr>wait_for_answer := wait_for_ack r \<and> wait_for_answer r\<rparr>"
  moreover have "handed bs s q" unfolding q_def by (rule h)
  moreover have "p\<lparr>expected_recv_toggle := e, wait_for_answer := wait_for_ack r \<and> wait_for_answer r\<rparr> =
      q\<lparr>expected_recv_toggle := e\<rparr>" for e by (simp add: q_def)
  ultimately show ?thesis
    using peer [folded p_def] by (cases "in_order c s") (auto simp: Let_def c)
qed

lemma in_order_flip:
  assumes "in_order b s" and "expected_recv_toggle t = NOT (expected_recv_toggle s)"
  shows "\<not> in_order b t"
proof
  assume "in_order b t"
  then have "bit (b AND TOGGLE_BITMASK) 7 = bit (ucast (NOT (expected_recv_toggle s)) AND TOGGLE_BITMASK :: u8) 7"
    by (simp add: in_order_def assms(2))
  moreover have "bit (b AND TOGGLE_BITMASK) 7 = bit (ucast (expected_recv_toggle s) AND TOGGLE_BITMASK :: u8) 7"
    using assms(1) by (simp add: in_order_def)
  ultimately show False by (simp add: bit_simps)
qed



section \<open>From one end to the other\<close>

lemma send_message_complete:
  assumes "link_inv s" "good_msg m" "ioplan s (ios s) = None" and "libdrbcc_send_message m s = (rc, m', t)"
  shows "m' = fst (stamp_toggle m s)" and "tx t = tx s @ [frame (payload m')]"
proof -
  obtain m1 s1 where st: "stamp_toggle m s = (m1, s1)" by fastforce
  obtain rc' wb where eq: "libdrbcc_send_message m s = (rc', m1,
      (if cmd_bits (msg m1 ! 0) \<noteq> cmd DRBCC_ACK then arm_timers else id) (transmit wb (frame (payload m1)) s1))"
    using send_message_eq [OF _ _ _ _ st] assms(1,2) by (auto simp: good_msg_def link_inv_def)
  have "s1 = s \<or> s1 = s\<lparr>send_toggle := -1, expected_recv_toggle := 0\<rparr>"
    using stamp_toggle_cases [of m s] st by simp
  then have "wire_result n s1 = int n" "tx s1 = tx s" for n
    using assms(3) by (auto simp: wire_result_def sys_call_def)
  with eq st assms(4) show "m' = fst (stamp_toggle m s)" "tx t = tx s @ [frame (payload m')]"
    by (auto simp: transmit_def arm_timers_def)
qed

text \<open>C13. The wire format round trip. When the device takes the whole write, the bytes that
  \<^verbatim>\<open>libdrbcc_send_message\<close> writes for a message, received in whatever chunks by an idle
  receiver, are recognised there as exactly this message with a correct checksum.\<close>

theorem wire_roundtrip:
  assumes "link_inv s" "good_msg m" "ioplan s (ios s) = None" and "libdrbcc_send_message m s = (rc, m', t)"
    and "receiver_idle r" and "arrives cs (last (tx t)) r"
  shows "\<exists>rb k. (libdrbcc_receive ^^ length cs) r = snd (snd (recv_frame (cmd DRBCC_ACK)
    (received (payload m') (set_line rb k k (drop (length cs) (rx r)) r))))"
proof -
  note sent = send_message_complete [OF assms(1-4)]
  have "wf_msg m'" "0 < msg_len m'" using assms(2) by (simp_all add: sent(1) good_msg_def)
  then have "length (payload m') = unat (msg_len m')" "unat (msg_len m') \<le> DRBCC_MAX_MSG_LEN" "0 < unat (msg_len m')"
    by (simp_all add: length_payload wf_msg_def word_less_nat_alt)
  then have "payload m' \<noteq> []" "length (payload m') \<le> 143" by auto
  then show ?thesis using receive_frame [OF assms(5), of cs "payload m'"] assms(6) sent(2) by auto
qed

theorem wire_roundtrip_witness:
  "let m = new_msg 2 [0x10, 0xFB] (replicate 145 0); t = snd (snd (libdrbcc_send_message m zero_handle));
       r = zero_handle\<lparr>rx := [last (tx t)]\<rparr>
   in \<exists>rb k. libdrbcc_receive r = snd (snd (recv_frame (cmd DRBCC_ACK)
        (received [0x10, 0xFB] (set_line rb k k [] r))))"
proof -
  define m where "m = new_msg 2 [0x10, 0xFB] (replicate 145 0)"
  obtain rc m' t where snd: "libdrbcc_send_message m zero_handle = (rc, m', t)" by (metis prod.exhaust)
  have z: "link_inv zero_handle" "ioplan zero_handle (ios zero_handle) = None" "good_msg m"
    "fst (stamp_toggle m zero_handle) = m" "payload m = [0x10, 0xFB]"
    by (simp_all add: m_def good_msg_def wf_msg_def new_msg_def payload_def overwrite_def link_inv_def msgs_ok_def
      zero_handle_def zero_msg_def stamp_toggle_def)
  note sent = send_message_complete [OF z(1,3,2) snd]
  then have l: "last (tx t) = frame [0x10, 0xFB]" and m': "payload m' = [0x10, 0xFB]" using z(4,5) by simp_all
  have "receiver_idle (zero_handle\<lparr>rx := [last (tx t)]\<rparr>)"
    by (simp add: receiver_idle_def zero_handle_def zero_msg_def)
  moreover have "arrives [last (tx t)] (last (tx t)) (zero_handle\<lparr>rx := [last (tx t)]\<rparr>)"
    using length_frame [of "[0x10, 0xFB]"] by (simp add: l arrives_def frame_def)
  ultimately have "\<exists>rb k. (libdrbcc_receive ^^ 1) (zero_handle\<lparr>rx := [last (tx t)]\<rparr>) =
      snd (snd (recv_frame (cmd DRBCC_ACK)
        (received [0x10, 0xFB] (set_line rb k k [] (zero_handle\<lparr>rx := [last (tx t)]\<rparr>)))))"
    using wire_roundtrip [OF z(1,3,2) snd, of "zero_handle\<lparr>rx := [last (tx t)]\<rparr>" "[last (tx t)]"] m' by simp
  then show ?thesis using snd by (simp add: Let_def m_def)
qed

end
