(* ===== verification/Lifecycle.thy ===== *)
theory Lifecycle
  imports Link
begin

text \<open>
  Initialising the library and opening, starting, stopping and closing a handle
  (\<^verbatim>\<open>drbcc_ll.c\<close>). Opening the serial device with its lock file is left to the operating
  system: its outcome is an argument of \<open>drbcc_start\<close>.
\<close>

definition drbcc_init :: "DRBCC_t \<Rightarrow> DRBCC_RC_t \<times> DRBCC_t" where
  "drbcc_init s =
     (if libdrbcc_initialized s then (DRBCC_RC_WRONGSTATE, s)
      else (DRBCC_RC_NOERROR, s\<lparr>libdrbcc_initialized := True\<rparr>))"

definition drbcc_term :: "DRBCC_t \<Rightarrow> DRBCC_RC_t \<times> DRBCC_t" where
  "drbcc_term s =
     (if \<not> libdrbcc_initialized s then (DRBCC_RC_WRONGSTATE, s)
      else (DRBCC_RC_NOERROR, s\<lparr>libdrbcc_initialized := False\<rparr>))"

text \<open>A handle of zeros; globals and environment stay.\<close>

definition zeroed :: "DRBCC_t \<Rightarrow> DRBCC_t" where
  "zeroed s = zero_handle\<lparr>
     libdrbcc_initialized := libdrbcc_initialized s, drbcc_session := drbcc_session s,
     retry := retry s, session_out := session_out s, heap := heap s, mallocs := mallocs s,
     clock := clock s, ticks := ticks s, rx := rx s, tx := tx s, stack := stack s, fs := fs s,
     ioplan := ioplan s, ios := ios s, events := events s, fault := fault s\<rparr>"

text \<open>The result of \<^verbatim>\<open>malloc\<close> is not tested.\<close>

definition drbcc_open :: "DRBCC_t \<Rightarrow> DRBCC_RC_t \<times> DRBCC_t" where
  "drbcc_open s =
     (if \<not> libdrbcc_initialized s then (DRBCC_RC_WRONGSTATE, s)
      else
        let ok = (heap s (mallocs s) \<noteq> None);
            s1 = zeroed (s\<lparr>mallocs := Suc (mallocs s)\<rparr>)
        in (DRBCC_RC_NOERROR, s1\<lparr>
              ackTimeout := Timeval 0 (40 * 1000), nextTimeout := Timeval 1 0,
              last_error := DRBCC_RC_NOERROR, fd := -1, send_toggle := 0, expected_recv_toggle := 0,
              prioQueue := [], secQueue := [], magic := 0xDAD1DADA, bufstart := 0, bufend := 0,
              fault := (fault s \<or> \<not> ok)\<rparr>))"

text \<open>\<open>tty\<close>: the descriptor \<^verbatim>\<open>libdrbcc_open_tty\<close> returns, or a negative error code. The
  outcome of the first synchronisation request is ignored.\<close>

definition drbcc_start :: "int \<Rightarrow> DRBCC_t \<Rightarrow> DRBCC_RC_t \<times> DRBCC_t" where
  "drbcc_start tty s =
     (case CHECK_HANDLE s of
        Some e \<Rightarrow> (e, s)
      | None \<Rightarrow>
          if tty < 0 then (DRBCC_RC_DEVICE_LOCKED, s)
          else (DRBCC_RC_NOERROR, snd (drbcc_sync False (s\<lparr>fd := tty, wait_for_first_sync_ack := True\<rparr>))))"

definition stopped_cbs :: "callback list" where
  "stopped_cbs = [error_cb, protocol_cb, id_cb, erase_flash_cb, read_flash_cb, write_flash_cb,
     flash_id_cb, rtc_cb, status_cb, hdOffRequest_cb]"

definition drbcc_stop :: "DRBCC_t \<Rightarrow> DRBCC_RC_t \<times> DRBCC_t" where
  "drbcc_stop s =
     (case CHECK_HANDLE s of
        Some e \<Rightarrow> (e, s)
      | None \<Rightarrow> (DRBCC_RC_NOERROR, s\<lparr>cbs := (\<lambda>c. cbs s c \<and> c \<notin> set stopped_cbs)\<rparr>))"

text \<open>The handle is gone afterwards: \<open>None\<close>. The number of blocks released is counted: the
  messages of both queues and the handle.\<close>

definition drbcc_close :: "DRBCC_t \<Rightarrow> DRBCC_RC_t \<times> nat \<times> DRBCC_t option" where
  "drbcc_close s =
     (case CHECK_HANDLE s of
        Some e \<Rightarrow> (e, 0, Some s)
      | None \<Rightarrow> (DRBCC_RC_NOERROR, length (secQueue s) + length (prioQueue s) + 1, None))"

fun drbcc_get_error_string :: "DRBCC_RC_t \<Rightarrow> string" where
  "drbcc_get_error_string DRBCC_RC_NOERROR = ''DRBCC: No error''"
| "drbcc_get_error_string DRBCC_RC_SYSTEM_ERROR = ''DRBCC: System error''"
| "drbcc_get_error_string DRBCC_RC_UNSPEC_ERROR = ''DRBCC: Unspecified error''"
| "drbcc_get_error_string DRBCC_RC_NO_STANDBY_POWER = ''DRBCC: No standby power''"
| "drbcc_get_error_string DRBCC_RC_MISSING_START_CHAR = ''DRBCC: Missing start character''"
| "drbcc_get_error_string DRBCC_RC_MSG_TOO_LONG = ''DRBCC: Message too long''"
| "drbcc_get_error_string DRBCC_RC_UNEXP_START_CHAR = ''DRBCC: unexpected start character''"
| "drbcc_get_error_string DRBCC_RC_MSG_TOO_SHORT = ''DRBCC: Message too short''"
| "drbcc_get_error_string DRBCC_RC_MSG_CRC_ERROR = ''DRBCC: Message CRC error''"
| "drbcc_get_error_string DRBCC_RC_DEVICE_LOCKED = ''DRBCC: Device locked''"
| "drbcc_get_error_string DRBCC_RC_MSG_TIMEOUT = ''DRBCC: Message timeout''"
| "drbcc_get_error_string DRBCC_RC_OUTOFMEMORY = ''DRBCC: Out of memory''"
| "drbcc_get_error_string DRBCC_RC_WRONGSTATE = ''DRBCC: Wrong state''"
| "drbcc_get_error_string DRBCC_RC_NOTINITIALIZED = ''DRBCC: Not libdrbcc_initialized''"
| "drbcc_get_error_string DRBCC_RC_INVALID_HANDLE = ''DRBCC: Invalid Handle''"
| "drbcc_get_error_string DRBCC_RC_CBREGISTERED = ''DRBCC: Callbacks registered''"
| "drbcc_get_error_string DRBCC_RC_INVALID_FILENAME = ''DRBCC: Invalid filename''"
| "drbcc_get_error_string DRBCC_RC_SESSIONACTIVE = ''DRBCC: Session active''"

definition drbcc_dump_message :: "DRBCC_MESSAGE_t \<Rightarrow> string" where
  "drbcc_dump_message m =
     (if 0 < msg_len m
      then if msg m ! 0 AND TOGGLE_BITMASK \<noteq> 0 then ''DRBCC Toogle 1:'' else ''DRBCC Toogle 0:''
      else ''DRBCC-Message Length 0!'') @ [CHR 0x0A]"

end
