(* ===== verification/System.thy ===== *)
theory System
  imports Delivery Lifecycle
begin

text \<open>
  The library as its caller drives it: after \<^verbatim>\<open>drbcc_open\<close>, any sequence of calls of the
  interface, while the serial line and the file system do what they like in between. In every
  state that can be reached this way the invariants of the link hold. Callbacks are events:
  the calls a callback might make itself are not part of the sequence.
\<close>

section \<open>What the interface functions leave alone\<close>

definition link_core :: "DRBCC_t \<Rightarrow> nat \<times> bytes \<times> bytes \<times> nat \<times> nat \<times> bool \<times> DRBCC_MESSAGE_t option \<times> nat \<times> u32" where
  "link_core s = (writepos s, writebuf s, readbuf s, bufstart s, bufend s, wait_for_ack s, repeatMsg s,
     repeatCount s, send_toggle s)"

definition link_ok :: "DRBCC_t \<Rightarrow> bool" where
  "link_ok s \<longleftrightarrow> link_inv s \<and> stamped s"

lemma link_ok_core:
  assumes "link_ok s" and "link_core t = link_core s" and "msgs_ok t"
  shows "link_ok t"
  using assms stamped_cong [of t s] by (simp add: link_ok_def link_inv_def link_core_def)

lemma link_core_view:
  assumes "link_view t = link_view s"
  shows "link_core t = link_core s"
  using link_view_fields [OF assms] by (simp add: link_core_def)

lemma link_core_update [simp]:
  "link_core (s\<lparr>session := x0\<rparr>) = link_core s"
  "link_core (s\<lparr>drbcc_session := x1\<rparr>) = link_core s"
  "link_core (s\<lparr>session_out := x2\<rparr>) = link_core s"
  "link_core (s\<lparr>fault := x3\<rparr>) = link_core s"
  "link_core (s\<lparr>state := x4\<rparr>) = link_core s"
  "link_core (s\<lparr>curFileType := x5\<rparr>) = link_core s"
  "link_core (s\<lparr>curFileIndex := x6\<rparr>) = link_core s"
  "link_core (s\<lparr>curFilename := x7\<rparr>) = link_core s"
  "link_core (s\<lparr>curFilelength := x8\<rparr>) = link_core s"
  "link_core (s\<lparr>maxFilelength := x9\<rparr>) = link_core s"
  "link_core (s\<lparr>logtype := x10\<rparr>) = link_core s"
  "link_core (s\<lparr>start := x11\<rparr>) = link_core s"
  "link_core (s\<lparr>entries := x12\<rparr>) = link_core s"
  "link_core (s\<lparr>mallocs := x13\<rparr>) = link_core s"
  "link_core (s\<lparr>prioQueue := x14\<rparr>) = link_core s"
  "link_core (s\<lparr>secQueue := x15\<rparr>) = link_core s"
  "link_core (s\<lparr>cbs := x16\<rparr>) = link_core s"
  "link_core (s\<lparr>fd := x17\<rparr>) = link_core s"
  "link_core (s\<lparr>wait_for_first_sync_ack := x18\<rparr>) = link_core s"
  "link_core (s\<lparr>indClosesSession := x19\<rparr>) = link_core s"
  "link_core (s\<lparr>fs := x20\<rparr>) = link_core s"
  "link_core (s\<lparr>rx := x21\<rparr>) = link_core s"
  "link_core (s\<lparr>ios := x22\<rparr>) = link_core s"
  by (simp_all add: link_core_def)

lemma link_core_calls [simp]:
  "link_core (snd (libdrbcc_req_flash_read addr len s)) = link_core s"
  "link_core (snd (libdrbcc_req_flash_write addr len data s)) = link_core s"
  "link_core (snd (libdrbcc_req_flash_erase_block b s)) = link_core s"
  "link_core (snd (libdrbcc_request_partition s)) = link_core s"
  "link_core (libdrbcc_add_msg_prio m s) = link_core s"
  "link_core (take_session sess s) = link_core s"
  "link_core (open_session closes sess s) = link_core s"
  "link_core (set_file index st s) = link_core s"
  by ((rule link_core_view, simp only: frame_simps) | simp add: take_session_def open_session_def set_file_def)+

lemma link_core_pair:
  "alloc_msg s = (r, t) \<Longrightarrow> link_core t = link_core s"
  "sys_call n s = (i, t) \<Longrightarrow> link_core t = link_core s"
  "sys_open creat trunc name s = (b, t) \<Longrightarrow> link_core t = link_core s"
  "fetch blk p n s = (bs, t) \<Longrightarrow> link_core t = link_core s"
  by (rule link_core_view, erule link_view_pair)+

lemma msgs_ok_session [simp]:
  "msgs_ok (take_session sess s) = msgs_ok s"
  "msgs_ok (open_session closes sess s) = msgs_ok s"
  "msgs_ok (set_file index st s) = msgs_ok s"
  "msgs_ok (s\<lparr>logtype := ring\<rparr>) = msgs_ok s"
  "msgs_ok (s\<lparr>entries := n\<rparr>) = msgs_ok s"
  by (simp_all add: take_session_def open_session_def set_file_def msgs_ok_def)

section \<open>The interface\<close>

text \<open>One call of the interface. The arguments are those of the functions; a caller passes
  the length of data it really has. Requests of a board and of the flash, file and log
  operations, registration, start and stop, and the driver.\<close>

inductive api_call :: "DRBCC_t \<Rightarrow> DRBCC_t \<Rightarrow> bool" where
  request: "op \<in> request_ops \<Longrightarrow> api_call s (snd (op sess s))"
| get_pos: "api_call s (snd (drbcc_get_pos sess s))"
| clear_log: "api_call s (snd (drbcc_clear_log sess s))"
| debug_get: "api_call s (snd (drbcc_debug_get address sess s))"
| debug_set: "0 \<le> len \<Longrightarrow> api_call s (snd (drbcc_debug_set address len data sess s))"
| put_log: "0 \<le> len \<Longrightarrow> api_call s (snd (drbcc_put_log ring len data sess s))"
| get_log: "api_call s (snd (drbcc_get_log kind n sess s))"
| flash_read: "api_call s (snd (drbcc_req_flash_read addr n32 sess s))"
| flash_write: "api_call s (snd (drbcc_req_flash_write addr n32 data sess s))"
| flash_erase: "api_call s (snd (drbcc_req_flash_erase_block blocknum sess s))"
| partitions: "api_call s (snd (drbcc_get_partitiontable sess s))"
| delete_file: "api_call s (snd (drbcc_delete_file index sess s))"
| get_file: "api_call s (snd (drbcc_get_file index filename sess s))"
| put_file: "api_call s (snd (drbcc_put_file index type filename sess s))"
| register: "api_call s (snd (register_cb c cb s))"
| start_tty: "api_call s (snd (drbcc_start tty s))"
| stop: "api_call s (snd (drbcc_stop s))"
| trigger: "drbcc_trigger i s = Some (rc, t) \<Longrightarrow> api_call s t"

inductive reachable :: "DRBCC_t \<Rightarrow> bool" where
  opened: "drbcc_open s = (DRBCC_RC_NOERROR, t) \<Longrightarrow> reachable t"
| call: "reachable s \<Longrightarrow> api_call s t \<Longrightarrow> reachable t"
| outside: "reachable s \<Longrightarrow> reachable (s\<lparr>rx := received_chunks, fs := files\<rparr>)"

section \<open>Every call keeps the link intact\<close>

context request_op
begin

lemma keeps_link:
  assumes s: "msgs_ok s"
  shows "link_core (snd (op sess s)) = link_core s \<and> msgs_ok (snd (op sess s))"
proof (cases rule: result_cases [of s sess])
  case (queued m closes)
  then have "good_msg m" using req_size(1) length_payload [of m] by (auto simp: good_msg_def word_gt_0)
  with s queued show ?thesis by (simp add: msgs_ok_def open_session_def)
qed (use s in simp_all)

end

text \<open>The functions that are no plain requests.\<close>

lemma small_msg:
  assumes "0 \<le> len" "len \<le> int k" "k + h \<le> DRBCC_MAX_MSG_LEN" "0 < h"
  shows "0 < (word_of_int (len + int h) :: u8)" "unat (word_of_int (len + int h) :: u8) \<le> DRBCC_MAX_MSG_LEN"
proof -
  have "word_of_int (len + int h) = (of_nat (nat len + h) :: u8)" using assms(1) by simp
  moreover have "unat (of_nat (nat len + h) :: u8) = nat len + h"
    by (simp only: unat_of_nat) (use assms in simp)
  ultimately show "0 < (word_of_int (len + int h) :: u8)" "unat (word_of_int (len + int h) :: u8) \<le> DRBCC_MAX_MSG_LEN"
    using assms by (simp_all add: word_less_nat_alt)
qed

lemma put_log_keeps:
  assumes "msgs_ok s" and "0 \<le> len"
  shows "link_core (snd (drbcc_put_log ring len data sess s)) = link_core s"
    and "msgs_ok (snd (drbcc_put_log ring len data sess s))"
proof -
  show "link_core (snd (drbcc_put_log ring len data sess s)) = link_core s"
    by (auto simp: drbcc_put_log_def Let_def dest!: link_core_pair split: option.split prod.split)
  show "msgs_ok (snd (drbcc_put_log ring len data sess s))"
    using assms(1) small_msg [OF assms(2), of 137 3]
    by (auto simp: drbcc_put_log_def Let_def dest!: msgs_ok_alloc msgs_ok_fetch
      intro!: good_new_msg split: option.split prod.split)
qed

lemma debug_set_keeps:
  assumes "msgs_ok s" and "0 \<le> len"
  shows "link_core (snd (drbcc_debug_set address len data sess s)) = link_core s"
    and "msgs_ok (snd (drbcc_debug_set address len data sess s))"
proof -
  show "link_core (snd (drbcc_debug_set address len data sess s)) = link_core s"
    by (auto simp: drbcc_debug_set_def Let_def dest!: link_core_pair split: option.split prod.split)
  show "msgs_ok (snd (drbcc_debug_set address len data sess s))"
    using assms(1) small_msg [OF assms(2), of 136 4]
    by (auto simp: drbcc_debug_set_def Let_def dest!: msgs_ok_alloc msgs_ok_fetch
      intro!: good_new_msg split: option.split prod.split)
qed

lemma get_log_keeps:
  assumes "msgs_ok s"
  shows "link_core (snd (drbcc_get_log kind n sess s)) = link_core s"
    and "msgs_ok (snd (drbcc_get_log kind n sess s))"
proof -
  show "link_core (snd (drbcc_get_log kind n sess s)) = link_core s"
    by (auto simp: drbcc_get_log_def Let_def dest!: link_core_pair split: option.split prod.split)
  show "msgs_ok (snd (drbcc_get_log kind n sess s))"
    using assms
    by (auto simp: drbcc_get_log_def Let_def dest!: msgs_ok_alloc intro!: good_new_msg split: option.split prod.split)
qed

lemma flash_requests_keep:
  assumes "msgs_ok s"
  shows "link_core (snd (drbcc_req_flash_read addr len sess s)) = link_core s"
    and "msgs_ok (snd (drbcc_req_flash_read addr len sess s))"
    and "link_core (snd (drbcc_req_flash_write addr len data sess s)) = link_core s"
    and "msgs_ok (snd (drbcc_req_flash_write addr len data sess s))"
    and "link_core (snd (drbcc_req_flash_erase_block b sess s)) = link_core s"
    and "msgs_ok (snd (drbcc_req_flash_erase_block b sess s))"
  using assms
  by (simp_all add: drbcc_req_flash_read_def drbcc_req_flash_write_def drbcc_req_flash_erase_block_def
    session_request_def inv_intros split: option.split)

lemma file_operations_keep:
  assumes "msgs_ok s"
  shows "link_core (snd (drbcc_get_partitiontable sess s)) = link_core s"
    and "msgs_ok (snd (drbcc_get_partitiontable sess s))"
    and "link_core (snd (drbcc_delete_file index sess s)) = link_core s"
    and "msgs_ok (snd (drbcc_delete_file index sess s))"
    and "link_core (snd (drbcc_get_file index filename sess s)) = link_core s"
    and "msgs_ok (snd (drbcc_get_file index filename sess s))"
    and "link_core (snd (drbcc_put_file index type filename sess s)) = link_core s"
    and "msgs_ok (snd (drbcc_put_file index type filename sess s))"
proof -
  show "link_core (snd (drbcc_get_partitiontable sess s)) = link_core s"
    "link_core (snd (drbcc_delete_file index sess s)) = link_core s"
    "link_core (snd (drbcc_get_file index filename sess s)) = link_core s"
    "link_core (snd (drbcc_put_file index type filename sess s)) = link_core s"
    by (auto simp: drbcc_get_partitiontable_def drbcc_delete_file_def drbcc_get_file_def drbcc_put_file_def Let_def
      dest!: link_core_pair split: option.split prod.split)
  show "msgs_ok (snd (drbcc_get_partitiontable sess s))" "msgs_ok (snd (drbcc_delete_file index sess s))"
    "msgs_ok (snd (drbcc_get_file index filename sess s))" "msgs_ok (snd (drbcc_put_file index type filename sess s))"
    using assms
    by (auto simp: drbcc_get_partitiontable_def drbcc_delete_file_def drbcc_get_file_def drbcc_put_file_def Let_def
      dest!: msgs_ok_pair intro!: msgs_ok_request_partition split: option.split prod.split)
qed

lemma start_stop_keep:
  assumes "msgs_ok s"
  shows "link_core (snd (register_cb c cb s)) = link_core s" and "msgs_ok (snd (register_cb c cb s))"
    and "link_core (snd (drbcc_start tty s)) = link_core s" and "msgs_ok (snd (drbcc_start tty s))"
    and "link_core (snd (drbcc_stop s)) = link_core s" and "msgs_ok (snd (drbcc_stop s))"
  using assms sync.keeps_link [of "s\<lparr>fd := tty, wait_for_first_sync_ack := True\<rparr>" False]
  by (simp_all add: register_cb_def drbcc_start_def drbcc_stop_def msgs_ok_def split: option.split)

lemma stamped_trigger_repeat:
  assumes "link_inv s" "stamped s"
  shows "stamped (trigger_repeat now s)"
proof (cases "repeatMsg s")
  case (Some m)
  let ?e = "call_error_cb ''REPEAT sending msg cause ACK timeout'' s"
  obtain rc m1 u where snd: "libdrbcc_send_message m ?e = (rc, m1, u)" by (metis prod.exhaust)
  have e: "link_inv ?e" using assms(1) by simp
  have "good_msg m" using assms(1) Some by (simp add: link_inv_def)
  from stamped_sent [OF e this snd] Some snd show ?thesis by (simp add: trigger_repeat_def)
qed (use assms in \<open>simp add: trigger_repeat_def\<close>)

lemma link_ok_round:
  assumes "link_ok s"
  shows "link_ok (trigger_round s)"
proof -
  let ?t = "trigger_send (libdrbcc_receive s)"
  have inv: "link_inv ?t" "stamped ?t"
    using assms
    by (simp_all add: link_ok_def link_inv_trigger_send link_inv_receive stamped_trigger_send stamped_receive)
  have keep: "stamped (?t\<lparr>ticks := Suc (ticks ?t), wait_for_answer := b\<rparr>)" for b
    using stamped_cong [of "?t\<lparr>ticks := Suc (ticks ?t), wait_for_answer := b\<rparr>" ?t] inv(2) by simp
  moreover have "stamped (?t\<lparr>ticks := Suc (ticks ?t)\<rparr>)"
    using stamped_cong [of "?t\<lparr>ticks := Suc (ticks ?t)\<rparr>" ?t] inv(2) by simp
  ultimately have "stamped (trigger_timeouts ?t)"
    using inv(1) by (simp add: trigger_timeouts_def drbcc_gettimeofday_def Let_def stamped_trigger_repeat)
  then show ?thesis
    using assms link_inv_trigger_round by (simp add: link_ok_def trigger_round_def)
qed

lemma link_ok_trigger_loop:
  assumes "trigger_loop i s = Some t" and "link_ok s"
  shows "link_ok t"
proof -
  have "link_ok s \<longrightarrow> link_ok t"
  proof (rule trigger_loop.raw_induct [where P = "\<lambda>i s t. link_ok s \<longrightarrow> link_ok t", OF _ assms(1)])
    fix loop i s t
    assume IH: "\<And>i s t. loop i s = Some t \<Longrightarrow> link_ok s \<longrightarrow> link_ok t"
      and eq: "(if i = 0 then Some s else let s1 = trigger_round s in if trigger_idle s1 then Some s1
        else loop (i - 1) s1) = Some t"
    show "link_ok s \<longrightarrow> link_ok t"
      using eq IH link_ok_round [of s] by (auto simp: Let_def split: if_splits)
  qed
  with assms(2) show ?thesis by simp
qed

lemma link_ok_opened:
  assumes "drbcc_open s = (DRBCC_RC_NOERROR, t)"
  shows "link_ok t"
proof -
  have "libdrbcc_initialized s" using assms by (auto simp: drbcc_open_def split: if_splits)
  with assms have "t = snd (drbcc_open s)" "libdrbcc_initialized s" by simp_all
  then show ?thesis
    by (simp add: drbcc_open_def Let_def link_ok_def link_inv_def msgs_ok_def stamped_def zeroed_def
      zero_handle_def zero_msg_def)
qed

lemma link_ok_msgs: "link_ok s \<Longrightarrow> msgs_ok s"
  by (simp add: link_ok_def link_inv_def)

lemmas api_keeps = put_log_keeps debug_set_keeps get_log_keeps flash_requests_keep file_operations_keep
  start_stop_keep get_pos.keeps_link clear_log.keeps_link debug_get.keeps_link

lemma link_ok_call: "api_call s t \<Longrightarrow> link_ok s \<Longrightarrow> link_ok t"
proof (induction rule: api_call.induct)
  case (request op s sess)
  then have "msgs_ok s" by (simp add: link_ok_msgs)
  then show ?case
    using request request_ops_contract [OF request(1)] request_op.keeps_link link_ok_core by blast
next
  case (trigger i s rc t)
  then show ?case using link_ok_trigger_loop
    by (auto simp: drbcc_trigger_def split: option.splits)
qed (rule link_ok_core, assumption, simp add: api_keeps link_ok_msgs, simp add: api_keeps link_ok_msgs)+

lemma reachable_link_ok: "reachable s \<Longrightarrow> link_ok s"
proof (induction rule: reachable.induct)
  case (opened s t)
  then show ?case by (rule link_ok_opened)
next
  case (call s t)
  then show ?case by (blast intro: link_ok_call)
next
  case (outside s received_chunks files)
  from link_ok_core [OF outside.IH] link_ok_msgs [OF outside.IH] show ?case by simp
qed





section \<open>The handshake\<close>

lemma first_sync:
  assumes "drbcc_open s = (DRBCC_RC_NOERROR, t)" and "heap s (Suc (mallocs s)) \<noteq> None" and "ioplan s (ios s) = None"
    and "0 \<le> tty"
  shows "\<exists>r m. snd (drbcc_start tty t) = r\<lparr>prioQueue := [m]\<rparr> \<and> wf_msg m \<and> payload m = [cmd DRBCC_SYNC] \<and>
    link_inv r \<and> ioplan r (ios r) = None \<and> send_toggle r = 0 \<and> prioQueue r = [] \<and> \<not> wait_for_ack r \<and>
    tx r = tx s \<and> events r = events s \<and> session r = 0 \<and> \<not> escaped r \<and> bufstart r = bufend r \<and>
    wait_for_first_sync_ack r"
proof -
  define r where "r = (snd (drbcc_open s))\<lparr>fd := tty, wait_for_first_sync_ack := True, state := DRBCC_STATE_USER,
    mallocs := Suc (Suc (mallocs s))\<rparr>"
  have init: "libdrbcc_initialized s" using assms(1) by (auto simp: drbcc_open_def split: if_splits)
  have t: "t = snd (drbcc_open s)" using assms(1) by simp
  have r: "link_inv r" "ioplan r (ios r) = None" "send_toggle r = 0" "prioQueue r = []" "\<not> wait_for_ack r"
    "tx r = tx s" "events r = events s" "session r = 0" "\<not> escaped r" "bufstart r = bufend r"
    "wait_for_first_sync_ack r"
    using init assms(3)
    by (simp_all add: r_def drbcc_open_def Let_def link_inv_def msgs_ok_def zeroed_def zero_handle_def zero_msg_def)
  have h: "CHECK_HANDLE t = None" "session t = 0" "heap t (mallocs t) \<noteq> None" "mallocs t = Suc (mallocs s)"
      "prioQueue t = []"
    using init assms(2)
    by (simp_all add: t drbcc_open_def Let_def CHECK_HANDLE_def zeroed_def zero_handle_def)
  let ?t = "t\<lparr>fd := tty, wait_for_first_sync_ack := True\<rparr>"
  have c: "CHECK_HANDLE ?t = None" using h(1) by (auto simp: CHECK_HANDLE_def split: if_splits)
  obtain m closes where m: "wf_msg m" "payload m = [cmd DRBCC_SYNC]" and
    eq: "drbcc_sync False ?t = (DRBCC_RC_NOERROR, open_session closes False
      (?t\<lparr>state := DRBCC_STATE_USER, mallocs := Suc (mallocs ?t), prioQueue := prioQueue ?t @ [m]\<rparr>))"
    using sync.accepted [OF c, of False] h(2,3) by auto
  have "snd (drbcc_start tty t) = r\<lparr>prioQueue := [m]\<rparr>"
    using assms(4) h(1,4,5) by (simp add: drbcc_start_def eq open_session_def r_def flip: t)
  with m r show ?thesis by blast
qed

lemma sync_sent:
  assumes inv: "link_inv r" "ioplan r (ios r) = None" "send_toggle r = 0" "\<not> wait_for_ack r"
    and m: "wf_msg m" "payload m = [cmd DRBCC_SYNC]"
  shows "\<exists>wb. length wb = 2 * DRBCC_MAX_PAYLOAD \<and> trigger_send (r\<lparr>prioQueue := [m]\<rparr>) =
    (arm_timers (transmit wb (frame [cmd DRBCC_SYNC OR TOGGLE_BITMASK])
      (r\<lparr>prioQueue := [], send_toggle := -1, expected_recv_toggle := 0\<rparr>)))
        \<lparr>repeatMsg := Some (set_toggle m), wait_for_ack := True\<rparr>"
proof -
  have u: "unat (msg_len m) = 1" using length_payload [OF m(1)] m(2) by simp
  then have "msg_len m = 1" by (simp add: word_unat_eq_iff)
  have l: "length (msg m) = DRBCC_MAX_PAYLOAD" using m(1) by (simp add: wf_msg_def)
  then obtain x xs where x: "msg m = x # xs" by (cases "msg m") auto
  with m(2) u have "msg m = cmd DRBCC_SYNC # xs" by (simp add: payload_def)
  then have st: "stamp_toggle m (r\<lparr>prioQueue := []\<rparr>) =
      (set_toggle m, r\<lparr>prioQueue := [], send_toggle := -1, expected_recv_toggle := 0\<rparr>)"
      "payload (set_toggle m) = [cmd DRBCC_SYNC OR TOGGLE_BITMASK]" "cmd_bits (msg (set_toggle m) ! 0) \<noteq> cmd DRBCC_ACK"
    using inv(3) u by (simp_all add: stamp_toggle_def set_toggle_def payload_def)
  have "0 < msg_len m" by (simp add: \<open>msg_len m = 1\<close>)
  from send_message_eq [OF m(1) this _ _ st(1)] st(2,3) inv obtain rc wb where
    "length wb = 2 * DRBCC_MAX_PAYLOAD" "libdrbcc_send_message m (r\<lparr>prioQueue := []\<rparr>) = (rc, set_toggle m,
      arm_timers (transmit wb (frame [cmd DRBCC_SYNC OR TOGGLE_BITMASK])
        (r\<lparr>prioQueue := [], send_toggle := -1, expected_recv_toggle := 0\<rparr>)))"
    by (auto simp: link_inv_def)
  then show ?thesis using inv(4) by (intro exI [of _ wb]) (simp add: trigger_send_def)
qed

text \<open>C14. Opening the link. After \<^verbatim>\<open>drbcc_open\<close> and \<^verbatim>\<open>drbcc_start\<close> the first message sent is a
  \<^const>\<open>DRBCC_SYNC\<close> with its toggle bit set, outside of any session; when its acknowledgement
  arrives the link is synchronised: nothing is outstanding, both toggles are 0, and no callback
  has been called.\<close>

theorem handshake:
  assumes "drbcc_open s = (DRBCC_RC_NOERROR, t)" and "heap s (Suc (mallocs s)) \<noteq> None" and "ioplan s (ios s) = None"
    and "0 \<le> tty" and "u = trigger_send (snd (drbcc_start tty t))"
    and "arrives cs (frame [cmd DRBCC_ACK OR TOGGLE_BITMASK]) (u\<lparr>rx := line\<rparr>)"
    and "v = (libdrbcc_receive ^^ length cs) (u\<lparr>rx := line\<rparr>)"
  shows "tx u = tx s @ [frame [cmd DRBCC_SYNC OR TOGGLE_BITMASK]] \<and> session u = 0 \<and> wait_for_ack u \<and>
    repeatMsg v = None \<and> \<not> wait_for_ack v \<and> send_toggle v = 0 \<and> expected_recv_toggle v = 0 \<and>
    \<not> wait_for_first_sync_ack v \<and> events v = events s"
proof -
  obtain r m where start: "snd (drbcc_start tty t) = r\<lparr>prioQueue := [m]\<rparr>" and
    m: "wf_msg m" "payload m = [cmd DRBCC_SYNC]" and
    r: "link_inv r" "ioplan r (ios r) = None" "send_toggle r = 0" "\<not> wait_for_ack r" "tx r = tx s"
      "events r = events s" "session r = 0" "\<not> escaped r" "bufstart r = bufend r" "wait_for_first_sync_ack r"
    using first_sync [OF assms(1-4)] by auto
  obtain wb where wb: "length wb = 2 * DRBCC_MAX_PAYLOAD" and u: "u = (arm_timers (transmit wb (frame [cmd DRBCC_SYNC OR TOGGLE_BITMASK])
      (r\<lparr>prioQueue := [], send_toggle := -1, expected_recv_toggle := 0\<rparr>)))
        \<lparr>repeatMsg := Some (set_toggle m), wait_for_ack := True\<rparr>"
    using sync_sent [OF r(1-4) m] assms(5) start by auto
  have uf: "tx u = tx s @ [frame [cmd DRBCC_SYNC OR TOGGLE_BITMASK]]" "session u = 0" "wait_for_ack u"
      "repeatMsg u = Some (set_toggle m)" "send_toggle u = -1" "expected_recv_toggle u = 0" "wait_for_first_sync_ack u"
      "events u = events s"
    using r by (simp_all add: u arm_timers_def transmit_def wire_result_def sys_call_def)
  have "receiver_idle (u\<lparr>rx := line\<rparr>)"
    using r by (simp add: u arm_timers_def receiver_idle_def link_inv_def msgs_ok_def)
  from receive_frame [OF this assms(6)] obtain rb k where v: "v = snd (snd (recv_frame (cmd DRBCC_ACK)
      (received [cmd DRBCC_ACK OR TOGGLE_BITMASK] (set_line rb k k (drop (length cs) line) (u\<lparr>rx := line\<rparr>)))))"
    using assms(7) by auto
  have "msg m \<noteq> []" "cmd_bits (msg m ! 0) = cmd DRBCC_SYNC"
    using m by (auto simp: payload_def wf_msg_def) (cases "msg m"; cases "unat (msg_len m)"; simp)
  then have c: "cmd_bits (msg (set_toggle m) ! 0) = cmd DRBCC_SYNC" using cmd_bits_set_toggle by simp
  have "repeatMsg v = None \<and> \<not> wait_for_ack v \<and> send_toggle v = 0 \<and> expected_recv_toggle v = 0 \<and>
      \<not> wait_for_first_sync_ack v \<and> events v = events s"
    using uf c by (simp add: v recv_frame_def received_def set_line_def with_crc_def overwrite_def
      libdrbcc_proc_ack_msg_def clear_msg_def release_repeat_def Let_def)
  with uf show ?thesis by simp
qed

theorem handshake_witness:
  "let s = zero_handle\<lparr>libdrbcc_initialized := True\<rparr>;
       u = trigger_send (snd (drbcc_start 3 (snd (drbcc_open s))));
       v = libdrbcc_receive (u\<lparr>rx := [frame [0x80]]\<rparr>)
   in tx u = [frame [0x81]] \<and> repeatMsg v = None \<and> send_toggle v = 0"
proof -
  let ?s = "zero_handle\<lparr>libdrbcc_initialized := True\<rparr>"
  define u where "u = trigger_send (snd (drbcc_start 3 (snd (drbcc_open ?s))))"
  have "fst (drbcc_open ?s) = DRBCC_RC_NOERROR" by (simp add: drbcc_open_def Let_def)
  then have "drbcc_open ?s = (DRBCC_RC_NOERROR, snd (drbcc_open ?s))" by (metis prod.collapse)
  moreover have "arrives [frame [0x80]] (frame [cmd DRBCC_ACK OR TOGGLE_BITMASK]) (u\<lparr>rx := [frame [0x80]]\<rparr>)"
    using length_frame [of "[0x80]"] by (simp add: arrives_def frame_def)
  ultimately have "tx u = [frame [0x81]] \<and> repeatMsg (libdrbcc_receive (u\<lparr>rx := [frame [0x80]]\<rparr>)) = None \<and>
      send_toggle (libdrbcc_receive (u\<lparr>rx := [frame [0x80]]\<rparr>)) = 0"
    using handshake [of ?s _ 3 u "[frame [0x80]]" "[frame [0x80]]", OF _ _ _ _ u_def _ refl]
    by (simp add: zero_handle_def)
  then show ?thesis by (simp add: Let_def u_def)
qed

end
