(* ===== verification/Table_Update.thy ===== *)
theory Table_Update
  imports Flash_Files
begin

text \<open>
  Changing the partition table: the four requests with which both copies in the flash are
  replaced, what a device makes of them, also when it is interrupted in between, and the
  tables that a deletion and a new partition write.
\<close>

section \<open>The requests\<close>

definition queued :: "DRBCC_MESSAGE_t list \<Rightarrow> DRBCC_t \<Rightarrow> DRBCC_t" where
  "queued ms s = s\<lparr>mallocs := mallocs s + length ms, secQueue := secQueue s @ ms\<rparr>"

lemma no_oom_queued [simp]: "no_oom (queued ms s) = no_oom s"
  by (simp add: no_oom_def queued_def)

lemma queued_queued [simp]: "queued ns (queued ms s) = queued (ms @ ns) s"
  by (simp add: queued_def)

lemma erase_block_queued:
  assumes "no_oom s" and "unat b < 65536"
  shows "\<exists>m. snd (libdrbcc_req_flash_erase_block b s) = queued [m] s \<and> erase_request m \<and> block_of m = unat b"
proof -
  obtain block where a: "alloc_msg s = (Some block, s\<lparr>mallocs := Suc (mallocs s)\<rparr>)"
    "length block = DRBCC_MAX_PAYLOAD" using alloc_msg_no_oom [OF assms(1)] by blast
  let ?m = "new_msg 3 [cmd DRBCC_REQ_EXTFLASH_BLOCKERASE, byte_of 8 b, byte_of 0 b] block"
  have "payload ?m = [cmd DRBCC_REQ_EXTFLASH_BLOCKERASE, byte_of 8 b, byte_of 0 b]"
    by (rule payload_new_msg) simp
  moreover have "wf_msg ?m" by (rule wf_new_msg) (use a in simp_all)
  moreover have "unat b div 256 mod 256 * 256 + unat b mod 256 = unat b"
    using assms(2) by (simp add: div_mult_mod_eq)
  ultimately show ?thesis
    using a by (intro exI [of _ ?m])
      (simp add: libdrbcc_req_flash_erase_block_def libdrbcc_add_msg_sec_def queued_def erase_request_def
        block_of_def unat_byte_of)
qed

lemma table_write_queued:
  assumes "no_oom s" and "128 \<le> length data" and "addr = 0 \<or> addr = 4096" and "flash_device carry"
  shows "\<exists>m. snd (libdrbcc_req_flash_write addr 128 data s) = queued [m] s \<and>
    (\<forall>f. blank (unat addr) 128 f \<longrightarrow> carry m f = store (unat addr) (take 128 data) f)"
proof -
  obtain block where a: "alloc_msg s = (Some block, s\<lparr>mallocs := Suc (mallocs s)\<rparr>)"
    "length block = DRBCC_MAX_PAYLOAD" using alloc_msg_no_oom [OF assms(1)] by blast
  have "first_chunk addr 128 = 128" using assms(3) by (auto simp: first_chunk_def)
  then have "snd (libdrbcc_req_flash_write addr 128 data s) = queued [write_msg addr 128 (take 128 data) block] s"
    using a assms(2,3) by (auto simp: libdrbcc_req_flash_write_def write_first_def fetch_def
      libdrbcc_add_msg_sec_def queued_def)
  moreover have "unat addr < 2 ^ 24" using assms(3) by auto
  ultimately show ?thesis
    using write_msg_device(2) [OF a(2), of "take 128 data" 128 addr carry] assms(2,4) by auto
qed

lemma write_table_queued:
  assumes "no_oom s" and "128 \<le> length data" and dev: "flash_device carry"
  shows "\<exists>e1 w1 e0 w0. write_table data s = queued [e1, w1, e0, w0] s \<and>
    (\<forall>f. carry e1 f = erased 1 f) \<and> (\<forall>f. carry e0 f = erased 0 f) \<and>
    (\<forall>f. blank 4096 128 f \<longrightarrow> carry w1 f = store 4096 (take 128 data) f) \<and>
    (\<forall>f. blank 0 128 f \<longrightarrow> carry w0 f = store 0 (take 128 data) f)"
proof -
  obtain e1 where e1: "snd (libdrbcc_req_flash_erase_block 1 s) = queued [e1] s" "erase_request e1" "block_of e1 = 1"
    using erase_block_queued [OF assms(1), of 1] by auto
  obtain w1 where w1: "snd (libdrbcc_req_flash_write 4096 128 data (queued [e1] s)) = queued [w1] (queued [e1] s)"
    "\<forall>f. blank 4096 128 f \<longrightarrow> carry w1 f = store 4096 (take 128 data) f"
    using table_write_queued [of "queued [e1] s" data 4096 carry] assms by auto
  obtain e0 where e0: "snd (libdrbcc_req_flash_erase_block 0 (queued [e1, w1] s)) = queued [e0] (queued [e1, w1] s)"
    "erase_request e0" "block_of e0 = 0"
    using erase_block_queued [of "queued [e1, w1] s" 0] assms(1) by auto
  obtain w0 where w0: "snd (libdrbcc_req_flash_write 0 128 data (queued [e1, w1, e0] s)) = queued [w0] (queued [e1, w1, e0] s)"
    "\<forall>f. blank 0 128 f \<longrightarrow> carry w0 f = store 0 (take 128 data) f"
    using table_write_queued [of "queued [e1, w1, e0] s" data 0 carry] assms by auto
  have "write_table data s = queued [e1, w1, e0, w0] s"
    using e1 w1 e0 w0 by (simp add: write_table_def Let_def)
  then show ?thesis using e1 w1 e0 w0 dev
    by (intro exI [of _ e1] exI [of _ w1] exI [of _ e0] exI [of _ w0]) (simp add: flash_device_def)
qed

section \<open>Both copies\<close>

definition table_at :: "nat \<Rightarrow> (nat \<Rightarrow> u8) \<Rightarrow> bytes" where
  "table_at a f = map f [a..<a + 128]"

lemma table_at_store: "length d = 128 \<Longrightarrow> table_at a (store a d f) = d"
  by (rule nth_equalityI) (simp_all add: table_at_def store_def)

lemma table_at_other: "a + 128 \<le> b \<or> b + length d \<le> a \<Longrightarrow> table_at a (store b d f) = table_at a f"
  by (auto simp: table_at_def store_def)

lemma table_at_erased: "a div 4096 \<noteq> b \<Longrightarrow> a mod 4096 = 0 \<Longrightarrow> table_at a (erased b f) = table_at a f"
  by (auto simp: table_at_def erased_def)

lemma write_table_steps:
  assumes "no_oom s" and "128 \<le> length data" and "flash_device carry"
  shows "\<exists>ms. write_table data s = queued ms s \<and>
    (\<forall>k \<le> length ms. table_at 0 (fold carry (take k ms) f) = table_at 0 f \<or>
       table_at 4096 (fold carry (take k ms) f) = take 128 data) \<and>
    table_at 0 (fold carry ms f) = take 128 data \<and> table_at 4096 (fold carry ms f) = take 128 data \<and>
    (\<forall>i \<ge> 8192. fold carry ms f i = f i)"
proof -
  let ?d = "take 128 data"
  obtain e1 w1 e0 w0 where w: "write_table data s = queued [e1, w1, e0, w0] s"
    and e: "\<And>f. carry e1 f = erased 1 f" "\<And>f. carry e0 f = erased 0 f"
    and w1: "\<And>f. blank 4096 128 f \<Longrightarrow> carry w1 f = store 4096 ?d f"
    and w0: "\<And>f. blank 0 128 f \<Longrightarrow> carry w0 f = store 0 ?d f"
    using write_table_queued [OF assms] by blast
  have l: "length ?d = 128" using assms(2) by simp
  define f1 f2 f3 f4 where f: "f1 = erased 1 f" "f2 = store 4096 ?d f1" "f3 = erased 0 f2" "f4 = store 0 ?d f3"
  have "blank 4096 128 f1" "blank 0 128 f3" by (simp_all add: f blank_def erased_def)
  then have steps: "carry e1 f = f1" "carry w1 f1 = f2" "carry e0 f2 = f3" "carry w0 f3 = f4"
    using e w1 w0 by (simp_all add: f)
  have t: "table_at 0 f1 = table_at 0 f" "table_at 4096 f2 = ?d" "table_at 4096 f3 = ?d" "table_at 4096 f4 = ?d"
      "table_at 0 f4 = ?d"
    using l by (simp_all add: f table_at_store table_at_other table_at_erased)
  have "table_at 0 (fold carry (take k [e1, w1, e0, w0]) f) = table_at 0 f \<or>
      table_at 4096 (fold carry (take k [e1, w1, e0, w0]) f) = ?d" if "k \<le> 4" for k
  proof -
    have "k \<in> {0, 1, 2, 3, 4}" using that by auto
    then show ?thesis using t by (auto simp: steps)
  qed
  moreover have "f4 i = f i" if "8192 \<le> i" for i
    using that l by (simp add: f store_def erased_def)
  ultimately show ?thesis using w t by (intro exI [of _ "[e1, w1, e0, w0]"]) (simp add: steps)
qed

text \<open>C4. Replacing the partition table is safe against interruption. Whenever the device stops
  between two of the requests, the first copy still is the old table or the second copy is
  the complete new one; after the last request both copies are the new table, and nothing
  behind the two blocks has changed.\<close>

theorem table_update_crash_safe:
  assumes "no_oom s" and "128 \<le> length data" and "flash_device carry"
  shows "\<exists>ms. write_table data s = queued ms s \<and>
    (\<forall>k \<le> length ms. table_at 0 (fold carry (take k ms) f) = table_at 0 f \<or>
       table_at 4096 (fold carry (take k ms) f) = take 128 data) \<and>
    table_at 0 (fold carry ms f) = take 128 data \<and> table_at 4096 (fold carry ms f) = take 128 data \<and>
    (\<forall>i \<ge> 8192. fold carry ms f i = f i)"
  using assms by (rule write_table_steps)

theorem table_update_crash_safe_witness:
  "\<exists>ms. write_table (replicate 128 7) zero_handle = queued ms zero_handle \<and>
     table_at 0 (fold plain_device ms (\<lambda>_. 0)) = replicate 128 7"
  using table_update_crash_safe [of zero_handle "replicate 128 7", OF _ _ plain_device, of "\<lambda>_. 0"]
  by (auto simp: no_oom_def zero_handle_def)

section \<open>Deleting a file\<close>

lemma clear_entry_eq:
  assumes "b + 6 \<le> length data" and "b < 2 ^ 32 - 6"
  shows "clear_entry (of_nat b) (data, s) = (take b data @ replicate 6 0xFF @ drop (b + 6) data, s)"
proof -
  have u: "unat (of_nat b + of_nat k :: u32) = b + k" if "k < 6" for k
    using that assms(2) by (simp add: unat_of_nat flip: of_nat_add)
  have "fold (\<lambda>k. put_byte (unat (of_nat b + of_nat k :: u32)) 0xFF) ks (data, s) =
      fold (\<lambda>k. put_byte (b + k) 0xFF) ks (data, s)" if "set ks \<subseteq> {..<6}" for ks
    by (rule fold_cong [OF refl refl]) (use that u in auto)
  moreover have l: "[0..<6] = [0, 1, 2, 3, 4, 5 :: nat]" by (simp add: upt_rec)
  ultimately have "clear_entry (of_nat b) (data, s) =
      fold (\<lambda>k. put_byte (b + k) 0xFF) [0, 1, 2, 3, 4, 5] (data, s)"
    unfolding clear_entry_def l by (rule meta_mp) simp
  also have "\<dots> = (data[b := 0xFF, b + 1 := 0xFF, b + 2 := 0xFF, b + 3 := 0xFF, b + 4 := 0xFF, b + 5 := 0xFF], s)"
    using assms(1) by (simp add: put_byte_def)
  also have "data[b := 0xFF, b + 1 := 0xFF, b + 2 := 0xFF, b + 3 := 0xFF, b + 4 := 0xFF, b + 5 := 0xFF] =
      take b data @ replicate 6 0xFF @ drop (b + 6) data"
    using assms(1) by (intro nth_equalityI) (auto simp: nth_append nth_list_update)
  finally show ?thesis .
qed

lemma decode_entry_cong:
  assumes "\<And>k. k < 6 \<Longrightarrow> xs ! k = ys ! k"
  shows "decode_entry xs = decode_entry ys"
  using assms by (simp add: decode_entry_def)

definition cleared :: DRBCC_PARTENTRY_t where
  "cleared = \<lparr>typeinfo = 0xFF, startblock = 0xFFFF, plength = 0xFFFFFF\<rparr>"

lemma table_entries_cleared:
  assumes "126 \<le> length data" and "i < 20"
  shows "table_entries (take (6 + 6 * i) data @ replicate 6 0xFF @ drop (6 + 6 * i + 6) data) =
    (table_entries data)[i := cleared]"
proof (rule nth_equalityI)
  fix j assume "j < length (table_entries (take (6 + 6 * i) data @ replicate 6 0xFF @ drop (6 + 6 * i + 6) data))"
  then have j: "j < 20" by (simp add: table_entries_def)
  let ?d = "take (6 + 6 * i) data @ replicate 6 0xFF @ drop (6 + 6 * i + 6) data"
  show "table_entries ?d ! j = (table_entries data)[i := cleared] ! j"
  proof (cases "j = i")
    case True
    have "table_entry ?d i = decode_entry (replicate 6 0xFF)"
      unfolding table_entry_def using assms by (intro decode_entry_cong) (simp add: nth_append)
    also have "\<dots> = cleared" by (simp add: decode_entry_def cleared_def)
    finally show ?thesis using True j by (simp add: table_entries_def)
  next
    case False
    have d: "?d ! (6 + 6 * j + k) = data ! (6 + 6 * j + k)" if "k < 6" for k
      using False that j assms by (auto simp: nth_append add.assoc)
    have "table_entry ?d j = table_entry data j"
      unfolding table_entry_def
    proof (rule decode_entry_cong)
      fix k :: nat assume k: "k < 6"
      have "6 + 6 * j \<le> length ?d" using assms j by simp
      then show "drop (6 + 6 * j) ?d ! k = drop (6 + 6 * j) data ! k"
        using d [OF k] assms j by (simp only: nth_drop)
    qed
    then show ?thesis using False j by (simp add: table_entries_def)
  qed
qed (simp add: table_entries_def)

definition file_target :: "DRBCC_t \<Rightarrow> bytes \<Rightarrow> nat option" where
  "file_target s data =
     (if by_index s then Some (unat (curFileIndex s))
      else find (\<lambda>i. type_matches s (table_entry data i)) [0..<20])"

definition without :: "nat option \<Rightarrow> DRBCC_PARTENTRY_t list \<Rightarrow> DRBCC_PARTENTRY_t list" where
  "without t es = (case t of None \<Rightarrow> es | Some i \<Rightarrow> es[i := cleared])"

definition table_of :: "DRBCC_PARTENTRY_t list \<Rightarrow> bytes \<Rightarrow> bool" where
  "table_of es d \<longleftrightarrow> has_magic d \<and> crc_matches d \<and> table_entries d = es"

lemma table_entry_take: "128 \<le> length d \<Longrightarrow> i < 20 \<Longrightarrow> table_entry (take 128 d) i = table_entry d i"
  unfolding table_entry_def by (intro decode_entry_cong) simp

lemma table_of_take:
  assumes "128 \<le> length d"
  shows "table_of es (take 128 d) = table_of es d"
proof -
  have "table_entries (take 128 d) = table_entries d"
    using table_entry_take [OF assms] by (simp add: table_entries_def)
  then show ?thesis using assms
    by (simp add: table_of_def has_magic_def crc_matches_def table_crc_def drop_take)
qed

lemma table_of_set_crc:
  assumes "128 \<le> length d" and "has_magic d"
  shows "table_of (table_entries d) (set_crc d)"
  using assms crc_matches_set_crc [of d]
  by (simp add: table_of_def has_magic_def table_entries_def table_entry_def)

lemma delete_entry_table:
  assumes "128 \<le> length data" and "has_magic data" and "by_index s \<Longrightarrow> curFileIndex s < 20"
  obtains d where "delete_entry data s = (d, s)" and "length d = length data" and "has_magic d"
    and "table_entries d = without (file_target s data) (table_entries data)"
proof -
  have t: "i < 20" if "file_target s data = Some i" for i
    using that assms(3) by (auto simp: file_target_def find_Some_iff word_less_nat_alt split: if_splits)
  show ?thesis
  proof (cases "file_target s data")
    case None
    then show ?thesis
      using that [of data] assms by (simp add: delete_entry_def file_target_def without_def split: if_splits)
  next
    case (Some i)
    let ?d = "take (6 + 6 * i) data @ replicate 6 0xFF @ drop (6 + 6 * i + 6) data"
    have i: "i < 20" using t [OF Some] .
    have "delete_entry data s = clear_entry (of_nat (6 + 6 * i)) (data, s)"
      using Some by (auto simp: delete_entry_def file_target_def mult.commute split: if_splits)
    also have "\<dots> = (?d, s)" using i assms(1) by (intro clear_entry_eq) simp_all
    finally show ?thesis
      using that [of ?d] table_entries_cleared [of data i] i assms Some
      by (simp add: without_def has_magic_def nth_append)
  qed
qed

text \<open>C19. Deleting a file. After the device has carried out the requests queued for a delete, both
  copies in the flash are tables with the magic number and a matching checksum whose
  entries are those of the table that was read, the chosen entry alone being cleared; nothing
  behind the two table blocks is changed, and no byte outside the buffer is written.\<close>

theorem delete_updates_table:
  assumes "no_oom s" and "flash_device carry" and "128 \<le> length data" and "126 \<le> len" and "has_magic data"
    and "by_index s \<Longrightarrow> curFileIndex s < 20"
  shows "\<exists>ms. secQueue (libdrbcc_delete 0 len data s) = secQueue s @ ms \<and>
    fault (libdrbcc_delete 0 len data s) = fault s \<and>
    table_of (without (file_target s data) (table_entries data)) (table_at 0 (fold carry ms f)) \<and>
    table_at 4096 (fold carry ms f) = table_at 0 (fold carry ms f) \<and>
    (\<forall>i \<ge> 8192. fold carry ms f i = f i)"
proof -
  let ?w = "warn_crc data s"
  have w: "by_index ?w = by_index s" "curFileIndex ?w = curFileIndex s" "no_oom ?w = no_oom s"
      "file_target ?w data = file_target s data" "secQueue ?w = secQueue s" "fault ?w = fault s"
    by (simp_all add: warn_crc_def call_error_cb_def call_cb_def by_index_def file_target_def type_matches_def no_oom_def)
  obtain d where d: "delete_entry data ?w = (d, ?w)" "length d = length data" "has_magic d"
      "table_entries d = without (file_target s data) (table_entries data)"
    using delete_entry_table [of data ?w] assms(3,5,6) w by auto
  let ?t = "store_reply (set_crc d) ?w"
  have "no_oom ?t" using assms(1) w(3) by (simp add: store_reply_def no_oom_def)
  then obtain ms where ms: "write_table (set_crc d) ?t = queued ms ?t"
      "table_at 0 (fold carry ms f) = take 128 (set_crc d)" "table_at 4096 (fold carry ms f) = take 128 (set_crc d)"
      "\<forall>i \<ge> 8192. fold carry ms f i = f i"
    using write_table_steps [of ?t "set_crc d" carry f] assms(2,3) d(2) by auto
  have "libdrbcc_delete 0 len data s = queued ms ?t"
    using d(1) ms(1) assms(4,5) by (simp add: libdrbcc_delete_def)
  moreover have "table_of (table_entries d) (take 128 (set_crc d))"
    using table_of_set_crc [of d] d assms(3) by (simp add: table_of_take)
  ultimately show ?thesis
    using ms d(4) w by (intro exI [of _ ms]) (simp add: queued_def store_reply_def)
qed

lemma new_table_ok:
  "length (build_table new_entries [x, y]) = 128" "has_magic (build_table new_entries [x, y])"
  by (simp_all add: build_table_def has_magic_def new_entries_def)

theorem delete_updates_table_witness:
  "\<exists>ms. secQueue (libdrbcc_delete 0 128 (build_table new_entries [0, 0]) zero_handle) = ms \<and>
     table_entries (table_at 0 (fold plain_device ms (\<lambda>_. 0xFF))) =
       (table_entries (build_table new_entries [0, 0]))[0 := cleared]"
  using delete_updates_table [of zero_handle, OF _ plain_device, of "build_table new_entries [0, 0]" 128 "\<lambda>_. 0xFF"]
    new_table_ok [of 0 0]
  by (auto simp: no_oom_def zero_handle_def table_of_def file_target_def by_index_def without_def)

end
