(* ===== verification/Put_File.thy ===== *)
theory Put_File
  imports Table_Update
begin

text \<open>
  Writing a file into the flash: the requests \<^verbatim>\<open>libdrbcc_put_file\<close> queues, carried out by a
  device, store the whole file in an area no other file uses and then the table that names it.
\<close>

section \<open>The image of a file\<close>

text \<open>The flash after the first \<open>n\<close> bytes of \<open>content\<close> were written from address \<open>a\<close> on, each
  block being erased before its first byte is written.\<close>

definition filed :: "nat \<Rightarrow> bytes \<Rightarrow> nat \<Rightarrow> (nat \<Rightarrow> u8) \<Rightarrow> nat \<Rightarrow> u8" where
  "filed a content n f =
     store a (take n content) (\<lambda>j. if a \<le> j \<and> j < a + (n + 4095) div 4096 * 4096 then 0xFF else f j)"

lemma blocks_cover: "n \<le> (n + 4095) div 4096 * (4096 :: nat)"
  using div_mult_mod_eq [of "n + 4095" 4096] mod_less_divisor [of 4096 "n + 4095"] by linarith

lemma filed_0 [simp]: "filed a content 0 f = f"
  by (auto simp: filed_def fun_eq_iff)

definition prepared :: "nat \<Rightarrow> nat \<Rightarrow> (nat \<Rightarrow> u8) \<Rightarrow> nat \<Rightarrow> u8" where
  "prepared fb n f = (if n mod 4096 = 0 then erased (fb + n div 4096) f else f)"

lemma roundup_chunk:
  assumes "(n :: nat) mod 128 = 0" and "0 < c" and "c \<le> 128"
  shows "(n + c + 4095) div 4096 = n div 4096 + 1"
    and "(n + 4095) div 4096 = (if n mod 4096 = 0 then n div 4096 else n div 4096 + 1)"
proof -
  define q r where "q = n div 4096" "r = n mod 4096"
  then have n: "n = 4096 * q + r" "r < 4096" by simp_all
  have "r mod 128 = 0" using assms(1) by (simp add: \<open>r = n mod 4096\<close> mod_mod_cancel)
  then obtain t where "r = 128 * t" by auto
  then have r: "r \<le> 3968" using n(2) by auto
  have "(n + c + 4095) div 4096 = q + (r + c + 4095) div 4096"
    unfolding n(1) by (simp add: add.assoc)
  moreover have "(r + c + 4095) div 4096 = 1" using r assms(2,3) by (intro div_nat_eqI) simp_all
  ultimately show "(n + c + 4095) div 4096 = n div 4096 + 1" by (simp add: \<open>q = n div 4096\<close>)
  have "(n + 4095) div 4096 = q + (r + 4095) div 4096" unfolding n(1) by (simp add: add.assoc)
  moreover have "(r + 4095) div 4096 = (if r = 0 then 0 else 1)" using n(2)
    by (auto intro!: div_nat_eqI)
  ultimately show "(n + 4095) div 4096 = (if n mod 4096 = 0 then n div 4096 else n div 4096 + 1)"
    by (simp add: \<open>q = n div 4096\<close> \<open>r = n mod 4096\<close>)
qed

lemma filed_chunk:
  assumes "n mod 128 = 0" and "n < length content" and "c = min 128 (length content - n)"
    and g: "g = filed (fb * 4096) content n f"
  shows "blank (fb * 4096 + n) c (prepared fb n g)"
    and "store (fb * 4096 + n) (take c (drop n content)) (prepared fb n g) = filed (fb * 4096) content (n + c) f"
proof -
  have c: "0 < c" "c \<le> 128" "n + c \<le> length content" using assms(2,3) by auto
  note r = roundup_chunk [OF assms(1) c(1,2)]
  define base where "base = (\<lambda>j. if fb * 4096 \<le> j \<and> j < fb * 4096 + (n div 4096 + 1) * 4096 then 0xFF else f j)"
  have p: "prepared fb n g = store (fb * 4096) (take n content) base"
  proof (cases "n mod 4096 = 0")
    case True
    then have d: "n div 4096 * 4096 = n" by auto
    have "erased (fb + n div 4096) g = (\<lambda>j. if fb * 4096 + n \<le> j \<and> j < fb * 4096 + n + 4096 then 0xFF else g j)"
      unfolding erased_def add_mult_distrib d by (simp add: add.assoc)
    moreover have "(n + 4095) div 4096 * 4096 = n" "(n div 4096 + 1) * 4096 = n + 4096"
      "length (take n content) = n" using r(2) True d assms(2) by simp_all
    ultimately show ?thesis using True
      by (auto simp: prepared_def g filed_def store_def base_def fun_eq_iff simp del: length_take)
  next
    case False
    then show ?thesis using r(2) by (simp add: prepared_def g filed_def base_def)
  qed
  have "n + c \<le> (n + c + 4095) div 4096 * 4096" by (rule blocks_cover)
  then have "n + c \<le> (n div 4096 + 1) * 4096" using r(1) by (simp only:)
  then show "blank (fb * 4096 + n) c (prepared fb n g)"
    unfolding p using assms(2) by (simp add: blank_def store_def base_def)
  have "store (fb * 4096 + length (take n content)) (take c (drop n content)) (store (fb * 4096) (take n content) base) =
      store (fb * 4096) (take n content @ take c (drop n content)) base" by (rule store_append)
  then show "store (fb * 4096 + n) (take c (drop n content)) (prepared fb n g) = filed (fb * 4096) content (n + c) f"
    unfolding p filed_def r(1) take_add base_def using assms(2) by simp
qed

section \<open>The loop over the file\<close>

definition plain_io :: "DRBCC_t \<Rightarrow> bool" where
  "plain_io s \<longleftrightarrow> (\<forall>n. ioplan s n = None)"

definition sent_off :: "DRBCC_MESSAGE_t list \<Rightarrow> nat \<Rightarrow> DRBCC_t \<Rightarrow> DRBCC_t" where
  "sent_off ms k s = (queued ms s)\<lparr>ios := ios s + k\<rparr>"

lemma sent_off_simps [simp]:
  "sent_off ns k (sent_off ms j s) = sent_off (ms @ ns) (j + k) s" "no_oom (sent_off ms k s) = no_oom s"
  "plain_io (sent_off ms k s) = plain_io s" "sent_off [] 0 s = s"
  by (simp_all add: sent_off_def queued_def no_oom_def plain_io_def)

lemma chunk_len_eq:
  assumes "unat maxlen = length content" and "unat first * 4096 + length content < 2 ^ 24"
    and "n mod 128 = 0" and "n < length content"
  shows "unat (chunk_len maxlen first (of_nat (unat first * 4096 + n))) = min 128 (length content - n)"
proof -
  have f: "first * 0x1000 = of_nat (unat first * 4096)" by simp
  have m: "maxlen = of_nat (length content)" unfolding assms(1) [symmetric] by simp
  have u: "unat (of_nat x :: u32) = x" if "x < 2 ^ 25" for x
    using that by (simp add: unat_of_nat)
  have "of_nat (unat first * 4096 + n) + CHUNK = (of_nat (unat first * 4096 + n + 128) :: u32)" by simp
  moreover have "first * 0x1000 + maxlen = of_nat (unat first * 4096 + length content)" unfolding f m by simp
  ultimately have c: "of_nat (unat first * 4096 + n) + CHUNK \<le> first * 0x1000 + maxlen \<longleftrightarrow> n + 128 \<le> length content"
    using assms(2,4) u [of "unat first * 4096 + n + 128"] u [of "unat first * 4096 + length content"]
    by (simp add: word_le_nat_alt)
  have "unat maxlen mod 128 = length content - n" if "\<not> n + 128 \<le> length content"
  proof -
    define r where "r = length content - n"
    have "length content = n + r" "r < 128" using that assms(4) by (auto simp: r_def)
    then show ?thesis using assms(1,3) by (simp add: mod_add_eq [of n 128 r, symmetric])
  qed
  then show ?thesis unfolding chunk_len_def c by (auto simp: unat_mod)
qed

lemma block_prepared:
  assumes "no_oom s" and "flash_device carry" and "unat first + n div 4096 < 65536" and "n < 2 ^ 32"
  shows "\<exists>ms. (if (of_nat n :: u32) mod 0x1000 = 0
      then snd (libdrbcc_req_flash_erase_block (of_nat n div 0x1000 + first) s) else s) = sent_off ms 0 s \<and>
    (\<forall>f. fold carry ms f = prepared (unat first) n f)"
proof -
  have u: "unat (of_nat n :: u32) = n" using assms(4) by (simp add: unat_of_nat)
  have m: "(of_nat n :: u32) mod 0x1000 = 0 \<longleftrightarrow> n mod 4096 = 0"
    by (simp add: word_unat_eq_iff unat_mod u)
  have "unat (of_nat n div 0x1000 + first) = n div 4096 + unat first"
    using assms(3) unat_add_lem [of "of_nat n div 0x1000" first] by (simp add: unat_div u)
  then obtain e where "snd (libdrbcc_req_flash_erase_block (of_nat n div 0x1000 + first) s) = queued [e] s"
      "erase_request e" "block_of e = unat first + n div 4096"
    using erase_block_queued [OF assms(1), of "of_nat n div 0x1000 + first"] assms(3) by (auto simp: add.commute)
  then show ?thesis using assms(2) unfolding m
    by (intro exI [of _ "if n mod 4096 = 0 then [e] else []"])
      (auto simp: sent_off_def prepared_def flash_device_def queued_def)
qed

lemma put_chunks_step:
  assumes "no_oom s" and "plain_io s" and dev: "flash_device carry"
    and "unat maxlen = length content" and bound: "unat first * 4096 + length content < 2 ^ 24"
    and "n mod 128 = 0" and "n < length content" and c: "c = min 128 (length content - n)"
  shows "\<exists>ms. put_chunks content maxlen first (of_nat n) (of_nat (unat first * 4096 + n)) n s =
      put_chunks content maxlen first (of_nat (n + 128)) (of_nat (unat first * 4096 + (n + c))) (n + c) (sent_off ms 1 s) \<and>
    (\<forall>f. fold carry ms (filed (unat first * 4096) content n f) = filed (unat first * 4096) content (n + c) f)"
proof -
  let ?a = "of_nat (unat first * 4096 + n) :: u32" and ?n = "of_nat c :: u32"
  have u: "unat (of_nat n :: u32) = n" "unat ?a = unat first * 4096 + n" "unat ?n = c"
    unfolding unat_of_nat using bound assms(7) c by simp_all
  have lt: "of_nat n < maxlen" using assms(4,7) u(1) by (simp add: word_less_nat_alt)
  have cl: "chunk_len maxlen first ?a = ?n"
    using chunk_len_eq [OF assms(4) bound assms(6,7)] u(3) c by (simp add: word_unat_eq_iff)
  obtain es where es: "(if (of_nat n :: u32) mod 0x1000 = 0
      then snd (libdrbcc_req_flash_erase_block (of_nat n div 0x1000 + first) s) else s) = sent_off es 0 s"
    "\<And>f. fold carry es f = prepared (unat first) n f"
    using block_prepared [OF assms(1) dev, of first n] bound assms(7) by force
  obtain block where b: "alloc_msg (sent_off es 0 s) =
      (Some block, (sent_off es 0 s)\<lparr>mallocs := Suc (mallocs (sent_off es 0 s))\<rparr>)" "length block = DRBCC_MAX_PAYLOAD"
    using alloc_msg_no_oom [of "sent_off es 0 s"] assms(1) by auto
  let ?m = "write_msg ?a ?n (take c (drop n content)) block"
  let ?s2 = "(sent_off es 0 s)\<lparr>mallocs := Suc (mallocs (sent_off es 0 s))\<rparr>"
  have rd: "sys_read content n c ?s2 = (int c, ?s2\<lparr>ios := Suc (ios ?s2)\<rparr>)"
    using assms(2,7) c by (auto simp: sys_read_def sys_call_def plain_io_def sent_off_def queued_def)
  have q: "libdrbcc_add_msg_sec ?m (?s2\<lparr>ios := Suc (ios ?s2)\<rparr>) = sent_off (es @ [?m]) 1 s"
    by (simp add: libdrbcc_add_msg_sec_def sent_off_def queued_def)
  have "put_chunks content maxlen first (of_nat n) ?a n s =
      put_chunks content maxlen first (of_nat n + CHUNK) (?a + ?n) (n + c) (sent_off (es @ [?m]) 1 s)"
    by (subst put_chunks.simps) (simp only: lt if_True es(1) b(1) cl u(3) rd q Let_def prod.case option.case simp_thms)
  moreover have "carry ?m (prepared (unat first) n (filed (unat first * 4096) content n f)) =
      filed (unat first * 4096) content (n + c) f" for f
  proof -
    note fc = filed_chunk [OF assms(6,7) c refl, of "unat first" f]
    have "length (take c (drop n content)) = unat ?n" "0 < unat ?n" "unat ?n \<le> 128" "unat ?a < 2 ^ 24"
      using c u assms(7) bound by auto
    from write_msg_device(2) [OF b(2) this dev] show ?thesis using fc unfolding u by simp
  qed
  ultimately show ?thesis using es(2)
    by (intro exI [of _ "es @ [?m]"]) (simp add: add.assoc)
qed

lemma put_chunks_run:
  assumes "no_oom s" and "plain_io s" and "flash_device carry" and "unat maxlen = length content"
    and "unat first * 4096 + length content < 2 ^ 24" and "n mod 128 = 0" and "n < length content + 128"
  shows "\<exists>ms k. put_chunks content maxlen first (of_nat n) (of_nat (unat first * 4096 + min n (length content)))
      (min n (length content)) s = (True, sent_off ms k s) \<and>
    (\<forall>f. fold carry ms (filed (unat first * 4096) content (min n (length content)) f) =
       filed (unat first * 4096) content (length content) f)"
  using assms(1,2,6,7)
proof (induction "length content + 128 - n" arbitrary: n s rule: less_induct)
  case less
  let ?l = "length content" and ?A = "unat first * 4096"
  show ?case
  proof (cases "n < ?l")
    case False
    then have "\<not> of_nat n < maxlen"
      using assms(4,5) less.prems(4) by (simp add: word_less_nat_alt unat_of_nat)
    then have "put_chunks content maxlen first (of_nat n) a j s = (True, s)" for a j
      by (subst put_chunks.simps) simp
    then show ?thesis using False by (intro exI [of _ "[]"] exI [of _ 0]) simp
  next
    case True
    define c where "c = min 128 (?l - n)"
    obtain ms where ms: "put_chunks content maxlen first (of_nat n) (of_nat (?A + n)) n s =
        put_chunks content maxlen first (of_nat (n + 128)) (of_nat (?A + (n + c))) (n + c) (sent_off ms 1 s)"
      "\<And>f. fold carry ms (filed ?A content n f) = filed ?A content (n + c) f"
      using put_chunks_step [OF less.prems(1,2) assms(3-5) less.prems(3) True c_def] by blast
    have m: "min (n + 128) ?l = n + c" "min n ?l = n" using True by (auto simp: c_def)
    obtain ns k where "put_chunks content maxlen first (of_nat (n + 128)) (of_nat (?A + (n + c))) (n + c)
        (sent_off ms 1 s) = (True, sent_off ns k (sent_off ms 1 s))"
      "\<And>f. fold carry ns (filed ?A content (n + c) f) = filed ?A content ?l f"
    proof -
      have "?l + 128 - (n + 128) < ?l + 128 - n" using True by simp
      from less.hyps [OF this, of "sent_off ms 1 s"] show ?thesis
        using that less.prems True unfolding m by auto
    qed
    then show ?thesis unfolding m(2) ms(1)
      by (intro exI [of _ "ms @ ns"] exI [of _ "1 + k"]) (simp add: ms(2))
  qed
qed

lemma put_chunks_file:
  assumes "no_oom s" and "plain_io s" and "flash_device carry" and "unat maxlen = length content"
    and "unat first * 4096 + length content < 2 ^ 24"
  shows "\<exists>ms k. put_chunks content maxlen first 0 (first * 0x1000) 0 s = (True, sent_off ms k s) \<and>
    (\<forall>f. fold carry ms f = filed (unat first * 4096) content (length content) f)"
  using put_chunks_run [OF assms, of 0] by simp

section \<open>The area and the table\<close>

lemma pick_entry_free:
  assumes "pick_entry s data = Some k"
  shows "k < 20 \<and> isEmpty (put_entries s data ! k)"
proof -
  have "case fold (pick_step s data) ks r of None \<Rightarrow> True | Some k \<Rightarrow>
      k < 20 \<and> isEmpty (release s (table_entry data k))"
    if "set ks \<subseteq> {..<20}" "case r of None \<Rightarrow> True | Some k \<Rightarrow> k < 20 \<and> isEmpty (release s (table_entry data k))"
    for ks r using that
  proof (induction ks arbitrary: r)
    case (Cons i ks)
    have "isEmpty (e\<lparr>typeinfo := 0xFF\<rparr>)" for e by (simp add: isEmpty_def EMPTY_ENTRY_def)
    then have "isEmpty (release s (table_entry data i))"
      if "isEmpty (table_entry data i) \<or> same_file s (table_entry data i)"
      using that by (auto simp: release_def)
    with Cons show ?case by (auto simp: pick_step_def Let_def split: option.splits)
  qed simp
  from this [of "[0..<20]" None] have "k < 20 \<and> isEmpty (release s (table_entry data k))"
    using assms by (simp add: pick_entry_def atLeast0LessThan)
  then show ?thesis by (simp add: put_entries_def table_entries_def)
qed

lemma plength_small: "unat (plength (table_entry data i)) < 2 ^ 24"
proof -
  have "take_bit 24 (plength (table_entry data i)) = plength (table_entry data i)"
    unfolding table_entry_def decode_entry_def
    by (rule bit_word_eqI) (auto simp: bit_simps dest: bit_imp_le_length)
  then have "unat (plength (table_entry data i)) = take_bit 24 (unat (plength (table_entry data i)))"
    by (metis unsigned_take_bit_eq)
  then show ?thesis by (metis take_bit_nat_less_exp)
qed

lemma put_to_area_stores:
  assumes "no_oom s" and "plain_io s" and "flash_device carry"
    and "fs s (curFilename s) = Some content" and "length (curFilename s) < 4096"
    and "unat (maxFilelength s) = length content"
    and "unat first * 4096 + length content < 2 ^ 24"
    and "length es = 20" and "k < 20" and "\<forall>e\<in>set es. unat (plength e) < 2 ^ 24"
  shows "\<exists>ms. secQueue (put_to_area es k first s) = secQueue s @ ms \<and>
    fault (put_to_area es k first s) = fault s \<and>
    table_of (es[k := put_table_entry s first]) (table_at 0 (fold carry ms f)) \<and>
    table_at 4096 (fold carry ms f) = table_at 0 (fold carry ms f) \<and>
    (\<forall>j \<ge> 8192. fold carry ms f j = filed (unat first * 4096) content (length content) f j)"
proof -
  define s1 where "s1 = s\<lparr>ios := Suc (ios s), fs := (fs s)(curFilename s \<mapsto> content)\<rparr>"
  have o: "sys_open False False (curFilename s) s = (True, s1)"
    using assms(2,4,5) by (simp add: sys_open_def sys_call_def plain_io_def s1_def)
  have "no_oom s1" "plain_io s1" using assms(1,2) by (simp_all add: s1_def no_oom_def plain_io_def)
  then obtain ms j where ms: "put_chunks content (maxFilelength s) first 0 (first * 0x1000) 0 s1 = (True, sent_off ms j s1)"
      "\<And>f. fold carry ms f = filed (unat first * 4096) content (length content) f"
    using put_chunks_file [of s1 carry "maxFilelength s" content first] assms by blast
  let ?s2 = "sent_off ms j s1" and ?es = "es[k := put_table_entry s first]"
  have e: "put_table_entry ?s2 first = put_table_entry s first"
    by (simp add: put_table_entry_def sent_off_def queued_def s1_def)
  have "unat (plength (put_table_entry s first)) < 2 ^ 24"
    using assms(6,7) by (simp add: put_table_entry_def)
  then have "\<forall>e\<in>set ?es. unat (plength e) < 2 ^ 24"
    using assms(10) set_update_subset_insert [of es k "put_table_entry s first"] by blast
  then have b: "table_of ?es (build_table ?es (uninit_bytes ?s2))"
    using table_built [of ?es] assms(8) by (simp add: table_of_def)
  have l: "length (build_table ?es (uninit_bytes ?s2)) = 128"
    using assms(8) by (simp add: build_table_def uninit_bytes_def)
  let ?f = "filed (unat first * 4096) content (length content) f"
  have "no_oom ?s2" using \<open>no_oom s1\<close> by simp
  then obtain ns where ns: "write_table (build_table ?es (uninit_bytes ?s2)) ?s2 = queued ns ?s2"
      "table_at 0 (fold carry ns ?f) = build_table ?es (uninit_bytes ?s2)"
      "table_at 4096 (fold carry ns ?f) = build_table ?es (uninit_bytes ?s2)"
      "\<forall>i \<ge> 8192. fold carry ns ?f i = ?f i"
    using write_table_steps [of ?s2 "build_table ?es (uninit_bytes ?s2)" carry ?f] assms(3) l by auto
  have "put_to_area es k first s = queued ns ?s2"
    using ms(1) ns(1) assms(4) unfolding put_to_area_def o e [symmetric]
    by (simp add: s1_def Let_def)
  then show ?thesis using ns b ms(2)
    by (intro exI [of _ "ms @ ns"]) (simp add: sent_off_def queued_def s1_def)
qed

lemma put_area:
  assumes "content \<noteq> []" and "unat maxlen = length content"
    and "4 \<le> c" and "c + (length content + 4095) div 4096 \<le> 1024"
    and "\<forall>x. c \<le> x \<and> x < c + (length content + 4095) div 4096 \<longrightarrow> \<not> (\<exists>e\<in>set es. occupies e x)"
    and "tbl = collect (mark_all es) junk" and "found = best_fit (requiredBlocks maxlen) tbl"
  obtains b where "0 < found" "unat (word_of_int (fu_start (tbl ! found)) :: u32) = b" "4 \<le> b"
    "b + (length content + 4095) div 4096 \<le> 1024"
    "\<And>x e. b \<le> x \<Longrightarrow> x < b + (length content + 4095) div 4096 \<Longrightarrow> e \<in> set es \<Longrightarrow> \<not> occupies e x"
proof -
  let ?n = "(length content + 4095) div 4096"
  have len: "length content < 2 ^ 23" using blocks_cover [of "length content"] assms(3,4) by simp
  have r: "requiredBlocks maxlen = int ?n"
  proof -
    have "unat (maxlen + 0xfff) = length content + 4095"
      using len assms(2) unat_add_lem [where x = maxlen and y = "0xfff"] by simp
    then have "unat ((maxlen + 0xfff) div 0x1000) = ?n" by (simp add: unat_div)
    then show ?thesis unfolding requiredBlocks_def uint_nat by (simp only:)
  qed
  have n: "1 \<le> ?n" using assms(1) by (cases content) auto
  have "found \<noteq> 0"
  proof
    assume "found = 0"
    then obtain x where "c \<le> x" "int x < int c + int ?n" "\<exists>e\<in>set es. occupies e x"
      using no_fit_blocked [of "int ?n" es junk c] assms(3,4,6,7) n unfolding r by auto
    with assms(5) show False by auto
  qed
  note ok = fit_area_ok [OF assms(6,7) this]
  let ?t = "tbl ! found"
  define b where "b = nat (fu_start ?t)"
  have t: "4 \<le> fu_start ?t" "fu_end ?t < 1024" "fu_free ?t" "int ?n \<le> fu_end ?t - fu_start ?t + 1"
    using ok by (simp_all add: area_ok_def fits_def area_size_def r)
  show thesis
  proof
    show "0 < found" using \<open>found \<noteq> 0\<close> by simp
    have "fu_start ?t = int b" "b < 1024" using t n by (auto simp: b_def)
    then show "unat (word_of_int (fu_start ?t) :: u32) = b" by (simp add: unat_of_nat)
    show "4 \<le> b" "b + ?n \<le> 1024" using t by (auto simp: b_def)
    show "\<not> occupies e x" if "b \<le> x" "x < b + ?n" "e \<in> set es" for x e
      using area_ok_free [OF ok(1) t(3), of x] that t by (auto simp: b_def)
  qed
qed

lemma warn_crc_events:
  obtains ev where "warn_crc data s = s\<lparr>events := ev\<rparr>"
proof -
  have "s = s\<lparr>events := events s\<rparr>" by simp
  then show thesis using that by (metis warn_crc_def call_error_cb_def call_cb_def)
qed

lemma put_file_effect:
  assumes "no_oom s" and "plain_io s" and "flash_device carry" and "has_magic data"
    and "fs s (curFilename s) = Some content" and "length (curFilename s) < 4096"
    and "unat (maxFilelength s) = length content" and "content \<noteq> []"
    and "list_all in_range (put_entries s data)" and "pick_entry s data = Some k"
    and "4 \<le> c" and "c + (length content + 4095) div 4096 \<le> 1024"
    and "\<forall>x. c \<le> x \<and> x < c + (length content + 4095) div 4096 \<longrightarrow>
      \<not> (\<exists>e\<in>set (put_entries s data). occupies e x)"
  shows "\<exists>ms b g. 4 \<le> unat b \<and> unat b * 4096 + length content \<le> 2 ^ 22 \<and>
    secQueue (libdrbcc_put_file 0 len data s) = secQueue s @ ms \<and>
    fault (libdrbcc_put_file 0 len data s) = fault s \<and> g = fold carry ms f \<and>
    table_of ((put_entries s data)[k := put_table_entry s b]) (table_at 0 g) \<and> table_at 4096 g = table_at 0 g \<and>
    (\<forall>j < length content. g (unat b * 4096 + j) = content ! j) \<and>
    (\<forall>e\<in>set (put_entries s data). \<forall>j \<ge> 8192. occupies e (j div 4096) \<longrightarrow> g j = f j)"
proof -
  let ?es = "put_entries s data" and ?n = "(length content + 4095) div 4096" and ?w = "warn_crc data s"
  obtain ev where w: "?w = s\<lparr>events := ev\<rparr>" by (rule warn_crc_events)
  have es: "length ?es = 20" "\<forall>e\<in>set ?es. unat (plength e) < 2 ^ 24"
    by (auto simp: put_entries_def table_entries_def release_def intro!: plength_small [simplified])
  have k: "k < 20" "isEmpty (?es ! k)" using pick_entry_free [OF assms(10)] by simp_all
  have eq: "put_entries ?w data = ?es" "pick_entry ?w data = pick_entry s data" "put_table_entry ?w = put_table_entry s"
    unfolding w by (simp_all add: put_entries_def pick_entry_def pick_step_def [abs_def] release_def [abs_def]
      same_file_def put_table_entry_def [abs_def])
  define tbl where "tbl = collect (mark_all ?es) (uninit_area ?w)"
  define found where "found = best_fit (requiredBlocks (maxFilelength s)) tbl"
  obtain b where b: "0 < found" "unat (word_of_int (fu_start (tbl ! found)) :: u32) = b" "4 \<le> b" "b + ?n \<le> 1024"
    "\<And>x e. b \<le> x \<Longrightarrow> x < b + ?n \<Longrightarrow> e \<in> set ?es \<Longrightarrow> \<not> occupies e x"
    using put_area [OF assms(8,7,11-13) tbl_def found_def] by blast
  let ?b = "word_of_int (fu_start (tbl ! found)) :: u32"
  have "\<exists>e\<in>set ?es. isEmpty e" using k es(1) nth_mem by metis
  then have "length tbl \<le> 40" unfolding tbl_def by (rule areas_bound [OF es(1)])
  then have put: "libdrbcc_put_file 0 len data s = put_to_area ?es k ?b ?w"
    using assms(4,9,10) b(1) unfolding libdrbcc_put_file_def Let_def eq
    by (simp add: found_def tbl_def) (simp add: w)
  have len: "length content \<le> ?n * 4096" by (rule blocks_cover)
  then have bound: "unat ?b * 4096 + length content < 2 ^ 24" using b(2,4) by simp
  have "no_oom ?w" "plain_io ?w" using assms(1,2) unfolding w by (simp_all add: no_oom_def plain_io_def)
  then obtain ms where ms: "secQueue (put_to_area ?es k ?b ?w) = secQueue s @ ms"
      "fault (put_to_area ?es k ?b ?w) = fault s"
      "table_of (?es[k := put_table_entry s ?b]) (table_at 0 (fold carry ms f))"
      "table_at 4096 (fold carry ms f) = table_at 0 (fold carry ms f)"
      "\<forall>j \<ge> 8192. fold carry ms f j = filed (b * 4096) content (length content) f j"
    using put_to_area_stores [of ?w carry content ?b ?es k f] assms(3,5-7) bound es k(1) unfolding w eq [unfolded w] b(2)
    by auto
  have g: "fold carry ms f (b * 4096 + j) = content ! j" if "j < length content" for j
    using ms(5) b(3) that by (simp add: filed_def store_def)
  have "fold carry ms f j = f j" if "e \<in> set ?es" "8192 \<le> j" "occupies e (j div 4096)" for e j
  proof -
    have "\<not> (b \<le> j div 4096 \<and> j div 4096 < b + ?n)" using b(5) that by blast
    then have "\<not> (b * 4096 \<le> j \<and> j < b * 4096 + ?n * 4096)"
      by (metis add_mult_distrib div_le_mono div_less_iff_less_mult nonzero_mult_div_cancel_right zero_less_numeral less_numeral_extra(3))
    then show ?thesis using ms(5) that(2) len by (auto simp: filed_def store_def)
  qed
  moreover have "b * 4096 + length content \<le> 2 ^ 22" using len b(4) by simp
  ultimately show ?thesis using ms g b(2,3) unfolding put
    by (intro exI [of _ ms] exI [of _ ?b] exI [of _ "fold carry ms f"]) simp
qed


text \<open>An empty table and a file of three bytes.\<close>

abbreviation empty_table :: bytes where
  "empty_table \<equiv> DRBCC_PART_MAGIC1 # DRBCC_PART_MAGIC2 # replicate 126 0xFF"

abbreviation put_start :: DRBCC_t where
  "put_start \<equiv> zero_handle\<lparr>fs := [''f'' \<mapsto> [1, 2, 3]], curFilename := ''f'', maxFilelength := 3\<rparr>"

lemma empty_table_entry: "i < 20 \<Longrightarrow> table_entry empty_table i = cleared"
proof -
  assume i: "i < 20"
  have "drop (6 + 6 * i) empty_table = replicate (122 - 6 * i) 0xFF" by (simp add: drop_Cons')
  with i show ?thesis by (simp add: table_entry_def decode_entry_def cleared_def)
qed

lemma put_start_entries: "put_entries put_start empty_table = replicate 20 cleared"
proof -
  have "table_entries empty_table = map (\<lambda>_. cleared) [0..<20]"
    unfolding table_entries_def by (rule map_cong) (auto intro: empty_table_entry)
  moreover have "release put_start cleared = cleared"
    by (simp add: release_def same_file_def cleared_def bits_type_def zero_handle_def)
  ultimately show ?thesis
    by (simp add: put_entries_def comp_def map_replicate_const)
qed

lemma put_start_entry: "pick_entry put_start empty_table = Some 0"
proof -
  have "isEmpty cleared" "\<not> same_file put_start cleared"
    by (simp_all add: isEmpty_def EMPTY_ENTRY_def cleared_def same_file_def bits_type_def zero_handle_def)
  then show ?thesis
    by (simp add: pick_entry_def pick_step_def empty_table_entry upt_rec Let_def)
qed


end
