(* ===== verification/Get_File.thy ===== *)
theory Get_File
  imports Put_File Proc_Msg
begin

text \<open>
  Reading a file out of the flash: \<^verbatim>\<open>drbcc_get_file\<close> and the replies of a controller that
  answers every read request with the bytes of its flash, up to the end of the session.
\<close>

section \<open>Requests and replies\<close>

text \<open>The controller is the parameter \<open>reply\<close>, from a request to the message it sends back.\<close>

definition read_request :: "DRBCC_MESSAGE_t \<Rightarrow> bool" where
  "read_request m \<longleftrightarrow> wf_msg m \<and> length (payload m) = 5 \<and>
     payload m ! 0 = cmd DRBCC_REQ_EXTFLASH_READ \<and> unat (payload m ! 4) \<le> 128"

definition flash_reader :: "(nat \<Rightarrow> u8) \<Rightarrow> (DRBCC_MESSAGE_t \<Rightarrow> DRBCC_MESSAGE_t) \<Rightarrow> bool" where
  "flash_reader f reply \<longleftrightarrow> (\<forall>m. read_request m \<longrightarrow> wf_msg (reply m) \<and>
     (\<exists>c. payload (reply m) = c # tl (payload m) @
        map f [addr24 (tl (payload m))..<addr24 (tl (payload m)) + unat (payload m ! 4)] \<and>
        c AND NOT TOGGLE_BITMASK = cmd DRBCC_IND_EXTFLASH_READ))"

definition read_size :: "u32 \<Rightarrow> u32" where
  "read_size len = (if CHUNK \<le> len then CHUNK else len mod CHUNK)"

lemma unat_read_size: "unat (read_size len) = min 128 (unat len)"
  by (simp add: read_size_def word_le_nat_alt unat_mod)

lemma flash_read_queued:
  assumes "no_oom s"
  obtains m where "snd (libdrbcc_req_flash_read addr len s) =
      (queued [m] s)\<lparr>flashAddr := addr + read_size len, flashLen := len - read_size len\<rparr>"
    "read_request m" "payload m = cmd DRBCC_REQ_EXTFLASH_READ # addr_bytes addr @ [ucast (read_size len)]"
proof -
  obtain block where a: "alloc_msg s = (Some block, s\<lparr>mallocs := Suc (mallocs s)\<rparr>)"
    "length block = DRBCC_MAX_PAYLOAD" using alloc_msg_no_oom [OF assms(1)] by blast
  let ?p = "cmd DRBCC_REQ_EXTFLASH_READ # addr_bytes addr @ [ucast (read_size len)]"
  let ?m = "new_msg 5 ?p block"
  have p: "payload ?m = ?p" by (rule payload_new_msg) simp
  moreover have "wf_msg ?m" by (rule wf_new_msg) (use a in simp_all)
  moreover have "unat (ucast (read_size len) :: u8) \<le> 128"
    using unat_read_size [of len] by (simp add: unsigned_ucast_eq take_bit_eq_mod)
  ultimately have "read_request ?m" by (simp add: read_request_def nth_append nth_Cons')
  with p that [of ?m] a show thesis
    by (simp add: libdrbcc_req_flash_read_def libdrbcc_add_msg_sec_def queued_def read_size_def Let_def)
qed

lemma word24_addr_bytes:
  assumes "unat a < 2 ^ 24"
  shows "word24 (byte_of 16 a) (byte_of 8 a) (byte_of 0 a) = a"
proof (rule bit_word_eqI)
  fix n assume "n < LENGTH(32)"
  have "take_bit 24 (unat a) = unat a" using assms by (simp add: take_bit_nat_eq_self)
  then have "take_bit 24 a = a" by (metis unsigned_take_bit_eq word_unat_eq_iff)
  then have "bit a n = (n < 24 \<and> bit a n)" by (metis bit_take_bit_iff)
  moreover have m: "(0xFF :: u32) = mask 8" by (simp add: mask_eq_exp_minus_1)
  ultimately show "bit (word24 (byte_of 16 a) (byte_of 8 a) (byte_of 0 a)) n = bit a n"
    unfolding word24_def byte_of_def m by (cases "16 \<le> n") (auto simp: bit_simps)
qed

lemma reply_processed:
  assumes "flash_reader f reply" and "read_request m"
    and "payload m = cmd DRBCC_REQ_EXTFLASH_READ # addr_bytes a @ [ucast n]" and "unat a < 2 ^ 24" and "unat n \<le> 128"
    and "CHECK_HANDLE s = None" and "\<not> cbs s read_flash_cb" and "cur_msg s = reply m"
  obtains data where "snd (libdrbcc_proc_msg s) = libdrbcc_readflash_cb a n data s"
    "length data = 140" "take (unat n) data = map f [unat a..<unat a + unat n]"
proof -
  have n: "unat (ucast n :: u8) = unat n" "ucast (ucast n :: u8) = n"
    using assms(5) by (simp_all add: unsigned_ucast_eq take_bit_eq_mod word_unat_eq_iff unat_mod)
  obtain c where r: "wf_msg (reply m)"
      "payload (reply m) = c # addr_bytes a @ [ucast n] @ map f [unat a..<unat a + unat n]"
      "c AND NOT TOGGLE_BITMASK = cmd DRBCC_IND_EXTFLASH_READ"
    using assms(1,2) addr24_addr_bytes [OF assms(4)]
    by (auto simp: flash_reader_def assms(3) n nth_append nth_Cons')
  let ?msg = "msg (reply m)" and ?l = "unat (msg_len (reply m))"
  have l: "length ?msg = 145" "?l \<le> 145" using r(1) by (simp_all add: wf_msg_def)
  have len: "?l = unat n + 5" using arg_cong [OF r(2), of length] l by (simp add: payload_def)
  have p: "take ?l ?msg = c # addr_bytes a @ [ucast n] @ map f [unat a..<unat a + unat n]"
    using r(2) by (simp only: payload_def)
  have nth: "?msg ! k = (c # addr_bytes a @ [ucast n]) ! k" if "k < 5" for k
  proof -
    have "?msg ! k = take ?l ?msg ! k" using that len by simp
    then show ?thesis using that unfolding p by (simp add: nth_append nth_Cons')
  qed
  have "take (unat n) (drop 5 ?msg) = drop 5 (take ?l ?msg)" by (simp add: len drop_take)
  also have "\<dots> = map f [unat a..<unat a + unat n]" unfolding p by (simp add: addr_bytes_def)
  finally have d: "take (unat n) (drop 5 ?msg) = map f [unat a..<unat a + unat n]" .
  have k: "?msg ! 0 = c" "?msg ! 1 = byte_of 16 a" "?msg ! 2 = byte_of 8 a" "?msg ! 3 = byte_of 0 a" "?msg ! 4 = ucast n"
    using nth [of 0] nth [of 1] nth [of 2] nth [of 3] nth [of 4] by (simp_all add: addr_bytes_def)
  have "snd (libdrbcc_proc_msg s) = proc_dispatch (cmd DRBCC_IND_EXTFLASH_READ) s"
    using assms(6,8) k(1) r(3) by (simp add: libdrbcc_proc_msg_def)
  also have "\<dots> = proc_extflash_read s" by (simp add: proc_dispatch_def)
  also have "\<dots> = libdrbcc_readflash_cb a n (drop 5 ?msg) s"
    using assms(7,8) len n k word24_addr_bytes [OF assms(4)] by (simp add: proc_extflash_read_def Let_def)
  finally show thesis using that [of "drop 5 ?msg"] d l by simp
qed

section \<open>The transfer\<close>

text \<open>One round: the controller takes the next request and the library processes the reply.\<close>

definition get_round :: "(DRBCC_MESSAGE_t \<Rightarrow> DRBCC_MESSAGE_t) \<Rightarrow> DRBCC_t \<Rightarrow> DRBCC_t" where
  "get_round reply s =
     (case secQueue s of
        [] \<Rightarrow> s
      | m # q \<Rightarrow> snd (libdrbcc_proc_msg (s\<lparr>secQueue := q, cur_msg := reply m\<rparr>)))"

text \<open>The file of \<open>l\<close> bytes at address \<open>a\<close> is being read and \<open>d\<close> bytes of it have arrived; the
  next read request is queued.\<close>

definition file_state :: "string \<Rightarrow> bool \<Rightarrow> DRBCC_t \<Rightarrow> bool" where
  "file_state name flt s \<longleftrightarrow> no_oom s \<and> plain_io s \<and> CHECK_HANDLE s = None \<and> \<not> cbs s read_flash_cb \<and>
     \<not> retry s \<and> curFilename s = name \<and> fault s = flt"

definition getting :: "(nat \<Rightarrow> u8) \<Rightarrow> string \<Rightarrow> nat \<Rightarrow> nat \<Rightarrow> nat \<Rightarrow> bool \<Rightarrow> DRBCC_t \<Rightarrow> bool" where
  "getting f name a l d flt s \<longleftrightarrow> file_state name flt s \<and> state s = DRBCC_STATE_GET_FILE \<and>
     fs s name = Some (map f [a..<a + d]) \<and>
     curFilestart s = of_nat a \<and> curFilelength s = of_nat d \<and> maxFilelength s = of_nat l \<and>
     flashAddr s = of_nat (a + min l (d + 128)) \<and> flashLen s = of_nat (l - (d + 128)) \<and>
     (\<exists>m. secQueue s = [m] \<and> read_request m \<and>
        payload m = cmd DRBCC_REQ_EXTFLASH_READ # addr_bytes (of_nat (a + d)) @ [ucast (of_nat (min 128 (l - d)) :: u32)])"

definition got :: "(nat \<Rightarrow> u8) \<Rightarrow> string \<Rightarrow> nat \<Rightarrow> nat \<Rightarrow> bool \<Rightarrow> DRBCC_t \<Rightarrow> bool" where
  "got f name a l flt s \<longleftrightarrow> fs s name = Some (map f [a..<a + l]) \<and> state s = DRBCC_STATE_USER \<and>
     session s = 0 \<and> secQueue s = [] \<and> fault s = flt"

lemma patch_append: "patch (length c) bs c = c @ bs"
  by (simp add: patch_def)

lemma get_file_data_eq:
  assumes "plain_io s" and "length (curFilename s) < 4096" and "fs s (curFilename s) = Some c"
    and "unat (addr - curFilestart s) = length c" and "unat len \<le> length data" and bs: "bs = take (unat len) data"
  obtains k ev where "get_file_data addr len data s =
    (let s1 = s\<lparr>ios := ios s + k, fs := (fs s)(curFilename s \<mapsto> c @ bs),
                curFilelength := curFilelength s + len, events := ev\<rparr>
     in if curFilelength s1 = maxFilelength s1
        then fail_session ''Get flash file successfully done'' (s1\<lparr>state := DRBCC_STATE_USER\<rparr>)
        else snd (libdrbcc_req_flash_read (flashAddr s1) (flashLen s1) s1))"
proof -
  define s1 where "s1 = s\<lparr>ios := Suc (ios s), fs := (fs s)(curFilename s \<mapsto> c)\<rparr>"
  have o: "sys_open True False (curFilename s) s = (True, s1)"
    using assms(1-3) by (simp add: sys_open_def sys_call_def plain_io_def s1_def)
  define s2 where "s2 = s1\<lparr>ios := Suc (ios s1)\<rparr>"
  have c: "sys_call (length c) s1 = (int (length c), s2)"
    using assms(1) by (simp add: sys_call_def plain_io_def s1_def s2_def)
  define s3 where "s3 = s2\<lparr>ios := Suc (ios s2), fs := (fs s)(curFilename s \<mapsto> c @ bs)\<rparr>"
  have w: "sys_write_at (curFilename s2) (length c) bs s2 = (int (unat len), s3)"
    using assms(1,5,6) by (simp add: sys_write_at_def sys_call_def plain_io_def s1_def s2_def s3_def patch_append)
  have f: "fetch (Some data) 0 (unat len) s2 = (bs, s2)" using assms(5,6) by (simp add: fetch_def)
  have off: "unat (addr - curFilestart s1) = length c" using assms(4) by (simp add: s1_def)
  show thesis
    by (rule that [where k = "Suc (Suc (Suc 0))" and ev = "events (call_cb progress_cb (Ev_progress (curFilelength s + len) (maxFilelength s)) s)"])
      (simp add: get_file_data_def o off c f w Let_def, simp add: s3_def s2_def s1_def call_cb_def)
qed

lemma unat_small: "k < 2 ^ 32 \<Longrightarrow> unat (of_nat k :: u32) = k"
  by (simp add: unat_of_nat)

lemma getting_data:
  assumes "flash_reader f reply" and "getting f name a l d flt s" and "d < l"
    and "length name < 4096" and "8192 \<le> a" and "a + l < 2 ^ 24" and n: "n = min 128 (l - d)"
  obtains k ev c where "get_round reply s =
    (let s1 = s\<lparr>secQueue := [], cur_msg := c, retry := False, ios := ios s + k,
                fs := (fs s)(name \<mapsto> map f [a..<a + (d + n)]), curFilelength := of_nat (d + n), events := ev\<rparr>
     in if d + n = l
        then fail_session ''Get flash file successfully done'' (s1\<lparr>state := DRBCC_STATE_USER\<rparr>)
        else snd (libdrbcc_req_flash_read (of_nat (a + (d + 128))) (of_nat (l - (d + 128))) s1))"
proof -
  obtain m where m: "secQueue s = [m]" "read_request m" "payload m = cmd DRBCC_REQ_EXTFLASH_READ #
      addr_bytes (of_nat (a + d)) @ [ucast (of_nat n :: u32)]"
    using assms(2) n by (auto simp: getting_def)
  have st: "file_state name flt s" "state s = DRBCC_STATE_GET_FILE" "fs s name = Some (map f [a..<a + d])"
    "curFilestart s = of_nat a" "curFilelength s = of_nat d" "maxFilelength s = of_nat l"
    "flashAddr s = of_nat (a + min l (d + 128))" "flashLen s = of_nat (l - (d + 128))"
    using assms(2) by (simp_all add: getting_def)
  have u: "unat (of_nat (a + d) :: u32) = a + d" "unat (of_nat n :: u32) = n" "unat (of_nat d :: u32) = d"
    unfolding unat_of_nat using assms(3,6) n by simp_all
  define s' where "s' = s\<lparr>secQueue := [], cur_msg := reply m\<rparr>"
  have "CHECK_HANDLE s' = None" "\<not> cbs s' read_flash_cb" "cur_msg s' = reply m"
    using st(1) by (auto simp: file_state_def s'_def CHECK_HANDLE_def split: if_splits)
  then obtain data where data: "snd (libdrbcc_proc_msg s') = libdrbcc_readflash_cb (of_nat (a + d)) (of_nat n) data s'"
      "length data = 140" "take n data = map f [a + d..<a + d + n]"
    using reply_processed [OF assms(1) m(2,3)] u assms(3,6) n by auto
  define s2 where "s2 = s'\<lparr>retry := False\<rparr>"
  have "of_nat (a + d) \<noteq> (0 :: u32)" "of_nat (a + d) \<noteq> (4096 :: u32)"
    using assms(5) u(1) by (auto simp: word_unat_eq_iff)
  then have "get_round reply s = get_file_data (of_nat (a + d)) (of_nat n) data s2"
    using m(1) data(1) st(1,2) by (simp add: get_round_def s'_def s2_def libdrbcc_readflash_cb_def
      libdrbcc_get_file_def file_state_def)
  moreover have "plain_io s2" "curFilename s2 = name" "fs s2 (curFilename s2) = Some (map f [a..<a + d])"
      "unat (of_nat (a + d) - curFilestart s2) = length (map f [a..<a + d])" "unat (of_nat n :: u32) \<le> length data"
    using st u data(2) n by (simp_all add: s2_def s'_def file_state_def plain_io_def)
  ultimately obtain k ev where r: "get_round reply s =
    (let s1 = s2\<lparr>ios := ios s2 + k, fs := (fs s2)(name \<mapsto> map f [a..<a + d] @ take n data),
                curFilelength := curFilelength s2 + of_nat n, events := ev\<rparr>
     in if curFilelength s1 = maxFilelength s1
        then fail_session ''Get flash file successfully done'' (s1\<lparr>state := DRBCC_STATE_USER\<rparr>)
        else snd (libdrbcc_req_flash_read (flashAddr s1) (flashLen s1) s1))"
    using get_file_data_eq [of s2 "map f [a..<a + d]" "of_nat (a + d)" "of_nat n" data, OF _ _ _ _ _ refl] assms(4) u(2)
    by metis
  have e: "(of_nat (d + n) :: u32) = of_nat l \<longleftrightarrow> d + n = l"
    using n assms(3,6) by (simp add: word_unat_eq_iff unat_small del: of_nat_add)
  have fa: "flashAddr s = of_nat (a + (d + 128))" if "d + n \<noteq> l"
  proof -
    have "min l (d + 128) = d + 128" using that n assms(3) by linarith
    then show ?thesis using st(7) by simp
  qed
  define s1 where "s1 = s\<lparr>secQueue := [], cur_msg := reply m, retry := False, ios := ios s + k,
    fs := (fs s)(name \<mapsto> map f [a..<a + (d + n)]), curFilelength := of_nat (d + n), events := ev\<rparr>"
  have q: "s2\<lparr>ios := ios s2 + k, fs := (fs s2)(name \<mapsto> map f [a..<a + d] @ take n data),
      curFilelength := curFilelength s2 + of_nat n, events := ev\<rparr> = s1"
    using st(5) data(3) by (simp add: s2_def s'_def s1_def upt_add_eq_append [of a "a + d" n] flip: add.assoc)
  have s1: "curFilelength s1 = of_nat (d + n)" "maxFilelength s1 = of_nat l" "flashAddr s1 = flashAddr s"
      "flashLen s1 = of_nat (l - (d + 128))"
    unfolding s1_def using st by simp_all
  have "get_round reply s = (if d + n = l
      then fail_session ''Get flash file successfully done'' (s1\<lparr>state := DRBCC_STATE_USER\<rparr>)
      else snd (libdrbcc_req_flash_read (of_nat (a + (d + 128))) (of_nat (l - (d + 128))) s1))"
    unfolding r [unfolded q Let_def s1 e] using fa by (intro if_cong refl) (simp only: simp_thms)
  then show thesis by (intro that [where k = k and ev = ev and c = "reply m"]) (simp only: s1_def Let_def)
qed

lemma file_state_queued:
  "file_state name flt s \<Longrightarrow> file_state name flt ((queued ms s)\<lparr>flashAddr := x, flashLen := y\<rparr>)"
  by (auto simp: file_state_def queued_def no_oom_def plain_io_def CHECK_HANDLE_def split: if_splits)

lemma getting_next:
  assumes "file_state name flt s" and "state s = DRBCC_STATE_GET_FILE" and "fs s name = Some (map f [a..<a + d])"
    and "secQueue s = []" and "curFilestart s = of_nat a" and "curFilelength s = of_nat d" and "maxFilelength s = of_nat l"
    and "d < l" and "a + l < 2 ^ 24"
  shows "getting f name a l d flt (snd (libdrbcc_req_flash_read (of_nat (a + d)) (of_nat (l - d)) s))"
proof -
  have "no_oom s" using assms(1) by (simp add: file_state_def)
  obtain m where m: "snd (libdrbcc_req_flash_read (of_nat (a + d)) (of_nat (l - d)) s) =
      (queued [m] s)\<lparr>flashAddr := of_nat (a + d) + read_size (of_nat (l - d)),
        flashLen := of_nat (l - d) - read_size (of_nat (l - d))\<rparr>" "read_request m"
    "payload m = cmd DRBCC_REQ_EXTFLASH_READ # addr_bytes (of_nat (a + d)) @ [ucast (read_size (of_nat (l - d)))]"
    using flash_read_queued [OF \<open>no_oom s\<close>] by blast
  have "unat (of_nat (l - d) :: u32) = l - d" by (rule unat_small) (use assms(9) in simp)
  then have "unat (read_size (of_nat (l - d))) = min 128 (l - d)" by (simp only: unat_read_size)
  then have rs: "read_size (of_nat (l - d)) = of_nat (min 128 (l - d))" by (simp add: word_unat_eq_iff unat_small)
  have "of_nat (a + d) + read_size (of_nat (l - d)) = (of_nat (a + min l (d + 128)) :: u32)"
    unfolding rs of_nat_add [symmetric] using assms(8) by (intro arg_cong [where f = of_nat]) linarith
  moreover have "of_nat (l - d) - read_size (of_nat (l - d)) = (of_nat (l - (d + 128)) :: u32)"
    unfolding rs by (simp add: min_def flip: of_nat_diff)
  ultimately have t: "snd (libdrbcc_req_flash_read (of_nat (a + d)) (of_nat (l - d)) s) =
      (queued [m] s)\<lparr>flashAddr := of_nat (a + min l (d + 128)), flashLen := of_nat (l - (d + 128))\<rparr>"
    using m(1) by (simp only:)
  show ?thesis unfolding getting_def t using assms(2-7) m(2,3) rs
    by (simp add: file_state_queued [OF assms(1)]) (simp add: queued_def)
qed

lemma getting_round:
  assumes "flash_reader f reply" and "getting f name a l d flt s" and "d < l"
    and "length name < 4096" and "8192 \<le> a" and "a + l < 2 ^ 24"
  shows "if l \<le> d + 128 then got f name a l flt (get_round reply s)
    else getting f name a l (d + 128) flt (get_round reply s)"
proof -
  define n where "n = min 128 (l - d)"
  obtain k ev c where r: "get_round reply s =
    (let s1 = s\<lparr>secQueue := [], cur_msg := c, retry := False, ios := ios s + k,
                fs := (fs s)(name \<mapsto> map f [a..<a + (d + n)]), curFilelength := of_nat (d + n), events := ev\<rparr>
     in if d + n = l
        then fail_session ''Get flash file successfully done'' (s1\<lparr>state := DRBCC_STATE_USER\<rparr>)
        else snd (libdrbcc_req_flash_read (of_nat (a + (d + 128))) (of_nat (l - (d + 128))) s1))"
    using getting_data [OF assms n_def] by blast
  define s1 where "s1 = s\<lparr>secQueue := [], cur_msg := c, retry := False, ios := ios s + k,
                fs := (fs s)(name \<mapsto> map f [a..<a + (d + n)]), curFilelength := of_nat (d + n), events := ev\<rparr>"
  have st: "file_state name flt s" using assms(2) by (simp add: getting_def)
  show ?thesis
  proof (cases "l \<le> d + 128")
    case True
    then have e: "d + n = l" using assms(3) by (simp add: n_def)
    then have "get_round reply s = fail_session ''Get flash file successfully done'' (s1\<lparr>state := DRBCC_STATE_USER\<rparr>)"
      by (subst r) (simp add: s1_def)
    then show ?thesis using True st e
      by (simp add: got_def fail_session_def end_session_def call_error_cb_def call_cb_def s1_def file_state_def)
  next
    case False
    then have e: "n = 128" by (simp add: n_def)
    have "file_state name flt s1"
      using st by (auto simp: file_state_def s1_def no_oom_def plain_io_def CHECK_HANDLE_def split: if_splits)
    have "get_round reply s = snd (libdrbcc_req_flash_read (of_nat (a + (d + 128))) (of_nat (l - (d + 128))) s1)"
      using False e by (subst r) (simp add: s1_def)
    moreover have "state s1 = DRBCC_STATE_GET_FILE" "fs s1 name = Some (map f [a..<a + (d + 128)])" "secQueue s1 = []"
        "curFilestart s1 = of_nat a" "curFilelength s1 = of_nat (d + 128)" "maxFilelength s1 = of_nat l"
      using assms(2) e by (simp_all add: s1_def getting_def)
    ultimately have "getting f name a l (d + 128) flt (get_round reply s)"
      using getting_next [OF \<open>file_state name flt s1\<close>, of f a "d + 128" l] assms(6) False by simp
    then show ?thesis using False by simp
  qed
qed

lemma getting_run:
  assumes "flash_reader f reply" and "length name < 4096" and "8192 \<le> a" and "a + l < 2 ^ 24"
    and "getting f name a l d flt s" and "d < l"
  shows "got f name a l flt ((get_round reply ^^ ((l - d + 127) div 128)) s)"
  using assms(5,6)
proof (induction "l - d" arbitrary: d s rule: less_induct)
  case less
  note r = getting_round [OF assms(1) less.prems assms(2-4)]
  show ?case
  proof (cases "l \<le> d + 128")
    case True
    then have "(l - d + 127) div 128 = Suc 0" using less.prems(2) by (intro div_nat_eqI) simp_all
    then show ?thesis using r True by (simp only: funpow.simps comp_def id_apply if_True)
  next
    case False
    then have "(l - d + 127) div 128 = Suc ((l - (d + 128) + 127) div 128)" by linarith
    then show ?thesis using less.hyps [of "d + 128" "get_round reply s"] r False
      by (simp only: funpow_Suc_right comp_def) simp
  qed
qed

section \<open>The whole operation\<close>

definition file_bytes :: "DRBCC_PARTENTRY_t \<Rightarrow> nat" where
  "file_bytes e = (if bits_blocktype e \<noteq> 0 then unat (plength e) * 4096 else unat (plength e))"

lemma wanted_entry_eq:
  assumes "128 \<le> length data" and "file_target s (take 128 data) = Some i" and "i < 20"
  shows "wanted_entry data s = (table_entry (take 128 data) i,
    s\<lparr>curFilelength := 0, maxFilelength := plength (table_entry (take 128 data) i)\<rparr>)"
proof (cases "by_index s")
  case True
  then have i: "unat (curFileIndex s) = i" using assms(2) by (simp add: file_target_def)
  then have "6 + curFileIndex s * 6 = of_nat (6 + 6 * i)" by auto
  then have "unat (6 + curFileIndex s * 6) = 6 + 6 * i" 
    by (simp only:) (rule unat_small, use assms(3) in simp)
  then show ?thesis using True assms(1,3)
    by (simp add: wanted_entry_def table_entry_take Let_def) (simp add: table_entry_def)
next
  case False
  have "find (\<lambda>i. type_matches s (table_entry data i)) [0..<20] =
      find (\<lambda>i. type_matches s (table_entry (take 128 data) i)) [0..<20]"
    using assms(1) by (intro find_cong) (simp_all add: table_entry_take)
  then show ?thesis using False assms by (simp add: wanted_entry_def file_target_def table_entry_take)
qed

lemma file_target_cong:
  "curFileIndex s = curFileIndex t \<Longrightarrow> curFileType s = curFileType t \<Longrightarrow> file_target s d = file_target t d"
  by (simp add: file_target_def by_index_def type_matches_def)

lemma table_reply:
  assumes "flash_reader f reply" and "file_state name flt s" and "state s = DRBCC_STATE_GET_FILE"
    and "fs s name = Some []" and "has_magic (table_at 0 f)" and "file_target s (table_at 0 f) = Some i" "i < 20"
    and e: "e = table_entry (table_at 0 f) i" and "\<not> isEmpty e" and "0 < plength e"
    and "unat (startblock e) * 4096 + file_bytes e < 2 ^ 24"
    and m: "secQueue s = [m]" "read_request m" "payload m = cmd DRBCC_REQ_EXTFLASH_READ # addr_bytes 0 @ [ucast (128 :: u32)]"
  shows "getting f name (unat (startblock e) * 4096) (file_bytes e) 0 flt (get_round reply s)"
proof -
  let ?a = "unat (startblock e) * 4096" and ?l = "file_bytes e"
  define s' where "s' = s\<lparr>secQueue := [], cur_msg := reply m\<rparr>"
  have "CHECK_HANDLE s' = None" "\<not> cbs s' read_flash_cb" "cur_msg s' = reply m"
    using assms(2) by (auto simp: file_state_def s'_def CHECK_HANDLE_def split: if_splits)
  then obtain data where data: "snd (libdrbcc_proc_msg s') = libdrbcc_readflash_cb 0 128 data s'" "length data = 140"
      "take 128 data = table_at 0 f"
    using reply_processed [OF assms(1) m(2,3)] by (auto simp: table_at_def)
  have magic: "has_magic data" using assms(5) data(2) unfolding data(3) [symmetric] by (simp add: has_magic_def)
  obtain ev where w: "warn_crc data (s'\<lparr>retry := False\<rparr>) = s'\<lparr>retry := False, events := ev\<rparr>"
    by (rule warn_crc_events)
  let ?w = "s'\<lparr>retry := False, events := ev\<rparr>"
  have "file_target ?w (take 128 data) = Some i"
    unfolding data(3) using file_target_cong [of ?w s] assms(6) by (simp add: s'_def)
  then have we: "wanted_entry data ?w = (e, ?w\<lparr>curFilelength := 0, maxFilelength := plength e\<rparr>)"
    using wanted_entry_eq [of data ?w i] assms(7) data(2) unfolding e data(3) by simp
  define s2 where "s2 = s\<lparr>secQueue := [], cur_msg := reply m, retry := False, events := ev, curFilelength := 0,
    curFilestart := of_nat ?a, maxFilelength := of_nat ?l\<rparr>"
  have "get_round reply s = libdrbcc_get_file 0 128 data (s'\<lparr>retry := False\<rparr>)"
    using m(1) data(1) assms(2,3) magic
    by (simp add: get_round_def s'_def libdrbcc_readflash_cb_def file_state_def)
  also have "\<dots> = snd (libdrbcc_req_flash_read (of_nat ?a) (of_nat ?l) s2)"
    using magic assms(9,10) by (simp add: libdrbcc_get_file_def w we) (simp add: s'_def s2_def file_bytes_def)
  finally have "get_round reply s = snd (libdrbcc_req_flash_read (of_nat ?a) (of_nat ?l) s2)" .
  moreover have "file_state name flt s2"
    using assms(2) by (auto simp: file_state_def s2_def no_oom_def plain_io_def CHECK_HANDLE_def split: if_splits)
  moreover have "0 < ?l" using assms(10) by (simp add: file_bytes_def word_less_nat_alt)
  ultimately show ?thesis
    using getting_next [of name flt s2 f ?a 0 ?l] assms(3,4,11) by (simp add: s2_def)
qed

lemma get_file_effect:
  assumes "no_oom s" and "plain_io s" and "file_guard s = None" and "secQueue s = []" and "\<not> retry s"
    and "length name < 4096" and "flash_reader f reply" and "has_magic (table_at 0 f)"
    and "file_target (set_file index DRBCC_STATE_GET_FILE s) (table_at 0 f) = Some i" and "i < 20"
    and "e = table_entry (table_at 0 f) i" and "\<not> isEmpty e" and "0 < plength e" and "2 \<le> startblock e"
    and "unat (startblock e) * 4096 + file_bytes e < 2 ^ 24"
  shows "got f name (unat (startblock e) * 4096) (file_bytes e) (fault s)
    ((get_round reply ^^ Suc ((file_bytes e + 127) div 128)) (snd (drbcc_get_file index name True s)))"
proof -
  define s1 where "s1 = set_file index DRBCC_STATE_GET_FILE (take_session True
    (s\<lparr>ios := Suc (ios s), fs := (fs s)(name \<mapsto> []), curFilename := name\<rparr>))"
  have "drbcc_get_file index name True s = libdrbcc_req_flash_read 0 128 s1"
    using assms(2,3,6) by (simp add: drbcc_get_file_def sys_open_def sys_call_def plain_io_def s1_def
      libdrbcc_request_partition_def split: option.split)
  moreover have fs1: "file_state name (fault s) s1"
    using assms(1-3,5) by (auto simp: file_state_def s1_def set_file_def take_session_def no_oom_def plain_io_def
      file_guard_def CHECK_HANDLE_def split: option.splits if_splits)
  moreover from this obtain m where m: "snd (libdrbcc_req_flash_read 0 128 s1) =
      (queued [m] s1)\<lparr>flashAddr := 0 + read_size 128, flashLen := 128 - read_size 128\<rparr>"
      "read_request m" "payload m = cmd DRBCC_REQ_EXTFLASH_READ # addr_bytes 0 @ [ucast (read_size 128)]"
    using flash_read_queued [of s1 0 128] by (auto simp: file_state_def)
  define s2 where "s2 = (queued [m] s1)\<lparr>flashAddr := 0 + read_size 128, flashLen := 128 - read_size 128\<rparr>"
  ultimately have start: "snd (drbcc_get_file index name True s) = s2"
    using m(1) by (simp add: s2_def)
  have "file_state name (fault s) s2" unfolding s2_def by (rule file_state_queued [OF fs1])
  moreover have "state s2 = DRBCC_STATE_GET_FILE" "fs s2 name = Some []" "secQueue s2 = [m]"
    using assms(4) by (simp_all add: s2_def s1_def queued_def set_file_def take_session_def)
  moreover have "file_target s2 (table_at 0 f) = Some i"
    by (rule trans [OF file_target_cong assms(9)])
      (simp_all add: s2_def s1_def queued_def set_file_def take_session_def)
  moreover have "payload m = cmd DRBCC_REQ_EXTFLASH_READ # addr_bytes 0 @ [ucast (128 :: u32)]"
    using m(3) by (simp add: read_size_def)
  ultimately have "getting f name (unat (startblock e) * 4096) (file_bytes e) 0 (fault s) (get_round reply s2)"
    using table_reply [OF assms(7), of name "fault s" s2 i e m] assms(8,10-13,15) m(2) by blast
  moreover have "0 < file_bytes e" "8192 \<le> unat (startblock e) * 4096"
    using assms(13,14) by (simp_all add: file_bytes_def word_less_nat_alt word_le_nat_alt)
  ultimately show ?thesis
    using getting_run [OF assms(7,6), of "unat (startblock e) * 4096" "file_bytes e" 0 "fault s" "get_round reply s2"] assms(15)
    unfolding start funpow_Suc_right comp_def by simp
qed

text \<open>C5. Reading a file. Started on an idle handle, with a controller that answers each read request
  with the bytes of its flash, \<^verbatim>\<open>drbcc_get_file\<close> ends after one reply for the table and one
  for every 128 bytes of the file: the local file then is exactly the file in the flash, the
  session is closed, nothing remains queued and no access went out of bounds.\<close>

theorem get_file_reads:
  assumes "no_oom s" and "plain_io s" and "file_guard s = None" and "secQueue s = []" and "\<not> retry s"
    and "length name < 4096" and "flash_reader f reply" and "has_magic (table_at 0 f)"
    and "file_target (set_file index DRBCC_STATE_GET_FILE s) (table_at 0 f) = Some i" and "i < 20"
    and "e = table_entry (table_at 0 f) i" and "\<not> isEmpty e" and "0 < plength e" and "2 \<le> startblock e"
    and "unat (startblock e) * 4096 + file_bytes e < 2 ^ 24"
  shows "got f name (unat (startblock e) * 4096) (file_bytes e) (fault s)
    ((get_round reply ^^ Suc ((file_bytes e + 127) div 128)) (snd (drbcc_get_file index name True s)))"
  using assms by (rule get_file_effect)

text \<open>A controller, and a flash with one file of three bytes.\<close>

definition plain_reply :: "(nat \<Rightarrow> u8) \<Rightarrow> DRBCC_MESSAGE_t \<Rightarrow> DRBCC_MESSAGE_t" where
  "plain_reply f m =
     (let p = cmd DRBCC_IND_EXTFLASH_READ # tl (payload m) @
            map f [addr24 (tl (payload m))..<addr24 (tl (payload m)) + unat (payload m ! 4)]
      in new_msg (of_nat (length p)) p (replicate DRBCC_MAX_PAYLOAD 0))"

lemma plain_reply_reader: "flash_reader f (plain_reply f)"
  unfolding flash_reader_def
proof (intro allI impI)
  fix m assume m: "read_request m"
  let ?p = "cmd DRBCC_IND_EXTFLASH_READ # tl (payload m) @
    map f [addr24 (tl (payload m))..<addr24 (tl (payload m)) + unat (payload m ! 4)]"
  have l: "length ?p = 5 + unat (payload m ! 4)" "unat (payload m ! 4) \<le> 128" using m by (simp_all add: read_request_def)
  then have u: "unat (of_nat (length ?p) :: u8) = length ?p" unfolding l(1) unat_of_nat by simp
  have "wf_msg (plain_reply f m)" unfolding plain_reply_def Let_def
    by (rule wf_new_msg) (use l u in simp_all)
  moreover have "payload (plain_reply f m) = ?p" unfolding plain_reply_def Let_def
    by (rule payload_new_msg) (use u in simp)
  ultimately show "wf_msg (plain_reply f m) \<and> (\<exists>c. payload (plain_reply f m) = c # tl (payload m) @
        map f [addr24 (tl (payload m))..<addr24 (tl (payload m)) + unat (payload m ! 4)] \<and>
        c AND NOT TOGGLE_BITMASK = cmd DRBCC_IND_EXTFLASH_READ)" by simp
qed

definition one_file :: "DRBCC_PARTENTRY_t list" where
  "one_file = (replicate 20 cleared)[0 := \<lparr>typeinfo = 0, startblock = 4, plength = 3\<rparr>]"

definition flash_one :: "nat \<Rightarrow> u8" where
  "flash_one = store 0 (build_table one_file [0, 0]) (store 16384 [1, 2, 3] (\<lambda>_. 0xFF))"

lemma flash_one_table: "table_of one_file (table_at 0 flash_one)"
proof -
  have "length (build_table one_file [0, 0]) = 128" by (simp add: build_table_def one_file_def)
  then have "table_at 0 flash_one = build_table one_file [0, 0]" unfolding flash_one_def by (rule table_at_store)
  moreover have "length one_file = 20" "\<forall>e\<in>set one_file. unat (plength e) < 2 ^ 24"
    by (auto simp: one_file_def cleared_def in_set_conv_nth nth_list_update)
  ultimately show ?thesis using table_built [of one_file "[0, 0]"] by (simp add: table_of_def)
qed

abbreviation idle_handle :: DRBCC_t where
  "idle_handle \<equiv> zero_handle\<lparr>libdrbcc_initialized := True, magic := 0xDAD1DADA\<rparr>"

lemma idle_handle_ok:
  "no_oom idle_handle" "plain_io idle_handle" "file_guard idle_handle = None" "secQueue idle_handle = []"
  "\<not> retry idle_handle"
  by (simp_all add: no_oom_def plain_io_def file_guard_def CHECK_HANDLE_def zero_handle_def)

theorem get_file_reads_witness:
  "fs ((get_round (plain_reply flash_one) ^^ 2) (snd (drbcc_get_file 0 ''f'' True idle_handle))) ''f'' = Some [1, 2, 3]"
proof -
  let ?s = idle_handle
  let ?e = "\<lparr>typeinfo = 0, startblock = 4, plength = 3\<rparr> :: DRBCC_PARTENTRY_t"
  have t: "has_magic (table_at 0 flash_one)" "table_entries (table_at 0 flash_one) = one_file"
    using flash_one_table by (simp_all add: table_of_def)
  have "table_entry (table_at 0 flash_one) 0 = table_entries (table_at 0 flash_one) ! 0"
    by (simp add: table_entries_def)
  then have e: "?e = table_entry (table_at 0 flash_one) 0" unfolding t(2) by (simp add: one_file_def)
  have n: "length ''f'' < 4096" by simp
  have i: "file_target (set_file 0 DRBCC_STATE_GET_FILE ?s) (table_at 0 flash_one) = Some 0" "(0 :: nat) < 20"
    by (simp_all add: zero_handle_def file_target_def by_index_def set_file_def)
  have "\<not> isEmpty ?e" "0 < plength ?e" "2 \<le> startblock ?e" "unat (startblock ?e) * 4096 + file_bytes ?e < 2 ^ 24"
    by (simp_all add: isEmpty_def EMPTY_ENTRY_def file_bytes_def bits_blocktype_def)
  note r = get_file_reads [OF idle_handle_ok n plain_reply_reader t(1) i e this]
  have "file_bytes ?e = 3" "unat (startblock ?e) * 4096 = 16384" "Suc ((3 + 127) div 128) = 2"
    by (simp_all add: file_bytes_def bits_blocktype_def)
  with r have "fs ((get_round (plain_reply flash_one) ^^ 2) (snd (drbcc_get_file 0 ''f'' True ?s))) ''f'' =
      Some (map flash_one [16384..<16384 + 3])"
    by (simp only: got_def)
  also have "map flash_one [16384..<16384 + 3] = [1, 2, 3]"
    by (simp add: flash_one_def store_def build_table_def one_file_def upt_rec)
  finally show ?thesis .
qed

section \<open>Writing and reading back\<close>

lemma put_table_entry_file:
  "\<not> isEmpty (put_table_entry s b)" "file_bytes (put_table_entry s b) = unat (maxFilelength s)"
proof -
  have "bits_blocktype (put_table_entry s b) = 0"
    unfolding bits_blocktype_def put_table_entry_def mk_typeinfo_def
    by (rule bit_word_eqI) (auto simp: bit_simps)
  then show "file_bytes (put_table_entry s b) = unat (maxFilelength s)"
    by (simp add: file_bytes_def put_table_entry_def)
  have "\<not> bit (drop_bit 4 (typeinfo (put_table_entry s b))) 3"
    unfolding put_table_entry_def mk_typeinfo_def by (simp add: bit_simps)
  moreover have "bit EMPTY_ENTRY 3" by (simp add: EMPTY_ENTRY_def)
  ultimately show "\<not> isEmpty (put_table_entry s b)" unfolding isEmpty_def by metis
qed

lemma index_plain: "k < 20 \<Longrightarrow> (of_nat k :: u32) AND 0x80000000 = 0"
proof -
  assume "k < 20"
  then have "k \<in> set [0..<20]" by simp
  then show ?thesis by (simp add: upt_rec) (elim disjE, simp_all)
qed



end
