(* ===== verification/Log_Read.thy ===== *)
theory Log_Read
  imports Get_File
begin

text \<open>
  Reading the log: the buffer for long entries is never overrun, a long entry is joined from
  its pieces, the first address lies in the ring, and the reading ends.
\<close>

section \<open>The buffer for long entries\<close>

definition log_buffer_ok :: "DRBCC_t \<Rightarrow> bool" where
  "log_buffer_ok s \<longleftrightarrow> (case logdata s of
     None \<Rightarrow> True
   | Some buf \<Rightarrow> 16 \<le> logindex s \<and> logindex s + logrest s \<le> length buf \<and> unat (buf ! 8) + 9 \<le> length buf)"

text \<open>What \<^const>\<open>log_entry\<close> may change.\<close>

definition log_view :: "DRBCC_t \<Rightarrow> DRBCC_t" where
  "log_view s = s\<lparr>mallocs := 0, logdata := None, logrest := 0, logindex := 0, logpos := 0, events := []\<rparr>"

lemma handle_logentry_events:
  "handle_logentry pos len buf s = s\<lparr>events := events s @
     (if skips_entry pos s \<or> \<not> cbs s getlog_cb then [] else [Ev_getlog pos len (take len buf)])\<rparr>"
  by (simp add: handle_logentry_def call_cb_def)

lemma malloc_no_oom:
  assumes "no_oom s"
  obtains blk where "drbcc_malloc n s = (Some blk, s\<lparr>mallocs := Suc (mallocs s)\<rparr>)" "length blk = n"
proof -
  obtain junk where "heap s (mallocs s) = Some junk" using assms by (auto simp: no_oom_def)
  then show thesis using that [of "map junk [0..<n]"] by (simp add: drbcc_malloc_def)
qed

lemma log_entry_safe:
  assumes "log_buffer_ok s" and "no_oom s" and "16 \<le> length d"
  shows "log_buffer_ok (log_entry pos d s) \<and> log_view (log_entry pos d s) = log_view s"
proof (cases "d ! 0 = DRBCC_E_EXTENSION")
  case False
  obtain blk where "drbcc_malloc (unat (d ! 8) * 3) s = (Some blk, s\<lparr>mallocs := Suc (mallocs s)\<rparr>)"
      "length blk = unat (d ! 8) * 3"
    using malloc_no_oom [OF assms(2)] .
  then show ?thesis using False assms
    by (auto simp: log_entry_def log_buffer_ok_def log_view_def overwrite_def handle_logentry_events
      word_less_nat_alt nth_append split: option.splits)
next
  case True
  show ?thesis
  proof (cases "logdata s")
    case None
    then show ?thesis using True by (simp add: log_entry_def log_buffer_ok_def log_view_def handle_logentry_events)
  next
    case (Some buf)
    then show ?thesis using True assms
      by (auto simp: log_entry_def log_buffer_ok_def log_view_def Let_def handle_logentry_events nth_append min_def)
  qed
qed

section \<open>Joining a long entry\<close>

definition log_pieces :: "(u32 \<times> bytes) list \<Rightarrow> DRBCC_t \<Rightarrow> DRBCC_t" where
  "log_pieces = fold (\<lambda>(pos, d). log_entry pos d)"

definition piece :: "u32 \<times> bytes \<Rightarrow> bytes" where
  "piece pd = take 15 (drop 1 (snd pd))"

definition extension :: "u32 \<times> bytes \<Rightarrow> bool" where
  "extension pd \<longleftrightarrow> 16 \<le> length (snd pd) \<and> snd pd ! 0 = DRBCC_E_EXTENSION"

lemma log_piece:
  assumes "logdata s = Some buf" and "logindex s + logrest s \<le> length buf" and "extension (pos, d)"
  defines "buf1 \<equiv> take (logindex s) buf @ take (min 15 (logrest s)) (piece (pos, d)) @
    drop (logindex s + min 15 (logrest s)) buf"
  shows "log_entry pos d s =
    (if logrest s > 15
     then s\<lparr>logdata := Some buf1, logindex := logindex s + 15, logrest := logrest s - 15\<rparr>
     else (handle_logentry (logpos s) (unat (buf1 ! 8) + 9) buf1 s)\<lparr>logdata := None\<rparr>)"
  using assms(1-3) unfolding buf1_def by (simp add: log_entry_def extension_def piece_def Let_def min_def)

lemma join_pieces:
  assumes "logdata s = Some buf" and "logindex s + logrest s \<le> length buf" and "8 < logindex s" and "0 < logrest s"
    and "length ps = (logrest s + 14) div 15" and "list_all extension ps"
    and "cbs s getlog_cb" and "\<not> skips_entry (logpos s) s"
  shows "events (log_pieces ps s) = events s @ [Ev_getlog (logpos s) (unat (buf ! 8) + 9)
      (take (unat (buf ! 8) + 9) (take (logindex s) buf @ take (logrest s) (concat (map piece ps)) @
        drop (logindex s + logrest s) buf))] \<and>
    fault (log_pieces ps s) = fault s \<and> logdata (log_pieces ps s) = None"
  using assms
proof (induction ps arbitrary: s buf)
  case Nil
  then show ?case by simp
next
  case (Cons pd ps)
  obtain pos d where pd: "pd = (pos, d)" by fastforce
  have ext: "extension (pos, d)" using Cons.prems(6) pd by simp
  then have l: "length (piece (pos, d)) = 15" by (auto simp: extension_def piece_def)
  note step = log_piece [OF Cons.prems(1,2) ext]
  show ?case
  proof (cases "logrest s > 15")
    case True
    define buf1 where "buf1 = take (logindex s) buf @ piece (pos, d) @ drop (logindex s + 15) buf"
    define s1 where "s1 = s\<lparr>logdata := Some buf1, logindex := logindex s + 15, logrest := logrest s - 15\<rparr>"
    have s1: "log_entry pos d s = s1" using step True l by (simp add: s1_def buf1_def)
    have b: "buf1 ! 8 = buf ! 8" "length buf1 = length buf"
      "take (logindex s + 15) buf1 = take (logindex s) buf @ piece (pos, d)"
      "drop (logindex s + logrest s) buf1 = drop (logindex s + logrest s) buf"
      using Cons.prems(2,3) True l by (simp_all add: buf1_def nth_append add.commute)
    have "length ps = (logrest s1 + 14) div 15" using Cons.prems(5) True by (simp add: s1_def)
    moreover have "skips_entry p s1 = skips_entry p s" for p by (simp add: s1_def skips_entry_def curr_log_pos_def)
    ultimately have "events (log_pieces ps s1) = events s1 @ [Ev_getlog (logpos s1) (unat (buf1 ! 8) + 9)
        (take (unat (buf1 ! 8) + 9) (take (logindex s1) buf1 @ take (logrest s1) (concat (map piece ps)) @
          drop (logindex s1 + logrest s1) buf1))] \<and>
      fault (log_pieces ps s1) = fault s1 \<and> logdata (log_pieces ps s1) = None"
      using Cons.prems True b(2) by (intro Cons.IH) (simp_all add: s1_def)
    moreover have "log_pieces (pd # ps) s = log_pieces ps s1" by (simp add: log_pieces_def pd s1)
    moreover have "logindex s1 + logrest s1 = logindex s + logrest s" using True by (simp add: s1_def)
    ultimately show ?thesis using True l b by (simp add: s1_def pd)
  next
    case False
    then have "(logrest s + 14) div 15 = 1" using Cons.prems(4) by (intro div_nat_eqI) simp_all
    then have "ps = []" using Cons.prems(5) by simp
    then show ?thesis using False Cons.prems l step
      by (simp add: log_pieces_def pd handle_logentry_events nth_append)
  qed
qed

text \<open>C23. A long log entry is put together again. An entry with more than seven data bytes is
  followed by extension entries with fifteen bytes each; when the last of them has been
  processed the application has been given, once, the head of the entry with exactly its
  data bytes, and the buffer is released.\<close>

theorem long_entry_joined:
  assumes "no_oom s" and "16 \<le> length d" and "d ! 0 \<noteq> DRBCC_E_EXTENSION" and "d ! 1 \<noteq> 0xFF" and "7 < d ! 8"
    and "length ps = (unat (d ! 8) - 7 + 14) div 15" and "list_all extension ps"
    and "cbs s getlog_cb" and "\<not> skips_entry pos s"
  shows "events (log_pieces ((pos, d) # ps) s) = events s @ [Ev_getlog pos (unat (d ! 8) + 9)
      (take 16 d @ take (unat (d ! 8) - 7) (concat (map piece ps)))] \<and>
    fault (log_pieces ((pos, d) # ps) s) = fault s \<and> logdata (log_pieces ((pos, d) # ps) s) = None"
proof -
  let ?n = "unat (d ! 8)"
  obtain blk where m: "drbcc_malloc (?n * 3) s = (Some blk, s\<lparr>mallocs := Suc (mallocs s)\<rparr>)" "length blk = ?n * 3"
    using malloc_no_oom [OF assms(1)] .
  have n: "7 < ?n" using assms(5) by (simp add: word_less_nat_alt)
  define buf where "buf = take 16 d @ drop 16 blk"
  define s1 where "s1 = s\<lparr>mallocs := Suc (mallocs s), logdata := Some buf, logrest := ?n - 7, logindex := 16, logpos := pos\<rparr>"
  have sk: "skips_entry p s1 = skips_entry p s" for p by (simp add: s1_def skips_entry_def curr_log_pos_def)
  have s1: "log_entry pos d s = s1"
    using assms(2-5) m(1) by (simp add: log_entry_def s1_def buf_def overwrite_def)
  have b: "buf ! 8 = d ! 8" "length buf = ?n * 3" "take 16 buf = take 16 d"
    using assms(2) m(2) n by (simp_all add: buf_def nth_append)
  have "length (concat (map piece ps)) = 15 * length ps" using assms(7)
    by (induction ps) (auto simp: extension_def piece_def)
  then have l: "?n - 7 \<le> length (concat (map piece ps))" using assms(6) by simp
  have "events (log_pieces ps s1) = events s1 @ [Ev_getlog (logpos s1) (unat (buf ! 8) + 9)
      (take (unat (buf ! 8) + 9) (take (logindex s1) buf @ take (logrest s1) (concat (map piece ps)) @
        drop (logindex s1 + logrest s1) buf))] \<and>
    fault (log_pieces ps s1) = fault s1 \<and> logdata (log_pieces ps s1) = None"
    using assms n b sk by (intro join_pieces) (simp_all add: s1_def)
  moreover have "log_pieces ((pos, d) # ps) s = log_pieces ps s1" by (simp add: log_pieces_def s1)
  ultimately show ?thesis using b l n assms(2) by (simp add: s1_def)
qed

theorem long_entry_joined_witness:
  "events (log_pieces [(0, [5, 0, 0, 0, 0, 0, 0, 0, 8] @ replicate 7 2), (1, 1 # replicate 15 9)]
     (zero_handle\<lparr>cbs := (\<lambda>c. c = getlog_cb)\<rparr>)) =
   [Ev_getlog 0 17 ([5, 0, 0, 0, 0, 0, 0, 0, 8] @ replicate 7 2 @ [9])]"
  using long_entry_joined [of "zero_handle\<lparr>cbs := (\<lambda>c. c = getlog_cb)\<rparr>"
    "[5, 0, 0, 0, 0, 0, 0, 0, 8] @ replicate 7 2" "[(1, 1 # replicate 15 9)]" 0]
  by (simp add: zero_handle_def no_oom_def extension_def skips_entry_def curr_log_pos_def piece_def)

text \<open>C25. The buffer for long entries is never overrun. Whatever sixteen byte entries arrive, in
  whatever order, no byte outside the buffer is read or written, and nothing but the
  reassembly and the events of the handle changes.\<close>

theorem log_buffer_safe:
  assumes "log_buffer_ok s" and "no_oom s" and "\<forall>(pos, d)\<in>set ps. 16 \<le> length d"
  shows "log_buffer_ok (log_pieces ps s) \<and> log_view (log_pieces ps s) = log_view s"
  using assms
proof (induction ps arbitrary: s)
  case (Cons pd ps)
  obtain pos d where pd: "pd = (pos, d)" by fastforce
  have e: "log_buffer_ok (log_entry pos d s)" "log_view (log_entry pos d s) = log_view s"
    using log_entry_safe [of s d pos] Cons.prems pd by auto
  have "no_oom (log_view t) = no_oom t" for t by (simp add: no_oom_def log_view_def)
  then have "no_oom (log_entry pos d s)" using e(2) Cons.prems(2) by metis
  then show ?case using Cons.IH [of "log_entry pos d s"] e Cons.prems(3) by (auto simp: log_pieces_def pd)
qed (simp add: log_pieces_def)

theorem log_buffer_safe_witness:
  "log_buffer_ok (log_pieces [(0, replicate 16 9), (1, replicate 16 1), (2, replicate 16 1)] zero_handle)"
  using log_buffer_safe [of zero_handle "[(0, replicate 16 9), (1, replicate 16 1), (2, replicate 16 1)]"]
  by (simp add: log_buffer_ok_def no_oom_def zero_handle_def)

section \<open>The first address\<close>

lemma unat_align128: "unat (align128 a) = unat a div 128 * 128"
proof -
  have m: "(0x7F :: u32) = mask 7" by (simp add: mask_eq_exp_minus_1)
  have "align128 a = push_bit 7 (drop_bit 7 a)"
    unfolding m by (rule bit_word_eqI) (auto simp: bit_simps)
  moreover have "unat a div 128 * 128 < 2 ^ 32"
    using unsigned_less [of a, where 'a = nat] by (intro le_less_trans [OF div_times_less_eq_dividend]) simp
  moreover have "push_bit 7 (drop_bit 7 a) = a div 128 * 128" by (simp add: push_bit_eq_mult drop_bit_eq_div)
  ultimately show ?thesis using unat_mult_lem [of "a div 128" 128] by (simp only: unat_div) simp
qed

text \<open>The ring has \<open>n\<close> blocks and the position of the controller is one of its entries.\<close>

definition ring :: "nat \<Rightarrow> DRBCC_t \<Rightarrow> bool" where
  "ring n s \<longleftrightarrow> 0 < n \<and> n < 2 ^ 16 \<and> maxFilelength s = of_nat (n * 4096) \<and> unat (curFileIndex s) < n"

definition in_ring :: "nat \<Rightarrow> u32 \<Rightarrow> bool" where
  "in_ring n a \<longleftrightarrow> unat a < n * 4096 \<and> unat a mod 128 = 0"

lemma in_ring_align:
  assumes "unat x < n * 256" and "n < 2 ^ 16"
  shows "in_ring n (align128 (x * 16))"
proof -
  have x: "unat (x * 16) = unat x * 16"
    using assms unat_mult_lem [of x 16] by simp
  have "unat x * 16 div 128 * 128 \<le> unat x * 16" by simp
  then have "unat x * 16 div 128 * 128 < n * 4096" using assms(1) by linarith
  then show ?thesis unfolding in_ring_def unat_align128 x by simp
qed

lemma ring_facts:
  assumes "ring n s"
  shows "unat (maxFilelength s div 16) = n * 256" "unat (maxFilelength s div 0x1000) = n"
    "unat (curr_log_pos s) < n * 256" "in_ring n 0"
proof -
  have n: "0 < n" "n < 2 ^ 16" "unat (curFileIndex s) < n" using assms by (simp_all add: ring_def)
  have m: "unat (maxFilelength s) = n * 4096"
    using assms by (simp add: ring_def unat_of_nat del: of_nat_mult)
  then show "unat (maxFilelength s div 16) = n * 256" "unat (maxFilelength s div 0x1000) = n"
    by (simp_all add: unat_div)
  have "unat (curFileIndex s * 0x1000) = unat (curFileIndex s) * 4096"
    using n unat_mult_lem [of "curFileIndex s" "0x1000"] by simp
  then have d: "unat (curFileIndex s * 0x1000 div 16) = unat (curFileIndex s) * 256" by (simp add: unat_div)
  have e: "unat (ucast (logentry s) :: u32) < 256"
  proof -
    have "unat (ucast (logentry s) :: u32) \<le> unat (logentry s)" by (simp add: unsigned_ucast_eq take_bit_eq_mod)
    also have "\<dots> < 2 ^ LENGTH(8)" by (rule unsigned_less)
    finally show ?thesis by simp
  qed
  have "unat (curr_log_pos s) = unat (curFileIndex s) * 256 + unat (ucast (logentry s) :: u32)"
    using n d e unat_add_lem [of "curFileIndex s * 0x1000 div 16" "ucast (logentry s) :: u32"]
    by (simp add: curr_log_pos_def)
  moreover have "unat (curFileIndex s) * 256 + 256 \<le> n * 256" using n(3) by simp
  ultimately show "unat (curr_log_pos s) < n * 256" using e by linarith
  show "in_ring n 0" using n by (simp add: in_ring_def)
qed

lemma next_block_in_ring:
  assumes "ring n s"
  obtains b where "next_block s = (b, s)" and "unat b < n" and "in_ring n (b * 0x1000)"
    and "unat (b * 0x1000 div 16) = unat b * 256" and "b * 0x1000 div 16 * 16 = b * 0x1000"
proof -
  define b where "b = (curFileIndex s + 1) mod (maxFilelength s div 0x1000)"
  note r = ring_facts [OF assms] and n = assms [unfolded ring_def]
  have nz: "maxFilelength s div 0x1000 \<noteq> 0" using r(2) n by auto
  have "unat b < n" unfolding b_def unat_mod r(2) using n by simp
  moreover from this have m: "unat (b * 0x1000) = unat b * 4096"
    using n unat_mult_lem [of b "0x1000"] by simp
  moreover from this have d: "unat (b * 0x1000 div 16) = unat b * 256" by (simp add: unat_div)
  moreover have "in_ring n (b * 0x1000)"
  proof -
    have "unat b * 4096 < n * 4096" using \<open>unat b < n\<close> by simp
    moreover have "unat b * 4096 mod 128 = 0" by simp
    ultimately show ?thesis unfolding in_ring_def m by simp
  qed
  moreover have "b * 0x1000 div 16 * 16 = b * 0x1000"
    using unat_mult_lem [of "b * 0x1000 div 16" 16] m d \<open>unat b < n\<close> n by (simp add: word_unat_eq_iff)
  moreover have "next_block s = (b, s)" using nz by (simp add: next_block_def b_def Let_def)
  ultimately show thesis using that by blast
qed

lemma calculate_start_in_ring:
  assumes "ring n s" and "unat from_x < n * 256"
  shows "in_ring n (fst (calculate_start_addr_wrap from_x cur s)) \<and>
    fault (snd (calculate_start_addr_wrap from_x cur s)) = fault s"
proof -
  obtain b where b: "next_block s = (b, s)" "in_ring n (b * 0x1000)" "b * 0x1000 div 16 * 16 = b * 0x1000"
    using next_block_in_ring [OF assms(1)] by metis
  have "in_ring n (align128 (from_x * 16))" using assms by (intro in_ring_align) (simp_all add: ring_def)
  then show ?thesis using b ring_facts(4) [OF assms(1)]
    by (simp add: calculate_start_addr_wrap_def Let_def)
qed

lemma log_start_inside:
  assumes "ring n s"
  shows "in_ring n (fst (log_start s)) \<and> fault (snd (log_start s)) = fault s"
proof -
  note r = ring_facts [OF assms]
  have n: "n < 2 ^ 16" using assms by (simp add: ring_def)
  define a where "a = (word_of_int \<bar>entries s\<bar> :: u32)"
  let ?c = "curr_log_pos s"
  have sub: "unat (?c - a) < n * 256" if "a \<le> ?c"
    using unat_sub [OF that] r(3) by linarith
  show ?thesis
  proof (cases "logwrapflag s = 0xFF")
    case True
    have "in_ring n (align128 ((if entries s < 0 then ?c - a else a) * 16))" if "a < ?c"
      using that r(3) n sub by (intro in_ring_align) (auto simp: word_less_nat_alt word_le_nat_alt)
    then show ?thesis using True r(4)
      by (auto simp: log_start_def start_no_wrap_def Let_def linorder_not_le simp flip: a_def)
  next
    case False
    obtain b where b: "next_block s = (b, s)" "in_ring n (b * 0x1000)"
      using next_block_in_ring [OF assms] by metis
    have "unat (maxFilelength s div 16 - 1 - (a - ?c)) < n * 256" if "?c < a" "a < maxFilelength s div 16"
    proof -
      have "unat (a - ?c) = unat a - unat ?c" "unat a < n * 256" "unat ?c < unat a"
        using that r(1) unat_sub [OF less_imp_le [OF that(1)]] by (simp_all add: word_less_nat_alt)
      moreover have "unat (maxFilelength s div 16 - 1) = n * 256 - 1"
        using calculation r(1) by (subst unat_sub) (simp_all add: word_le_nat_alt)
      ultimately have "a - ?c \<le> maxFilelength s div 16 - 1" "unat (maxFilelength s div 16 - 1) < n * 256"
        by (simp_all add: word_le_nat_alt)
      then show ?thesis by (simp add: unat_sub)
    qed
    moreover have "unat a < n * 256" if "a < maxFilelength s div 16"
      using that r(1) by (simp add: word_less_nat_alt)
    ultimately show ?thesis using False b sub calculate_start_in_ring [OF assms]
      by (auto simp: log_start_def start_wrap_def Let_def linorder_not_le linorder_not_less simp flip: a_def)
  qed
qed

text \<open>C24. Reading the log starts inside of the ring: for any number of entries asked for, whether
  counted from the beginning or from the end and whether or not the ring has wrapped, the
  first address is one of its 128 byte chunks, and there is no division by zero.\<close>

theorem log_start_in_ring:
  assumes "ring n s"
  shows "in_ring n (fst (log_start s)) \<and> fault (snd (log_start s)) = fault s"
  using assms by (rule log_start_inside)

theorem log_start_in_ring_witness:
  "in_ring 2 (fst (log_start (zero_handle\<lparr>maxFilelength := 8192, curFileIndex := 1, logentry := 5, entries := -20\<rparr>)))"
  using log_start_in_ring [of 2 "zero_handle\<lparr>maxFilelength := 8192, curFileIndex := 1, logentry := 5, entries := -20\<rparr>"]
  by (simp add: ring_def zero_handle_def)

section \<open>The end of the log\<close>

lemma log_view_entry:
  assumes "log_view t = log_view s"
  shows "log_end_addr t = log_end_addr s" "no_oom t = no_oom s"
proof -
  have "log_end_addr (log_view u) = log_end_addr u" "no_oom (log_view u) = no_oom u" for u
    by (simp_all add: log_view_def log_end_addr_def no_oom_def)
  then show "log_end_addr t = log_end_addr s" "no_oom t = no_oom s" using assms by metis+
qed

lemma log_entries_end:
  assumes "log_buffer_ok s" and "no_oom s" and "\<forall>i\<in>set is. i + 16 \<le> length data"
  shows "\<exists>t. log_buffer_ok t \<and> log_view t = log_view s \<and> log_entries addr pos data is s =
    (if \<exists>i\<in>set is. data ! i = 0xFF \<and> addr + of_nat i = log_end_addr s then (True, finish_log t) else (False, t))"
  using assms
proof (induction "is" arbitrary: s)
  case (Cons i "is")
  have i: "\<not> length data < i + 16" using Cons.prems(3) by auto
  show ?case
  proof (cases "data ! i = 0xFF")
    case True
    then show ?thesis using Cons.IH [OF Cons.prems(1,2)] Cons.prems i by auto
  next
    case False
    let ?s1 = "log_entry (pos + of_nat i div 16) (drop i data) s"
    have s1: "log_buffer_ok ?s1" "log_view ?s1 = log_view s"
      using log_entry_safe [OF Cons.prems(1,2), of "drop i data"] Cons.prems(3) by auto
    note v = log_view_entry [OF s1(2)]
    from Cons.IH [OF s1(1)] v Cons.prems(2,3) obtain t where
      "log_buffer_ok t" "log_view t = log_view s" "log_entries addr pos data is ?s1 =
        (if \<exists>i\<in>set is. data ! i = 0xFF \<and> addr + of_nat i = log_end_addr s then (True, finish_log t) else (False, t))"
      using s1(2) by auto
    then show ?thesis using False i by auto
  qed
qed auto

text \<open>The ring of \<open>n\<close> blocks at address \<open>a\<close> is being read; the chunk at offset \<open>d\<close> is requested
  next, and the next free entry of the controller is at offset \<open>e\<close>.\<close>

definition log_state :: "nat \<Rightarrow> nat \<Rightarrow> nat \<Rightarrow> bool \<Rightarrow> DRBCC_t \<Rightarrow> bool" where
  "log_state a n e flt s \<longleftrightarrow> no_oom s \<and> CHECK_HANDLE s = None \<and> \<not> cbs s read_flash_cb \<and> \<not> retry s \<and>
     fault s = flt \<and> state s = DRBCC_STATE_GET_LOG \<and> curFilestart s = of_nat a \<and>
     maxFilelength s = of_nat (n * 4096) \<and> log_end_addr s = of_nat (a + e) \<and> log_buffer_ok s"

definition logging :: "nat \<Rightarrow> nat \<Rightarrow> nat \<Rightarrow> bool \<Rightarrow> nat \<Rightarrow> DRBCC_t \<Rightarrow> bool" where
  "logging a n e flt d s \<longleftrightarrow> log_state a n e flt s \<and>
     (\<exists>m. secQueue s = [m] \<and> read_request m \<and>
        payload m = cmd DRBCC_REQ_EXTFLASH_READ # addr_bytes (of_nat (a + d)) @ [ucast (128 :: u32)])"

definition log_done :: "bool \<Rightarrow> DRBCC_t \<Rightarrow> bool" where
  "log_done flt s \<longleftrightarrow> state s = DRBCC_STATE_USER \<and> session s = 0 \<and> secQueue s = [] \<and> fault s = flt"

lemma log_state_view:
  assumes "log_view t = log_view s" and "log_state a n e flt s" and "log_buffer_ok t"
  shows "log_state a n e flt t \<and> secQueue t = secQueue s"
proof -
  have "log_state a n e flt u \<longleftrightarrow> log_state a n e flt (log_view u) \<and> log_buffer_ok u" "secQueue (log_view u) = secQueue u" for u
    by (auto simp: log_view_def log_state_def no_oom_def CHECK_HANDLE_def log_end_addr_def log_buffer_ok_def)
  then show ?thesis using assms by metis
qed

lemma logging_next:
  assumes "log_state a n e flt s" and "secQueue s = []"
  shows "logging a n e flt d (snd (libdrbcc_req_flash_read (of_nat (a + d)) 128 s))"
proof -
  have "no_oom s" using assms(1) by (simp add: log_state_def)
  then obtain m where m: "snd (libdrbcc_req_flash_read (of_nat (a + d)) 128 s) =
      (queued [m] s)\<lparr>flashAddr := of_nat (a + d) + read_size 128, flashLen := 128 - read_size 128\<rparr>"
    "read_request m" "payload m = cmd DRBCC_REQ_EXTFLASH_READ # addr_bytes (of_nat (a + d)) @ [ucast (read_size 128)]"
    using flash_read_queued by blast
  have r: "read_size 128 = 128" by (simp add: read_size_def)
  show ?thesis unfolding m(1) logging_def using assms m(2,3) unfolding r
    by (auto simp: log_state_def queued_def no_oom_def CHECK_HANDLE_def log_end_addr_def log_buffer_ok_def
      split: if_splits option.splits)
qed

lemma log_data_step:
  assumes "log_state a n e flt s" and "secQueue s = []" and "length data = 140"
    and "a + n * 4096 < 2 ^ 24" and "e < n * 4096" and "e mod 16 = 0" and "d < n * 4096" "d mod 128 = 0"
    and "d \<le> e \<Longrightarrow> e < d + 128 \<Longrightarrow> data ! (e - d) = 0xFF"
  shows "if d \<le> e \<and> e \<le> d + 128 then log_done flt (get_log_data (of_nat (a + d)) 128 data s)
    else logging a n e flt (if d + 128 = n * 4096 then 0 else d + 128) (get_log_data (of_nat (a + d)) 128 data s)"
proof -
  let ?A = "of_nat (a + d) :: u32" and ?is = "map (\<lambda>k. 16 * k) [0..<8 :: nat]"
  have st: "log_buffer_ok s" "no_oom s" "log_end_addr s = of_nat (a + e)" "curFilestart s = of_nat a"
    using assms(1) by (simp_all add: log_state_def)
  have inj: "(of_nat x :: u32) = of_nat y \<longleftrightarrow> x = y" if "x < 2 ^ 25" "y < 2 ^ 25" for x y
    using that by (simp add: word_unat_eq_iff unat_small)
  have "\<forall>i\<in>set ?is. i + 16 \<le> length data" using assms(3) by auto
  from log_entries_end [OF st(1,2) this, of ?A "(?A - curFilestart s) div 16"] obtain t where
    t: "log_buffer_ok t" "log_view t = log_view s" "log_entries ?A ((?A - curFilestart s) div 16) data ?is s =
      (if \<exists>i\<in>set ?is. data ! i = 0xFF \<and> ?A + of_nat i = of_nat (a + e) then (True, finish_log t) else (False, t))"
    unfolding st(3) by blast
  have lt: "log_state a n e flt t" "secQueue t = []"
    using log_state_view [OF t(2) assms(1) t(1)] assms(2) by simp_all
  have at: "?A + of_nat i = of_nat (a + e) \<longleftrightarrow> d + i = e" if "i < 128" for i
    using inj [of "a + d + i" "a + e"] that assms(4,5,7) by (simp add: add.assoc)
  have hit: "(\<exists>i\<in>set ?is. data ! i = 0xFF \<and> ?A + of_nat i = of_nat (a + e)) \<longleftrightarrow> d \<le> e \<and> e < d + 128"
  proof
    assume "d \<le> e \<and> e < d + 128"
    moreover have "16 dvd e - d"
    proof -
      have "(16 :: nat) dvd 128" by simp
      then have "16 dvd d" using assms(8) by (meson dvd_trans mod_0_imp_dvd)
      moreover have "16 dvd e" using assms(6) by (rule mod_0_imp_dvd)
      ultimately show ?thesis by (rule dvd_diff_nat [rotated])
    qed
    then have "16 * ((e - d) div 16) = e - d" by (rule dvd_mult_div_cancel)
    ultimately have "e - d \<in> set ?is" by (auto intro!: image_eqI [of _ _ "(e - d) div 16"])
    then show "\<exists>i\<in>set ?is. data ! i = 0xFF \<and> ?A + of_nat i = of_nat (a + e)"
      using assms(9) \<open>d \<le> e \<and> e < d + 128\<close> at [of "e - d"] by (intro bexI [of _ "e - d"]) simp_all
  next
    assume "\<exists>i\<in>set ?is. data ! i = 0xFF \<and> ?A + of_nat i = of_nat (a + e)"
    then obtain i where i: "i \<in> set ?is" "?A + of_nat i = of_nat (a + e)" by blast
    then have "i < 128" by auto
    with i show "d \<le> e \<and> e < d + 128" using at [of i] by auto
  qed
  have run: "get_log_data ?A 128 data s = (if d \<le> e \<and> e < d + 128 then finish_log t
      else if ?A + 128 = log_end_addr t then finish_log t
      else if ?A + 128 = curFilestart t + maxFilelength t then snd (libdrbcc_req_flash_read (curFilestart t) 128 t)
      else snd (libdrbcc_req_flash_read (?A + 128) 128 t))"
    using t(3) unfolding hit get_log_data_def
    by (cases "d \<le> e \<and> e < d + 128") (auto simp: Let_def)
  have A: "?A + 128 = of_nat (a + (d + 128))" "curFilestart t = of_nat (a + 0)" "log_end_addr t = of_nat (a + e)"
      "curFilestart t + maxFilelength t = of_nat (a + n * 4096)"
    using lt(1) by (simp_all add: log_state_def)
  have eqs: "?A + 128 = log_end_addr t \<longleftrightarrow> d + 128 = e"
      "?A + 128 = curFilestart t + maxFilelength t \<longleftrightarrow> d + 128 = n * 4096"
    unfolding A(1,3,4) using inj [of "a + (d + 128)" "a + e"] inj [of "a + (d + 128)" "a + n * 4096"] assms(4,5,7)
    by auto
  have fin: "log_done flt (finish_log t)"
    using lt by (simp add: log_done_def finish_log_def end_session_def call_cb_def log_state_def)
  show ?thesis
  proof (cases "d \<le> e \<and> e \<le> d + 128")
    case True
    then have "get_log_data ?A 128 data s = finish_log t" unfolding run eqs by auto
    then show ?thesis using True fin by simp
  next
    case False
    then have "get_log_data ?A 128 data s =
        snd (libdrbcc_req_flash_read (of_nat (a + (if d + 128 = n * 4096 then 0 else d + 128))) 128 t)"
      unfolding run [unfolded eqs] A(1,2) by auto
    then have "logging a n e flt (if d + 128 = n * 4096 then 0 else d + 128) (get_log_data ?A 128 data s)"
      using logging_next [OF lt] by (simp only:)
    then show ?thesis using False by argo
  qed
qed

lemma logging_round:
  assumes "flash_reader f reply" and "logging a n e flt d s" and "8192 \<le> a" and "a + n * 4096 < 2 ^ 24"
    and "e < n * 4096" and "e mod 16 = 0" and "d < n * 4096" "d mod 128 = 0" and "f (a + e) = 0xFF"
  shows "if d \<le> e \<and> e \<le> d + 128 then log_done flt (get_round reply s)
    else logging a n e flt (if d + 128 = n * 4096 then 0 else d + 128) (get_round reply s)"
proof -
  obtain m where m: "secQueue s = [m]" "read_request m" "payload m = cmd DRBCC_REQ_EXTFLASH_READ #
      addr_bytes (of_nat (a + d)) @ [ucast (128 :: u32)]"
    using assms(2) unfolding logging_def by blast
  have st: "log_state a n e flt s" using assms(2) by (simp add: logging_def)
  have u: "unat (of_nat (a + d) :: u32) = a + d" by (rule unat_small) (use assms(4,7) in simp)
  define s' where "s' = s\<lparr>secQueue := [], cur_msg := reply m\<rparr>"
  have "CHECK_HANDLE s' = None" "\<not> cbs s' read_flash_cb" "cur_msg s' = reply m"
    using st by (auto simp: log_state_def s'_def CHECK_HANDLE_def split: if_splits)
  then obtain data where data: "snd (libdrbcc_proc_msg s') = libdrbcc_readflash_cb (of_nat (a + d)) 128 data s'"
      "length data = 140" "take 128 data = map f [a + d..<a + d + 128]"
    using reply_processed [OF assms(1) m(2,3)] u assms(4,7) by auto
  define s2 where "s2 = s'\<lparr>retry := False\<rparr>"
  have "of_nat (a + d) \<noteq> (0 :: u32)" "of_nat (a + d) \<noteq> (4096 :: u32)"
    using assms(3) u by (auto simp: word_unat_eq_iff)
  then have r: "get_round reply s = get_log_data (of_nat (a + d)) 128 data s2"
    using m(1) data(1) st by (simp add: get_round_def s'_def s2_def libdrbcc_readflash_cb_def
      libdrbcc_get_log_def log_state_def)
  have "log_state a n e flt s2" "secQueue s2 = []"
    using st by (auto simp: s2_def s'_def log_state_def no_oom_def CHECK_HANDLE_def log_end_addr_def log_buffer_ok_def
      split: if_splits option.splits)
  moreover have "data ! (e - d) = 0xFF" if "d \<le> e" "e < d + 128"
  proof -
    have "data ! (e - d) = take 128 data ! (e - d)" using that by simp
    then show ?thesis using that assms(9) unfolding data(3) by simp
  qed
  ultimately show ?thesis using log_data_step [of a n e flt s2 data d] data(2) assms(4-8) unfolding r by blast
qed

lemma log_done_stays: "log_done flt s \<Longrightarrow> (get_round reply ^^ k) s = s"
  by (induction k) (simp_all add: log_done_def get_round_def)

lemma logging_run:
  assumes "flash_reader f reply" and "8192 \<le> a" and "a + n * 4096 < 2 ^ 24"
    and "e < n * 4096" and "e mod 16 = 0" and "f (a + e) = 0xFF"
    and "logging a n e flt (128 * p) s" and "p < n * 32"
    and "(if p \<le> e div 128 then e div 128 - p + 1 else n * 32 - p + e div 128 + 1) \<le> k"
  shows "log_done flt ((get_round reply ^^ k) s)"
  using assms(7-9)
proof (induction k arbitrary: p s)
  case 0
  then show ?case by (simp split: if_splits)
next
  case (Suc k)
  define p' where "p' = (if p + 1 = n * 32 then 0 else p + 1)"
  have d': "(if 128 * p + 128 = n * 4096 then 0 else 128 * p + 128) = 128 * p'" by (auto simp: p'_def)
  have "128 * p < n * 4096" "128 * p mod 128 = 0" using Suc.prems(2) by simp_all
  note r = logging_round [OF assms(1) Suc.prems(1) assms(2-5) this assms(6), unfolded d']
  show ?case
  proof (cases "128 * p \<le> e \<and> e \<le> 128 * p + 128")
    case True
    then have "log_done flt (get_round reply s)" using r by simp
    then show ?thesis using log_done_stays [of flt "get_round reply s" k reply]
      unfolding funpow_Suc_right comp_def by simp
  next
    case False
    then have "logging a n e flt (128 * p') (get_round reply s)" using r by auto
    moreover have "p' < n * 32" using Suc.prems(2) by (auto simp: p'_def)
    moreover have "(if p' \<le> e div 128 then e div 128 - p' + 1 else n * 32 - p' + e div 128 + 1) \<le> k"
    proof (cases "p \<le> e div 128")
      case True
      then have "128 * p \<le> e" by (simp add: less_eq_div_iff_mult_less_eq mult.commute)
      with False have "p + 1 \<le> e div 128" by (simp add: less_eq_div_iff_mult_less_eq mult.commute)
      moreover have "e div 128 < n * 32" using assms(4) by (simp add: less_mult_imp_div_less)
      ultimately show ?thesis using Suc.prems(3) True by (auto simp: p'_def)
    next
      case False
      then show ?thesis using Suc.prems by (auto simp: p'_def split: if_splits)
    qed
    ultimately show ?thesis using Suc.IH unfolding funpow_Suc_right comp_def by blast
  qed
qed

lemma log_start_frame:
  assumes "ring n s"
  shows "snd (log_start s) = s\<lparr>start := start (snd (log_start s))\<rparr>"
proof -
  obtain b where b: "next_block s = (b, s)" using next_block_in_ring [OF assms] by metis
  have c: "snd (calculate_start_addr_wrap from_x cur s) =
      s\<lparr>start := start (snd (calculate_start_addr_wrap from_x cur s))\<rparr>" for from_x cur
    by (simp add: calculate_start_addr_wrap_def Let_def b)
  show ?thesis
    using c unfolding log_start_def start_no_wrap_def start_wrap_def Let_def b by auto
qed

lemma log_end_offset:
  assumes "curFilestart s = of_nat a" and "unat (curFileIndex s) < 2 ^ 16"
  shows "log_end_addr s = of_nat (a + (unat (curFileIndex s) * 4096 + unat (logentry s) * 16))"
  unfolding log_end_addr_def assms(1) by simp



end
