(* ===== verification/Scan.thy ===== *)
theory Scan
  imports Prelude
begin

text \<open>
  The formatted input and output of the command line tool: the conversions of
  \<^verbatim>\<open>sscanf\<close> and \<^verbatim>\<open>printf\<close> that \<^verbatim>\<open>main.c\<close> and \<^verbatim>\<open>dvmon.c\<close> use, and the
  comparison \<^verbatim>\<open>strncasecmp\<close>. A string is a list of characters without its terminating
  zero. The lemmas show that a number that was printed is read back, and that a hexadecimal
  dump determines the bytes it shows.
\<close>

section \<open>Characters\<close>

text \<open>\<^verbatim>\<open>isspace\<close> and \<^verbatim>\<open>tolower\<close> of the C locale.\<close>

definition is_blank :: "char \<Rightarrow> bool" where
  "is_blank c = (of_char c = (32 :: nat) \<or> (9 \<le> (of_char c :: nat) \<and> (of_char c :: nat) \<le> 13))"

definition tolower :: "char \<Rightarrow> char" where
  "tolower c = (if 65 \<le> (of_char c :: nat) \<and> (of_char c :: nat) \<le> 90
                then char_of ((of_char c :: nat) + 32) else c)"

text \<open>\<^verbatim>\<open>0 == strncasecmp(s, t, n)\<close> and \<^verbatim>\<open>0 == strncmp(s, t, n)\<close>\<close>

definition strncasecmp_eq :: "string \<Rightarrow> string \<Rightarrow> nat \<Rightarrow> bool" where
  "strncasecmp_eq s t n = (map tolower (take n s) = map tolower (take n t))"

definition strncmp_eq :: "string \<Rightarrow> string \<Rightarrow> nat \<Rightarrow> bool" where
  "strncmp_eq s t n = (take n s = take n t)"

text \<open>The value of a digit; letters count in both cases.\<close>

definition digit_val :: "char \<Rightarrow> nat" where
  "digit_val c =
     (let n = of_char c :: nat
      in if 48 \<le> n \<and> n \<le> 57 then n - 48
         else if 65 \<le> n \<and> n \<le> 70 then n - 55
         else if 97 \<le> n \<and> n \<le> 102 then n - 87
         else 99)"

abbreviation is_digit :: "nat \<Rightarrow> char \<Rightarrow> bool" where
  "is_digit b c \<equiv> digit_val c < b"

section \<open>Formatted input\<close>

datatype conv =
    Skip_word        \<comment> \<open>\<^verbatim>\<open>%*s\<close>\<close>
  | Word             \<comment> \<open>\<^verbatim>\<open>%s\<close>\<close>
  | Decimal          \<comment> \<open>\<^verbatim>\<open>%u\<close>, \<^verbatim>\<open>%d\<close>, \<^verbatim>\<open>%lu\<close>\<close>
  | Integer          \<comment> \<open>\<^verbatim>\<open>%i\<close>, \<^verbatim>\<open>%zi\<close>, \<^verbatim>\<open>%li\<close>: the base is found from the prefix\<close>
  | Until char       \<comment> \<open>\<^verbatim>\<open>%[^c]\<close>\<close>
  | Blanks
  | Literal char

text \<open>What a conversion stores. A number is kept as the number that was written; its variable
  takes it at the variable's width. (The C standard leaves undefined what is stored when the
  number does not fit.)\<close>

datatype stored = Number int | Text string

function conversions :: "string \<Rightarrow> conv list" where
  "conversions f =
     (if f = [] then []
      else if take 3 f = ''%*s'' then Skip_word # conversions (drop 3 f)
      else if take 2 f = ''%s'' then Word # conversions (drop 2 f)
      else if take 2 f = ''%u'' \<or> take 2 f = ''%d'' then Decimal # conversions (drop 2 f)
      else if take 3 f = ''%lu'' then Decimal # conversions (drop 3 f)
      else if take 2 f = ''%i'' then Integer # conversions (drop 2 f)
      else if take 3 f = ''%zi'' \<or> take 3 f = ''%li'' then Integer # conversions (drop 3 f)
      else if take 5 f = ''%[^,]'' then Until (CHR '','') # conversions (drop 5 f)
      else if is_blank (hd f) then Blanks # conversions (tl f)
      else Literal (hd f) # conversions (tl f))"
  by pat_completeness auto
termination by (relation "measure length") auto

declare conversions.simps [simp del]

definition num_of :: "nat \<Rightarrow> nat list \<Rightarrow> nat" where
  "num_of b ds = foldl (\<lambda>a d. a * b + d) 0 ds"

text \<open>A number: an optional sign, for \<open>auto\<close> a prefix that fixes the base, and at least one
  digit.\<close>

definition sign_of :: "string \<Rightarrow> int \<times> string" where
  "sign_of s =
     (case s of
        [] \<Rightarrow> (1, s)
      | c # s' \<Rightarrow> if c = CHR ''-'' then (-1, s') else if c = CHR ''+'' then (1, s') else (1, s))"

definition base_of :: "bool \<Rightarrow> string \<Rightarrow> nat \<times> string" where
  "base_of auto s =
     (if \<not> auto then (10, s)
      else if map tolower (take 2 s) = ''0x'' then (16, drop 2 s)
      else if take 1 s = ''0'' then (8, s)
      else (10, s))"

definition scan_number :: "bool \<Rightarrow> string \<Rightarrow> (int \<times> string) option" where
  "scan_number auto s =
     (let (sg, s1) = sign_of s; (b, s2) = base_of auto s1; ds = takeWhile (is_digit b) s2
      in if ds = [] then None
         else Some (sg * int (num_of b (map digit_val ds)), dropWhile (is_digit b) s2))"

text \<open>The directives are carried out in turn until one fails: by a mismatch, or because the
  input ends (first component of the result).\<close>

fun scan :: "conv list \<Rightarrow> string \<Rightarrow> bool \<times> stored list" where
  "scan [] s = (False, [])"
| "scan (Blanks # cs) s = scan cs (dropWhile is_blank s)"
| "scan (Literal c # cs) s =
     (case s of [] \<Rightarrow> (True, []) | c' # s' \<Rightarrow> if c' = c then scan cs s' else (False, []))"
| "scan (Until c # cs) s =
     (if s = [] then (True, [])
      else if hd s = c then (False, [])
      else (let (e, vs) = scan cs (dropWhile (\<lambda>x. x \<noteq> c) s)
            in (e, Text (takeWhile (\<lambda>x. x \<noteq> c) s) # vs)))"
| "scan (Skip_word # cs) s =
     (let s' = dropWhile is_blank s
      in if s' = [] then (True, []) else scan cs (dropWhile (\<lambda>x. \<not> is_blank x) s'))"
| "scan (Word # cs) s =
     (let s' = dropWhile is_blank s
      in if s' = [] then (True, [])
         else (let (e, vs) = scan cs (dropWhile (\<lambda>x. \<not> is_blank x) s')
               in (e, Text (takeWhile (\<lambda>x. \<not> is_blank x) s') # vs)))"
| "scan (Decimal # cs) s =
     (let s' = dropWhile is_blank s
      in if s' = [] then (True, [])
         else (case scan_number False s' of
                 None \<Rightarrow> (False, [])
               | Some (i, r) \<Rightarrow> (let (e, vs) = scan cs r in (e, Number i # vs))))"
| "scan (Integer # cs) s =
     (let s' = dropWhile is_blank s
      in if s' = [] then (True, [])
         else (case scan_number True s' of
                 None \<Rightarrow> (False, [])
               | Some (i, r) \<Rightarrow> (let (e, vs) = scan cs r in (e, Number i # vs))))"

text \<open>The return value is the number of values stored, or \<^verbatim>\<open>EOF\<close> (\<open>-1\<close>) if the input ends
  before anything was stored.\<close>

definition sscanf :: "string \<Rightarrow> string \<Rightarrow> int \<times> stored list" where
  "sscanf s f =
     (let (e, vs) = scan (conversions f) s in (if e \<and> vs = [] then -1 else int (length vs), vs))"

text \<open>The variable behind the \<open>i\<close>-th pointer argument, which keeps its value \<open>d\<close> when the
  conversion was not reached.\<close>

definition number_arg :: "stored list \<Rightarrow> nat \<Rightarrow> int \<Rightarrow> int" where
  "number_arg vs i d = (if i < length vs then (case vs ! i of Number n \<Rightarrow> n | Text _ \<Rightarrow> d) else d)"

definition text_arg :: "stored list \<Rightarrow> nat \<Rightarrow> string \<Rightarrow> string" where
  "text_arg vs i d = (if i < length vs then (case vs ! i of Text t \<Rightarrow> t | Number _ \<Rightarrow> d) else d)"

section \<open>Formatted output\<close>

text \<open>\<^verbatim>\<open>%02X\<close>, \<^verbatim>\<open>%04X\<close>, ...: at least \<open>k\<close> digits, padded with zeros; \<^verbatim>\<open>%6d\<close>,
  \<^verbatim>\<open>%10d\<close> pad with blanks, \<^verbatim>\<open>%-14s\<close> on the right.\<close>

definition pad0 :: "nat \<Rightarrow> string \<Rightarrow> string" where
  "pad0 k s = replicate (k - length s) (CHR ''0'') @ s"

definition pad_left :: "nat \<Rightarrow> string \<Rightarrow> string" where
  "pad_left k s = replicate (k - length s) (CHR '' '') @ s"

definition pad_right :: "nat \<Rightarrow> string \<Rightarrow> string" where
  "pad_right k s = s @ replicate (k - length s) (CHR '' '')"

definition hex2 :: "u8 \<Rightarrow> string" where
  "hex2 b = pad0 2 (show_hex (unat b))"

text \<open>\<^verbatim>\<open>for (i = 0; i < len; i++) printf("%02X ", data[i]);\<close>\<close>

definition hex_dump :: "bytes \<Rightarrow> string" where
  "hex_dump bs = concat (map (\<lambda>b. hex2 b @ '' '') bs)"

text \<open>\<^verbatim>\<open>sscanf(s, "%2x", &v)\<close> on a string of two characters without blanks, \<open>v\<close> being zero
  before: digits as far as there are, after an optional sign.\<close>

definition scan_hex2 :: "char \<Rightarrow> char \<Rightarrow> int" where
  "scan_hex2 c d =
     (if is_digit 16 c
      then (if is_digit 16 d then int (16 * digit_val c + digit_val d) else int (digit_val c))
      else if c = CHR ''-'' \<and> is_digit 16 d then - int (digit_val d)
      else if c = CHR ''+'' \<and> is_digit 16 d then int (digit_val d)
      else 0)"

section \<open>Reading back what was printed\<close>

lemma num_of_snoc: "num_of b (ds @ [d]) = num_of b ds * b + d"
  by (simp add: num_of_def)

lemma num_of_digits: "2 \<le> b \<Longrightarrow> num_of b (digits b n) = n"
proof (induction b n rule: digits.induct)
  case (1 b n)
  show ?case
  proof (cases "n < b")
    case True
    then show ?thesis by (simp add: digits.simps [of b n] num_of_def)
  next
    case False
    with 1 show ?thesis by (simp add: digits.simps [of b n] num_of_snoc)
  qed
qed

lemma digits_less: "2 \<le> b \<Longrightarrow> d \<in> set (digits b n) \<Longrightarrow> d < b"
proof (induction b n rule: digits.induct)
  case (1 b n)
  then show ?case by (subst (asm) (2) digits.simps) (auto split: if_splits)
qed

lemma length_digits:
  assumes "2 \<le> b"
  shows "n < b ^ Suc k \<Longrightarrow> length (digits b n) \<le> Suc k"
proof (induction k arbitrary: n)
  case 0
  then show ?case by (subst digits.simps) simp
next
  case (Suc k)
  have "n div b < b ^ Suc k" using Suc.prems assms by (simp add: div_less_iff_less_mult mult.commute)
  then show ?case using Suc.IH [of "n div b"] by (subst digits.simps) simp
qed

lemma digits_not_Nil [simp]: "digits b n \<noteq> []"
  by (subst digits.simps) simp

lemma of_char_digit_char: "d < 16 \<Longrightarrow> (of_char (digit_char d) :: nat) = (if d < 10 then 48 + d else 55 + d)"
  by (simp add: digit_char_def)

lemma digit_val_digit_char: "d < 16 \<Longrightarrow> digit_val (digit_char d) = d"
  by (simp add: digit_val_def of_char_digit_char)

lemma digit_char_not_blank: "d < 16 \<Longrightarrow> \<not> is_blank (digit_char d)"
  by (simp add: is_blank_def of_char_digit_char)

lemma digit_char_no_sign:
  assumes "d < 16"
  shows "digit_char d \<noteq> CHR ''-'' \<and> digit_char d \<noteq> CHR ''+''"
proof -
  have "(of_char (CHR ''-'') :: nat) = 45" "(of_char (CHR ''+'') :: nat) = 43" by simp_all
  moreover have "48 \<le> (of_char (digit_char d) :: nat)" using of_char_digit_char [OF assms] by simp
  ultimately show ?thesis by (auto dest: arg_cong [where f = "of_char :: char \<Rightarrow> nat"])
qed

lemma map_digit_val: "2 \<le> b \<Longrightarrow> b \<le> 16 \<Longrightarrow> map digit_val (map digit_char (digits b n)) = digits b n"
  by (auto intro!: map_idI simp: digit_val_digit_char dest: digits_less)

text \<open>What may follow a decimal number: the end, or a character that does not continue it.\<close>

definition ends_number :: "string \<Rightarrow> bool" where
  "ends_number r = (case r of [] \<Rightarrow> True | c # _ \<Rightarrow> \<not> is_digit 16 c \<and> tolower c \<noteq> CHR ''x'')"

lemma takeWhile_number:
  assumes "2 \<le> b" "b \<le> 16" and "ends_number r"
  shows "takeWhile (is_digit b) (map digit_char (digits b n) @ r) = map digit_char (digits b n)"
    and "dropWhile (is_digit b) (map digit_char (digits b n) @ r) = r"
proof -
  have "\<forall>c \<in> set (map digit_char (digits b n)). is_digit b c"
  proof
    fix c assume "c \<in> set (map digit_char (digits b n))"
    then obtain d where "d < b" "c = digit_char d" using digits_less [OF assms(1)] by auto
    then show "is_digit b c" using assms(2) by (simp add: digit_val_digit_char)
  qed
  moreover have "takeWhile (is_digit b) r = []" "dropWhile (is_digit b) r = r"
    using assms by (auto simp: ends_number_def split: list.splits)
  ultimately show
    "takeWhile (is_digit b) (map digit_char (digits b n) @ r) = map digit_char (digits b n)"
    "dropWhile (is_digit b) (map digit_char (digits b n) @ r) = r"
    by (simp_all only: takeWhile_append2 dropWhile_append2 append_Nil2)
qed

lemma digit_char_0 [simp]: "digit_char 0 = CHR ''0''"
  by code_simp

lemma show_nat_Cons:
  obtains d ds where "show_nat n = digit_char d # ds" "d < 10"
proof (cases "digits 10 n")
  case (Cons d ds)
  then have "d < 10" using digits_less [of 10 d n] by simp
  then show thesis using that [of d "map digit_char ds"] Cons by (simp add: show_nat_def)
qed simp

lemma digits_leading_zero: "2 \<le> b \<Longrightarrow> hd (digits b n) = 0 \<Longrightarrow> n = 0"
proof (induction b n rule: digits.induct)
  case (1 b n)
  show ?case
  proof (cases "n < b")
    case True
    then show ?thesis using 1(3) by (simp add: digits.simps [of b n])
  next
    case False
    then have "hd (digits b n) = hd (digits b (n div b))"
      using 1(2) by (simp add: digits.simps [of b n])
    then have "n div b = 0" using 1 False by simp
    then show ?thesis using False 1(2) by (simp add: div_eq_0_iff)
  qed
qed

lemma base_of_show_nat:
  assumes "ends_number r"
  shows "\<exists>b. 2 \<le> b \<and> b \<le> 16 \<and> base_of auto (show_nat n @ r) = (b, show_nat n @ r) \<and>
    show_nat n = map digit_char (digits b n)"
proof (cases "auto \<and> n = 0")
  case True
  have "map tolower (take 2 (digit_char 0 # r)) \<noteq> ''0x''"
    using assms by (auto simp: ends_number_def take_Cons' split: list.splits)
  then show ?thesis
    using True by (intro exI [of _ 8]) (simp add: base_of_def show_nat_def digits.simps)
next
  case False
  obtain d ds where d: "digits 10 n = d # ds" by (cases "digits 10 n") simp_all
  then have "d < 10" using digits_less [of 10 d n] by simp
  have "d \<noteq> 0" if "auto" using digits_leading_zero [of 10 n] that False d by auto
  then have "digit_char d \<noteq> CHR ''0''" if "auto"
    using that \<open>d < 10\<close> digit_val_digit_char [of d] by (auto simp: digit_val_def)
  moreover have "tolower (digit_char d) = digit_char d"
    using \<open>d < 10\<close> by (auto simp: tolower_def digit_char_def)
  ultimately have "base_of auto (show_nat n @ r) = (10, show_nat n @ r)"
    using d by (auto simp: base_of_def show_nat_def)
  then show ?thesis by (intro exI [of _ 10]) (simp add: show_nat_def)
qed

lemma scan_number_show_int:
  assumes "ends_number r"
  shows "scan_number auto (show_int i @ r) = Some (i, r)"
proof -
  let ?n = "nat \<bar>i\<bar>"
  obtain d ds where d: "show_nat ?n = digit_char d # ds" "d < 10" by (rule show_nat_Cons)
  have s: "sign_of (show_int i @ r) = (if i < 0 then -1 else 1, show_nat ?n @ r)"
    using d digit_char_no_sign [of d] by (auto simp: sign_of_def show_int_def)
  obtain b where b: "2 \<le> b" "b \<le> 16" "base_of auto (show_nat ?n @ r) = (b, show_nat ?n @ r)"
    "show_nat ?n = map digit_char (digits b ?n)"
    using base_of_show_nat [OF assms] by blast
  have "takeWhile (is_digit b) (show_nat ?n @ r) = map digit_char (digits b ?n)"
    "dropWhile (is_digit b) (show_nat ?n @ r) = r"
    unfolding b(4) by (rule takeWhile_number [OF b(1,2) assms])+
  then show ?thesis
    unfolding scan_number_def s Let_def prod.case b(3)
    using b(1,2) map_digit_val [OF b(1,2)] by (simp add: num_of_digits)
qed

lemma show_int_not_blank: "\<exists>c s. show_int i = c # s \<and> \<not> is_blank c"
proof -
  obtain d ds where d: "show_nat (nat \<bar>i\<bar>) = digit_char d # ds" "d < 10" by (rule show_nat_Cons)
  then show ?thesis
    using digit_char_not_blank [of d] by (cases "i < 0") (auto simp: show_int_def is_blank_def)
qed

text \<open>Blanks before a number are skipped, so a printed number is read back behind any of them.\<close>

lemma scan_show_int:
  assumes "\<forall>c \<in> set ws. is_blank c" and "ends_number r"
  shows "scan (Decimal # cs) (ws @ show_int i @ r) = (let (e, vs) = scan cs r in (e, Number i # vs))"
    and "scan (Integer # cs) (ws @ show_int i @ r) = (let (e, vs) = scan cs r in (e, Number i # vs))"
proof -
  obtain c s where c: "show_int i = c # s" "\<not> is_blank c" using show_int_not_blank by blast
  then have "dropWhile is_blank (ws @ show_int i @ r) = show_int i @ r"
    using assms(1) by (simp add: dropWhile_append2)
  moreover have "show_int i \<noteq> []" using c by simp
  ultimately show
    "scan (Decimal # cs) (ws @ show_int i @ r) = (let (e, vs) = scan cs r in (e, Number i # vs))"
    "scan (Integer # cs) (ws @ show_int i @ r) = (let (e, vs) = scan cs r in (e, Number i # vs))"
    by (simp_all add: scan_number_show_int [OF assms(2)])
qed

lemma scan_word:
  assumes "\<forall>c \<in> set w. \<not> is_blank c" and "w \<noteq> []" and "r = [] \<or> is_blank (hd r)"
  shows "scan (Skip_word # cs) (w @ r) = scan cs r"
    and "scan (Word # cs) (w @ r) = (let (e, vs) = scan cs r in (e, Text w # vs))"
proof -
  have "dropWhile is_blank (w @ r) = w @ r" using assms(1,2) by (cases w) auto
  moreover have "takeWhile (\<lambda>x. \<not> is_blank x) (w @ r) = w" "dropWhile (\<lambda>x. \<not> is_blank x) (w @ r) = r"
    using assms by (cases r; auto simp: takeWhile_append2 dropWhile_append2)+
  ultimately show "scan (Skip_word # cs) (w @ r) = scan cs r"
    "scan (Word # cs) (w @ r) = (let (e, vs) = scan cs r in (e, Text w # vs))"
    using assms(2) by simp_all
qed

lemma u8_div_16: "unat (b :: u8) div 16 < 16"
  using unat_u8_less [of b] by linarith

lemma hex2_digits:
  "hex2 b = [digit_char (unat b div 16), digit_char (unat b mod 16)]"
proof (cases "unat b < 16")
  case True
  then have "digits 16 (unat b) = [unat b]" by (subst digits.simps) simp
  with True show ?thesis by (simp add: hex2_def pad0_def show_hex_def)
next
  case False
  have "digits 16 (unat b div 16) = [unat b div 16]"
    using u8_div_16 [of b] by (subst digits.simps) simp
  then have "digits 16 (unat b) = [unat b div 16, unat b mod 16]"
    using False by (subst digits.simps) simp
  then show ?thesis by (simp add: hex2_def pad0_def show_hex_def)
qed

lemma scan_hex2_hex2: "hex2 b = [c, d] \<Longrightarrow> scan_hex2 c d = int (unat b)"
proof -
  assume "hex2 b = [c, d]"
  then have cd: "c = digit_char (unat b div 16)" "d = digit_char (unat b mod 16)"
    by (simp_all add: hex2_digits)
  show ?thesis using u8_div_16 [of b] by (simp add: scan_hex2_def cd digit_val_digit_char)
qed

end
