(* ===== verification/Commands.thy ===== *)
theory Commands
  imports Scan
begin

text \<open>
  The commands of the command line tool: the table \<^verbatim>\<open>s_cmds\<close> of \<^verbatim>\<open>main.c\<close>, the search
  in it, and the help texts. The lemmas show that the search finds for every command, however
  it is abbreviated and capitalised, that command and no other.
\<close>

section \<open>The table\<close>

datatype cmdid_t =
    cmdid_sync | cmdid_proto | cmdid_part | cmdid_getrtc | cmdid_setrtc | cmdid_setgpo
  | cmdid_setled | cmdid_getstatus | cmdid_flashid | cmdid_wflash | cmdid_rflash
  | cmdid_eflash | cmdid_gfile | cmdid_gfiletype | cmdid_pfile | cmdid_pfiletype
  | cmdid_dfile | cmdid_dfiletype | cmdid_blupl | cmdid_fwupl | cmdid_blupd | cmdid_fwinv
  | cmdid_restart | cmdid_getlog | cmdid_putlog | cmdid_getpos | cmdid_hdeject
  | cmdid_hdonoff | cmdid_gpipower | cmdid_shutdown | cmdid_heartbeat | cmdid_wait
  | cmdid_exit | cmdid_help | cmdid_getiddata | cmdid_clearlog | cmdid_debugset
  | cmdid_debugget | cmdid_unknown

text \<open>The fields \<^verbatim>\<open>id\<close>, \<^verbatim>\<open>cmdtext\<close>, \<^verbatim>\<open>matchlen\<close>, \<^verbatim>\<open>helptext\<close>.\<close>

datatype cmd_t = Cmd (cmd_id: cmdid_t) (cmdtext: string) (matchlen: nat) (helptext: string)

abbreviation eol :: string where "eol \<equiv> [CHR 0x0A]"

definition tabs :: "nat \<Rightarrow> string" where
  "tabs n = replicate n (CHR 0x09)"

definition s_cmds :: "cmd_t list" where
  "s_cmds = [
    Cmd cmdid_sync ''sync'' 2 ''send SYNC message'',
    Cmd cmdid_proto ''proto'' 2 ''request PROTOCOL info'',
    Cmd cmdid_part ''part'' 2 ''request PARTITION TABLE info'',
    Cmd cmdid_getrtc ''getrtc'' 6 ''request RTC info'',
    Cmd cmdid_setrtc ''setrtc [T]'' 6
     ''set RTC date/time to T (format YYYY-MM-DD hh:mm:ss) or current time'',
    Cmd cmdid_setgpo ''setgpo N,S'' 6 ''set GPO N (1-4) to state S (0|1)'',
    Cmd cmdid_setled ''setled N,C[,L,O,P]'' 4
     (''set LED N (1-4) to color C (0|1|2|3), optional flashing with '' @
      ''on-time L, off-time O and phase shift P (all in 1/20s)''),
    Cmd cmdid_getstatus ''getstatus'' 4 ''get status message'',
    Cmd cmdid_getiddata ''getid'' 5 ''get id data'',
    Cmd cmdid_flashid ''flashid'' 3 ''request FLASHID info'',
    Cmd cmdid_rflash ''rflash A,L[,F]'' 3
     ''read L bytes from flash address A into file F or hexdump to stdout'',
    Cmd cmdid_wflash ''wflash A,L,F'' 3 ''write L bytes from file F into flash address A'',
    Cmd cmdid_eflash ''eflash N'' 3
     ''erase 4k flash block N (range depends on flash type)'',
    Cmd cmdid_gfile ''getfile E,F'' 5 ''write data from index E to local file F'',
    Cmd cmdid_gfiletype ''gfiletype X,F'' 6
     ''write data from file X(0xTI, type T with sub-number I) to local file F'',
    Cmd cmdid_pfile ''putfile I,T,F'' 5
     ''write data from local file F as type T with sub-number I'',
    Cmd cmdid_pfiletype ''pfiletype X,F'' 6
     ''write data from local file F as file X(0xTI, type T with sub-number I)'',
    Cmd cmdid_dfile ''delfile E'' 5 ''delete file at index E'',
    Cmd cmdid_dfiletype ''dfiletype X'' 6
     ''delete file X(0xTI, type T with sub-number I)'',
    Cmd cmdid_blupl ''blupload F'' 5 ''upload new bootloader from file F'',
    Cmd cmdid_fwupl ''fwupload F'' 5 ''upload new firmware from file F'',
    Cmd cmdid_blupd ''blupdate'' 5 ''update bootloader'',
    Cmd cmdid_fwinv ''fwinv'' 3 ''invalidate firmware'',
    Cmd cmdid_restart ''restart'' 2 ''restart board controller when host power is off'',
    Cmd cmdid_getlog (''getlog ['' @ ''[I][,R[,F]'' @ '']'' @ '']'') 4
     (''get flash log'' @ eol @
      tabs 3 @ ''I>=0: from log entry I to last'' @ eol @
      tabs 3 @ '' I<0: last I entries'' @ eol @
      tabs 3 @ ''no I: all'' @ eol @
      tabs 3 @ ''R (0|1) show raw data (default 0), F file or dump to stdout''),
    Cmd cmdid_putlog ''putlog [L]'' 4
     ''generate a test flash log entry with L bytes (1-128, default 5)'',
    Cmd cmdid_getpos ''getpos'' 4 ''get flash log position'',
    Cmd cmdid_clearlog ''clearlog'' 8 ''clear flash log'',
    Cmd cmdid_hdeject ''hdeject'' 3 ''eject hard disc'',
    Cmd cmdid_hdonoff ''hdpower I'' 3 ''switch hard disc power I (0|1)'',
    Cmd cmdid_gpipower ''gpipower I'' 4 ''switch GPI power I (0|1)'',
    Cmd cmdid_wait ''wait N'' 2 ''wait N milliseconds before sending next command'',
    Cmd cmdid_shutdown ''shutdown N'' 4
     ''shutdown with N (0-65535) seconds timeout for power off'',
    Cmd cmdid_heartbeat ''heartbeat N'' 5 ''heartbeat with N (0-65535) seconds timeout'',
    Cmd cmdid_exit ''exit'' 2 ''stop sending commands and exit (same as 'quit')'',
    Cmd cmdid_exit ''quit'' 1 ''stop sending commands and exit (same as 'exit')'',
    Cmd cmdid_help ''help'' 1 ''print command help'',
    Cmd cmdid_debugset ''debugset A[,DATA]'' 8
     (''send debug set message with address A and optional DATA (as hex string, e.g. 13,050008000005)'' @ eol @
      tabs 3 @ ''A=3 : (1/0) temperature test mode active/inactive 1 DATA byte required'' @ eol @
      tabs 3 @ ''A=4 : temperature value in temp test mode as int8, 1 DATA byte required'' @ eol @
      tabs 3 @ ''A=5 : (1/0) reset active/inactive 1 DATA byte required'' @ eol @
      tabs 3 @ ''A=9 : write a log entry with all measured voltages'' @ eol @
      tabs 3 @ ''A=10: GPI/SPI debounce time in milliseconds 1 DATA byte required'' @ eol @
      tabs 3 @ ''A=13: acceleration test: 2 DATA byte per axis x, y, z required, lowbyte first'' @ eol @
      tabs 4 @ '' value 1 is equivalent to 3,90625mg(1000/256), value 0xffff is equivalent to -3,90625mg'' @ eol @
      tabs 3 @ ''A=16: GPI/SFI override: 3 DATA bytes required: 1st: 1/0 override active/inactive, 2nd: GPI override, 3rd: SFI override'' @ eol @
      tabs 3 @ ''A=256: temp limit power low as int8, 1 DATA byte required'' @ eol @
      tabs 3 @ ''A=257: temp limit power high as int8, 1 DATA byte required'' @ eol @
      tabs 3 @ ''A=258: temp limit reset as int8, 1 DATA byte required'' @ eol @
      tabs 3 @ ''A=259: temp limit hard high as int8, 1 DATA byte required'' @ eol @
      tabs 3 @ ''A=261: acceleration threshold high: (g-value * 256)^2, 4 DATA byte required, hibyte first''),
    Cmd cmdid_debugget ''debugget A'' 8
     (''send debug get message with address A'' @ eol @
      tabs 3 @ ''A=0 :  4 x 2 byte counter (hi lo): extuart dropped chars + crc errors, then same for oxeuart'' @ eol @
      tabs 3 @ ''A=1 :  current value and limit of heartbeat timer in seconds, 2 x 2 byte, hibyte first'' @ eol @
      tabs 3 @ ''A=10:  GPI/SPI debounce time in milliseconds'' @ eol @
      tabs 3 @ ''A=256: temp limit power low as int8'' @ eol @
      tabs 3 @ ''A=257: temp limit power high as int8'' @ eol @
      tabs 3 @ ''A=258: temp limit reset as int8'' @ eol @
      tabs 3 @ ''A=259: temp limit hard high as int8'' @ eol @
      tabs 3 @ ''A=261: acceleration threshold high: (g-value * 256)^2, hibyte first''),
    Cmd cmdid_unknown ''unknown'' 0 []]"

text \<open>The loop of \<^verbatim>\<open>get_command\<close>, which ends at the entry \<^const>\<open>cmdid_unknown\<close>.\<close>

fun find_command :: "cmd_t list \<Rightarrow> string \<Rightarrow> cmdid_t" where
  "find_command [] line = cmdid_unknown"
| "find_command (e # es) line =
     (if cmd_id e = cmdid_unknown then cmdid_unknown
      else if strncasecmp_eq line (cmdtext e) (matchlen e) then cmd_id e
      else find_command es line)"

section \<open>Speeds and help texts\<close>

datatype DRBCC_BR_t = DRBCC_BR_57600 | DRBCC_BR_115200 | DRBCC_BR_921600

fun speed_2_uint :: "DRBCC_BR_t \<Rightarrow> nat" where
  "speed_2_uint DRBCC_BR_921600 = 921600"
| "speed_2_uint DRBCC_BR_115200 = 115200"
| "speed_2_uint DRBCC_BR_57600 = 57600"

definition cmd_lines :: string where
  "cmd_lines = concat (map (\<lambda>e. ''  '' @ pad_right 14 (cmdtext e) @ ''  '' @ helptext e @ eol)
     (takeWhile (\<lambda>e. cmd_id e \<noteq> cmdid_unknown) s_cmds))"

definition trace_mask_line :: "nat \<Rightarrow> string \<Rightarrow> string" where
  "trace_mask_line k what = ''                   0x'' @ pad0 8 (show_hex (15 * 16 ^ k)) @ what @ eol"

text \<open>The part of the usage that both kinds of board controller have in common; the arguments
  are the name of the program, the default speed, and the texts that differ.\<close>

definition usage_head :: "string \<Rightarrow> DRBCC_BR_t \<Rightarrow> string \<Rightarrow> string \<Rightarrow> string" where
  "usage_head progname speed what accepted =
     ''Usage: '' @ progname @ '' [options]'' @ eol @
     what @ eol @ eol @
     ''Options'' @ eol @
     ''  --version,       print version and exit successfully'' @ eol @
     ''  --help, -h       print this help and exit successfully'' @ eol @
     ''  --cmd=CMD        execute the CMD and exit'' @ eol @
     ''  --trace=LEVEL    set tracelevel (default: 1)'' @ eol @
     ''                   1 no debug info, just errors'' @ eol @
     ''                   4 + global info and warnings'' @ eol @
     ''                   8 + mainloop activities'' @ eol @
     ''  --libtrace=MASK  set tracemask for libdrbcc'' @ eol @
     trace_mask_line 2 '' serial transport'' @
     trace_mask_line 3 '' parameter parsing'' @
     trace_mask_line 4 '' queue handling'' @
     trace_mask_line 5 '' message handling'' @
     ''  --dev=DEVICE[,SPEED]  character device of board controller'' @ eol @
     ''                   supported speeds: 57600, 115200, 921600(default '' @
       show_nat (speed_2_uint speed) @ '')'' @ eol @
     accepted @ eol"

definition print_usage :: "string \<Rightarrow> DRBCC_BR_t \<Rightarrow> bool \<Rightarrow> string" where
  "print_usage progname speed complete =
     (if complete
      then usage_head progname speed
        ''Send/libdrbcc_receive messages to HydraIP board controller.''
        ''Commands accepted at stdin (new-line terminated):''
      else []) @ cmd_lines"

definition print_dvmon_usage :: "string \<Rightarrow> DRBCC_BR_t \<Rightarrow> bool \<Rightarrow> string" where
  "print_dvmon_usage progname speed complete =
     (if complete
      then usage_head progname speed
          ''Send/libdrbcc_receive messages to HydraIP board controller light.''
          ''Commands accepted at --cmd=:'' @
        concat (map (\<lambda>l. tabs 1 @ l @ eol)
          [''proto            request PROTOCOL info'',
           ''gfiletype 0x50,F write hydraip-devid to local file F'',
           ''pfiletype 0x50,F read hydraip-devid from file F to BCTRL'',
           ''fwupload F       update firmware from file F'',
           ''heartbeat N      heartbeat with N (0-65535) seconds timeout'',
           ''shutdown N       heartbeat with N (0-65535) seconds timeout'',
           ''waitpoweroff     do not reboot at next shutdown'',
           ''getrtc           returns \"rtc_cb: 2000-01-01 00:00:00 (epoch=0)\"''])
      else [])"

definition print_version :: "string \<Rightarrow> string" where
  "print_version progname = progname @ '' [$Id: 93017dade4c38248eea7c00b06077731d8fc9311 $]'' @ eol"

section \<open>The search\<close>

text \<open>What is compared of an entry, and its command word in full.\<close>

definition cmd_key :: "cmd_t \<Rightarrow> string" where
  "cmd_key e = take (matchlen e) (cmdtext e)"

definition cmd_word :: "cmd_t \<Rightarrow> string" where
  "cmd_word e = takeWhile (\<lambda>c. c \<noteq> CHR '' '') (cmdtext e)"

definition known_cmds :: "cmd_t list" where
  "known_cmds = takeWhile (\<lambda>e. cmd_id e \<noteq> cmdid_unknown) s_cmds"

abbreviation letters :: string where "letters \<equiv> ''abcdefghijklmnopqrstuvwxyz''"

lemma known_cmds_table:
  "map (\<lambda>e. (cmd_id e, cmd_key e, cmd_word e)) known_cmds = [
    (cmdid_sync, ''sy'', ''sync''), (cmdid_proto, ''pr'', ''proto''),
    (cmdid_part, ''pa'', ''part''), (cmdid_getrtc, ''getrtc'', ''getrtc''),
    (cmdid_setrtc, ''setrtc'', ''setrtc''), (cmdid_setgpo, ''setgpo'', ''setgpo''),
    (cmdid_setled, ''setl'', ''setled''), (cmdid_getstatus, ''gets'', ''getstatus''),
    (cmdid_getiddata, ''getid'', ''getid''), (cmdid_flashid, ''fla'', ''flashid''),
    (cmdid_rflash, ''rfl'', ''rflash''), (cmdid_wflash, ''wfl'', ''wflash''),
    (cmdid_eflash, ''efl'', ''eflash''), (cmdid_gfile, ''getfi'', ''getfile''),
    (cmdid_gfiletype, ''gfilet'', ''gfiletype''), (cmdid_pfile, ''putfi'', ''putfile''),
    (cmdid_pfiletype, ''pfilet'', ''pfiletype''), (cmdid_dfile, ''delfi'', ''delfile''),
    (cmdid_dfiletype, ''dfilet'', ''dfiletype''), (cmdid_blupl, ''blupl'', ''blupload''),
    (cmdid_fwupl, ''fwupl'', ''fwupload''), (cmdid_blupd, ''blupd'', ''blupdate''),
    (cmdid_fwinv, ''fwi'', ''fwinv''), (cmdid_restart, ''re'', ''restart''),
    (cmdid_getlog, ''getl'', ''getlog''), (cmdid_putlog, ''putl'', ''putlog''),
    (cmdid_getpos, ''getp'', ''getpos''), (cmdid_clearlog, ''clearlog'', ''clearlog''),
    (cmdid_hdeject, ''hde'', ''hdeject''), (cmdid_hdonoff, ''hdp'', ''hdpower''),
    (cmdid_gpipower, ''gpip'', ''gpipower''), (cmdid_wait, ''wa'', ''wait''),
    (cmdid_shutdown, ''shut'', ''shutdown''), (cmdid_heartbeat, ''heart'', ''heartbeat''),
    (cmdid_exit, ''ex'', ''exit''), (cmdid_exit, ''q'', ''quit''),
    (cmdid_help, ''h'', ''help''), (cmdid_debugset, ''debugset'', ''debugset''),
    (cmdid_debugget, ''debugget'', ''debugget'')]"
  by (simp add: known_cmds_def s_cmds_def cmd_key_def cmd_word_def)

lemma tolower_letters: "c \<in> set letters \<Longrightarrow> tolower c = c"
  by (auto simp: tolower_def)

lemma tolower_is_blank [simp]: "is_blank (tolower c) = is_blank c"
proof (cases "65 \<le> (of_char c :: nat) \<and> (of_char c :: nat) \<le> 90")
  case True
  then have "(of_char (tolower c) :: nat) = of_char c + 32" by (simp add: tolower_def)
  with True show ?thesis by (simp add: is_blank_def)
qed (auto simp: tolower_def)

text \<open>The table seen as triples of identification, compared text and command word.\<close>

abbreviation cmd_row :: "cmd_t \<Rightarrow> cmdid_t \<times> string \<times> string" where
  "cmd_row e \<equiv> (cmd_id e, cmd_key e, cmd_word e)"

fun row_ok :: "cmdid_t \<times> string \<times> string \<Rightarrow> bool" where
  "row_ok (i, k, w) = (set k \<subseteq> set letters \<and> take (length k) w = k)"

fun unambiguous :: "(cmdid_t \<times> string \<times> string) list \<Rightarrow> bool" where
  "unambiguous [] = True"
| "unambiguous ((i, k, w) # rs) =
     ((\<forall>(i', k', w') \<in> set rs. i' = i \<or> take (length k) w' \<noteq> k) \<and> unambiguous rs)"

lemma known_cmds_ok:
  "\<forall>r \<in> set (map cmd_row known_cmds). row_ok r" "unambiguous (map cmd_row known_cmds)"
  "\<forall>e \<in> set known_cmds. length (cmd_key e) = matchlen e"
proof -
  show "\<forall>r \<in> set (map cmd_row known_cmds). row_ok r" unfolding known_cmds_table by simp
  show "unambiguous (map cmd_row known_cmds)" unfolding known_cmds_table by simp
  show "\<forall>e \<in> set known_cmds. length (cmd_key e) = matchlen e"
    by (simp add: known_cmds_def s_cmds_def cmd_key_def)
qed

lemma map_tolower_letters: "set k \<subseteq> set letters \<Longrightarrow> map tolower k = k"
  by (rule map_idI) (use tolower_letters in blast)

lemma letters_not_blank: "c \<in> set letters \<Longrightarrow> \<not> is_blank c"
  by (auto simp: is_blank_def)

lemma entry_matches_iff:
  assumes key: "set (cmd_key e) \<subseteq> set letters" "length (cmd_key e) = matchlen e"
    and rest: "rest = [] \<or> is_blank (hd rest)"
  shows "strncasecmp_eq (w @ rest) (cmdtext e) (matchlen e) \<longleftrightarrow>
    take (length (cmd_key e)) (map tolower w) = cmd_key e"
proof -
  let ?k = "cmd_key e"
  have k: "map tolower (take (matchlen e) (cmdtext e)) = ?k"
    using map_tolower_letters [OF key(1)] by (simp add: cmd_key_def)
  show ?thesis
  proof (cases "matchlen e \<le> length w \<or> rest = []")
    case True
    then show ?thesis unfolding strncasecmp_eq_def k by (auto simp: key(2) take_map)
  next
    case False
    then obtain b r where b: "rest = b # r" "is_blank b" using rest by (cases rest) auto
    have "tolower b \<in> set (map tolower (take (matchlen e) (w @ rest)))"
      using False b by (auto simp: take_Cons')
    moreover have "tolower b \<notin> set ?k" using key(1) letters_not_blank b(2) tolower_is_blank by blast
    ultimately have "map tolower (take (matchlen e) (w @ rest)) \<noteq> ?k" by metis
    moreover have "take (length ?k) (map tolower w) \<noteq> ?k"
      using False key(2) by (metis length_map length_take min.absorb_iff2 min.commute)
    ultimately show ?thesis unfolding strncasecmp_eq_def k by simp
  qed
qed

lemma find_command_table:
  assumes "\<forall>e \<in> set es. cmd_id e \<noteq> cmdid_unknown \<and> row_ok (cmd_row e) \<and> length (cmd_key e) = matchlen e"
    and "unambiguous (map cmd_row es)" and "e \<in> set es"
    and "matchlen e \<le> k" "map tolower w = take k (cmd_word e)" "rest = [] \<or> is_blank (hd rest)"
  shows "find_command (es @ fs) (w @ rest) = cmd_id e"
  using assms(1-3)
proof (induction es)
  case (Cons a es)
  note iff = entry_matches_iff [OF _ _ assms(6), of a w]
  have first: "find_command ((a # es) @ fs) (w @ rest) =
      (if take (length (cmd_key a)) (map tolower w) = cmd_key a then cmd_id a
       else find_command (es @ fs) (w @ rest))"
    using Cons(2) iff by simp
  have self: "take (length (cmd_key e)) (map tolower w) = cmd_key e"
    using Cons(2,4) assms(4,5) by (auto simp: min_def)
  have same: "cmd_id a = cmd_id e"
    if "take (length (cmd_key a)) (map tolower w) = cmd_key a" "e \<in> set es"
  proof -
    have "take (min (length (cmd_key a)) k) (cmd_word e) = cmd_key a"
      using that(1) assms(5) by simp
    then have "take (length (cmd_key a)) (cmd_word e) = cmd_key a"
      by (metis append_take_drop_id length_take min.cobounded1 min.cobounded2 min.left_commute min_def take_all take_take)
    then show ?thesis using Cons(3) that(2) by auto
  qed
  have later: "find_command (es @ fs) (w @ rest) = cmd_id e" if "e \<in> set es"
  proof (rule Cons.IH [OF _ _ that])
    show "\<forall>e \<in> set es. cmd_id e \<noteq> cmdid_unknown \<and> row_ok (cmd_row e) \<and> length (cmd_key e) = matchlen e"
      using Cons.prems(1) by (metis list.set_intros(2))
    show "unambiguous (map cmd_row es)" using Cons.prems(2) by simp
  qed
  show ?case
  proof (cases "take (length (cmd_key a)) (map tolower w) = cmd_key a")
    case True
    then show ?thesis using first same Cons.prems(3) by auto
  next
    case False
    then have "e \<in> set es" using self Cons.prems(3) by auto
    then show ?thesis using first later False by simp
  qed
qed simp

section \<open>Properties\<close>

text \<open>C32. No command of the table hides another one: whatever command is typed, spelled out or
  abbreviated to any prefix that has at least the letters its entry asks for, in small or in
  capital letters, at the end of the line or before a blank and arguments, the search finds
  that command.\<close>

theorem commands_unambiguous:
  assumes "e \<in> set known_cmds" and "matchlen e \<le> k" and "map tolower w = take k (cmd_word e)"
    and "rest = [] \<or> is_blank (hd rest)"
  shows "find_command s_cmds (w @ rest) = cmd_id e"
proof -
  have "\<forall>e \<in> set known_cmds. cmd_id e \<noteq> cmdid_unknown \<and> row_ok (cmd_row e) \<and> length (cmd_key e) = matchlen e"
    using known_cmds_ok(1,3) by (auto simp: known_cmds_def dest: set_takeWhileD)
  from find_command_table [OF this known_cmds_ok(2) assms, of "dropWhile (\<lambda>e. cmd_id e \<noteq> cmdid_unknown) s_cmds"]
  show ?thesis by (simp add: known_cmds_def)
qed

theorem commands_unambiguous_witness:
  "find_command s_cmds (''GETfi'' @ '' 3,devid.txt'') = cmdid_gfile"
proof -
  let ?e = "Cmd cmdid_gfile ''getfile E,F'' 5 ''write data from index E to local file F''"
  have "?e \<in> set known_cmds" by (simp add: known_cmds_def s_cmds_def)
  moreover have "map tolower ''GETfi'' = ''getfi''" by code_simp
  then have "map tolower ''GETfi'' = take 5 (cmd_word ?e)" by (simp add: cmd_word_def)
  ultimately show ?thesis
    using commands_unambiguous [of ?e 5 "''GETfi''" "'' 3,devid.txt''"] by (simp add: is_blank_def)
qed

end
