(* ===== verification/Callback_Text.thy ===== *)
theory Callback_Text
  imports Scan Handle
begin

text \<open>
  What the callbacks of the command line tool (\<^verbatim>\<open>main.c\<close>) print, as strings: the log
  entries with the enumerations of \<^verbatim>\<open>drbcc_com.h\<close> they are decoded by, the status, the
  partition table and the rest. Data arrive as byte arrays; the lemmas show how many of their
  bytes are looked at and that a hexadecimal dump determines the bytes it shows.

  Two results of floating point operations appear in the texts. A voltage is a 16 bit number
  of hundredths, printed with two decimals: the rounding errors of the division are far below
  a hundredth, so its text is that of the number. An acceleration is multiplied by 1000 and
  divided by 256, both exact in \<^verbatim>\<open>float\<close>, and cut to an integer of 16 bits; what that
  conversion gives out of the range is undefined in C and is the argument \<open>conv16\<close> here. The
  text of the length of the acceleration vector is the argument \<open>accel_text\<close>.
\<close>

section \<open>Enumerations of the device\<close>

datatype DRBCC_LOG_EVENT_t =
    DRBCC_E_EXTENSION | DRBCC_E_RAMLOG_OVERRUN | DRBCC_E_ILL_BID | DRBCC_E_ILL_PWR_STATE
  | DRBCC_E_PWR_LOSS | DRBCC_E_HOST_LOGENTRY | DRBCC_E_PWR_CHNG | DRBCC_E_ILL_INT
  | DRBCC_E_HDD_CHNG | DRBCC_E_KEY_DETECTED | DRBCC_E_KEY_REJECTED | DRBCC_E_KEY_SUCCESS
  | DRBCC_E_UNLOCK_ERROR | DRBCC_E_KEY_COMM_ERROR | DRBCC_E_KEY_HEADER_ERROR | DRBCC_E_RTC_SET
  | DRBCC_E_COMM_TIMEOUT | DRBCC_E_VOLTAGE_INFO | DRBCC_E_LOG_CLEARED | DRBCC_E_HDD_USABLE_ON
  | DRBCC_E_FW_UPDATE | DRBCC_E_BL_UPDATE | DRBCC_E_FW_REBOOT | DRBCC_E_OVERTEMP_OFF
  | DRBCC_E_TEMPLIMIT | DRBCC_E_ACCEL_EVENT | DRBCC_E_EMPTY

text \<open>The enumerators count from 1 in the order of their declaration; \<^verbatim>\<open>DRBCC_E_EMPTY\<close> is
  \<open>0xff\<close>.\<close>

definition log_event :: "u8 \<Rightarrow> DRBCC_LOG_EVENT_t option" where
  "log_event b =
     (if b = 0xff then Some DRBCC_E_EMPTY
      else if 1 \<le> unat b \<and> unat b \<le> 26
      then Some ([DRBCC_E_EXTENSION, DRBCC_E_RAMLOG_OVERRUN, DRBCC_E_ILL_BID,
        DRBCC_E_ILL_PWR_STATE, DRBCC_E_PWR_LOSS, DRBCC_E_HOST_LOGENTRY, DRBCC_E_PWR_CHNG,
        DRBCC_E_ILL_INT, DRBCC_E_HDD_CHNG, DRBCC_E_KEY_DETECTED, DRBCC_E_KEY_REJECTED,
        DRBCC_E_KEY_SUCCESS, DRBCC_E_UNLOCK_ERROR, DRBCC_E_KEY_COMM_ERROR,
        DRBCC_E_KEY_HEADER_ERROR, DRBCC_E_RTC_SET, DRBCC_E_COMM_TIMEOUT, DRBCC_E_VOLTAGE_INFO,
        DRBCC_E_LOG_CLEARED, DRBCC_E_HDD_USABLE_ON, DRBCC_E_FW_UPDATE, DRBCC_E_BL_UPDATE,
        DRBCC_E_FW_REBOOT, DRBCC_E_OVERTEMP_OFF, DRBCC_E_TEMPLIMIT, DRBCC_E_ACCEL_EVENT]
        ! (unat b - 1))
      else None)"

text \<open>Power states: three bits of state and five option bits.\<close>

definition DRBCC_P_MAIN_STATE_MASK :: u8 where "DRBCC_P_MAIN_STATE_MASK = 0x07"

definition option_bits :: "u8 list" where
  "option_bits = [0x80, 0x40, 0x20, 0x10, 0x08]"

definition power_state_names :: "string list" where
  "power_state_names = [''UNKNOWN'', ''LI_BATT'', ''KEY_PWR'', ''STANDBY'', ''HOST_ON'']"

text \<open>Tokens of a key: the command bits, and the value for an eject without a key.\<close>

definition DRBCC_KEY_CMD0_TTU_EJECT :: u8 where "DRBCC_KEY_CMD0_TTU_EJECT = 0xE9"

definition key_bits :: "(u8 \<times> string) list" where
  "key_bits = [(0x01, '' EJECT''), (0x02, '' CLEAR''), (0x04, '' ADAPT''), (0x08, '' NOCOMP''),
     (0x10, '' EXPIRES'')]"

text \<open>The names of the voltages, indexed by \<^verbatim>\<open>DRBCC_VOLTAGE_ID_t\<close>.\<close>

definition voltage_names :: "string list" where
  "voltage_names = [''PFLT='', ''PCAP='', ''PCAM='', ''VKEY='', ''SCAP='', ''12V='', ''5V='',
     ''VDD='', ''1V8='', ''1V2='', ''1V0='', ''3V3D='', ''1V5='', ''TERM='', ''VBAT='']"

text \<open>Bits of the first bytes of a status.\<close>

definition DRBCC_SFI_IGNITION_bm :: u8 where "DRBCC_SFI_IGNITION_bm = 0x01"
definition DRBCC_SFI_HDD_SENS_bm :: u8 where "DRBCC_SFI_HDD_SENS_bm = 0x02"
definition DRBCC_SFI_HDD_USABLE_bm :: u8 where "DRBCC_SFI_HDD_USABLE_bm = 0x04"
definition DRBCC_SFI_HOST_RUNNING_bm :: u8 where "DRBCC_SFI_HOST_RUNNING_bm = 0x08"
definition DRBCC_SFI_XOSC_ERR_bm :: u8 where "DRBCC_SFI_XOSC_ERR_bm = 0x10"
definition DRBCC_SFO_GPIPWR_bm :: u8 where "DRBCC_SFO_GPIPWR_bm = 0x01"
definition DRBCC_SFO_HDDPWR_bm :: u8 where "DRBCC_SFO_HDDPWR_bm = 0x02"

section \<open>Numbers\<close>

abbreviation newline :: string where "newline \<equiv> [CHR 0x0A]"

definition dec :: "u8 \<Rightarrow> string" where "dec b = show_nat (unat b)"

definition dec_signed :: "u8 \<Rightarrow> string" where "dec_signed b = show_int (sint b)"

text \<open>\<^verbatim>\<open>(int16_t)(256 * hi + lo)\<close>\<close>

definition int16 :: "u8 \<Rightarrow> u8 \<Rightarrow> int" where
  "int16 hi lo = sint (word_of_int (256 * uint hi + uint lo) :: u16)"

text \<open>\<^verbatim>\<open>%.2f\<close> of a number of hundredths.\<close>

definition show_hundredths :: "int \<Rightarrow> string" where
  "show_hundredths x = (if x < 0 then ''-'' else []) @ show_nat (nat \<bar>x\<bar> div 100) @ ''.'' @
     pad0 2 (show_nat (nat \<bar>x\<bar> mod 100))"

text \<open>\<^verbatim>\<open>f = x; f *= 1000; f /= 256; x = (int16_t)f;\<close>\<close>

definition milli_g :: "(int \<Rightarrow> int) \<Rightarrow> int \<Rightarrow> int" where
  "milli_g conv16 x =
     (let q = (if x < 0 then - ((- x * 1000) div 256) else x * 1000 div 256)
      in if - 32768 \<le> q \<and> q \<le> 32767 then q else conv16 x)"

section \<open>Log entries\<close>

definition power_state_text :: "string list \<Rightarrow> u8 \<Rightarrow> string" where
  "power_state_text names b =
     (let m = unat (b AND DRBCC_P_MAIN_STATE_MASK)
      in (if m < 5 then power_state_names ! m else ''unknown ('' @ show_nat m @ '')'') @
         concat (map (\<lambda>(bit, name). if b AND bit \<noteq> 0 then name else []) (zip option_bits names)))"

definition power_loss_text :: "u8 \<Rightarrow> string" where
  "power_loss_text b =
     (if unat b \<le> 3 then ''key battery too weak ''
      else if b = 4 then ''error in HOST voltages ''
      else if b = 5 then ''main power undervolt''
      else if b = 6 then ''main power undervolt prealert''
      else if b = 7 then ''supercap undervolt''
      else ''unknown (0x'' @ hex2 b @ '') '')"

definition key_text :: "string \<Rightarrow> string \<Rightarrow> bytes \<Rightarrow> string" where
  "key_text ttu key data =
     (if data ! 9 = DRBCC_KEY_CMD0_TTU_EJECT then ttu @ dec (data ! 15)
      else key @ concat (map (\<lambda>(bit, name). if data ! 9 AND bit \<noteq> 0 then name else []) key_bits) @
        '' Code: '' @ hex2 (data ! 11) @ hex2 (data ! 12) @ hex2 (data ! 13) @ ''-'' @
        hex2 (data ! 14) @ '', retries: '' @ dec (data ! 15))"

definition timeout_text :: "u8 \<Rightarrow> string" where
  "timeout_text b =
     (if b = 0 then ''HOST First message timeout''
      else if b = 1 then ''HOST Heartbeat timeout''
      else if b = 2 then ''HOST Shutdown timeout''
      else ''HOST Communication timeout 0x'' @ hex2 b)"

text \<open>The loop over the triples of a voltage entry: \<open>len\<close> bytes from \<open>pos\<close> on.\<close>

fun voltage_text :: "bytes \<Rightarrow> nat \<Rightarrow> nat \<Rightarrow> string" where
  "voltage_text data len pos =
     (if len < 3 then []
      else (let id = unat (data ! pos)
            in if id < 15 then voltage_names ! id else ''VID'' @ show_nat id @ ''='') @
        show_hundredths (int16 (data ! (pos + 1)) (data ! (pos + 2))) @ ''V '' @
        voltage_text data (len - 3) (pos + 3))"

declare voltage_text.simps [simp del]

definition accel_event_text ::
  "(int \<Rightarrow> int) \<Rightarrow> (int \<Rightarrow> int \<Rightarrow> int \<Rightarrow> string) \<Rightarrow> bytes \<Rightarrow> string" where
  "accel_event_text conv16 accel_text data =
     (let x = int16 (data ! 11) (data ! 10); y = int16 (data ! 13) (data ! 12);
          z = int16 (data ! 15) (data ! 14)
      in ''Accel event type '' @ dec (data ! 9) @ '': '' @
         (if data ! 9 = 1 then ''THRESHOLD_HIGH'' else ''UNKNOWN'') @ '', '' @ accel_text x y z @
         ''g, (xyz: '' @ show_int (milli_g conv16 x) @ '','' @ show_int (milli_g conv16 y) @ '','' @
         show_int (milli_g conv16 z) @ '' mg)'')"

definition log_stamp :: "bytes \<Rightarrow> string" where
  "log_stamp data =
     ''20'' @ hex2 (data ! 7) @ ''-'' @ hex2 (data ! 6) @ ''-'' @ hex2 (data ! 5) @ '' '' @
     hex2 (data ! 3) @ '':'' @ hex2 (data ! 2) @ '':'' @ hex2 (data ! 1) @ '' (epoch '' @
     dec (data ! 4) @ ''): ''"

definition log_body ::
  "(int \<Rightarrow> int) \<Rightarrow> (int \<Rightarrow> int \<Rightarrow> int \<Rightarrow> string) \<Rightarrow> bytes \<Rightarrow> string" where
  "log_body conv16 accel_text data =
     (case log_event (data ! 0) of
        Some DRBCC_E_EXTENSION \<Rightarrow> ''Extension data''
      | Some DRBCC_E_RAMLOG_OVERRUN \<Rightarrow> ''Ramlog overrun''
      | Some DRBCC_E_ILL_BID \<Rightarrow> ''Illegal board ID: 0x'' @ hex2 (data ! 9)
      | Some DRBCC_E_ILL_PWR_STATE \<Rightarrow> ''Illegal power state: '' @
          power_state_text [''|KEY_BAT'', ''|EXT_PWR'', ''|DCDC_ON'', ''|HDD_PWR'', ''|MAG_CHG''] (data ! 9)
      | Some DRBCC_E_PWR_LOSS \<Rightarrow> ''Power loss, reason: '' @ power_loss_text (data ! 9)
      | Some DRBCC_E_HOST_LOGENTRY \<Rightarrow> ''Host Logentry''
      | Some DRBCC_E_PWR_CHNG \<Rightarrow> ''Power state: '' @
          power_state_text [''|KEY_BATT'', ''|EXT_PWR'', ''|DCDC_PWR'', ''|HDD_PWR'', ''|LOCK_CHG''] (data ! 9)
      | Some DRBCC_E_ILL_INT \<Rightarrow> ''Unknown interrupt''
      | Some DRBCC_E_HDD_CHNG \<Rightarrow> ''HDD '' @ (if data ! 9 \<noteq> 0 then ''inserted'' else ''removed '')
      | Some DRBCC_E_KEY_DETECTED \<Rightarrow>
          ''HD-Key detected, ID: '' @ hex_dump (map (\<lambda>i. data ! i) [9..<16])
      | Some DRBCC_E_KEY_REJECTED \<Rightarrow> ''HD-Key rejected, '' @ dec (data ! 9) @ '' token parsed''
      | Some DRBCC_E_KEY_SUCCESS \<Rightarrow>
          key_text ''TTU HD eject success, retries: '' ''HD-Key success, Token bits:'' data
      | Some DRBCC_E_UNLOCK_ERROR \<Rightarrow>
          key_text ''TTU HD eject failed, retries: '' ''HD-Key unlock failed, Token bits:'' data
      | Some DRBCC_E_KEY_COMM_ERROR \<Rightarrow>
          ''HD-Key communication error, ID: '' @ hex_dump (map (\<lambda>i. data ! i) [9..<16])
      | Some DRBCC_E_KEY_HEADER_ERROR \<Rightarrow> ''HD-Key header error, header data: 0x'' @
          hex2 (data ! 9) @ '' 0x'' @ hex2 (data ! 10) @ '' 0x'' @ hex2 (data ! 11) @ '' 0x'' @
          hex2 (data ! 12) @ '' ''
      | Some DRBCC_E_RTC_SET \<Rightarrow> ''RTC set to 20'' @ hex2 (data ! 15) @ ''-'' @ hex2 (data ! 14) @
          ''-'' @ hex2 (data ! 13) @ '' '' @ hex2 (data ! 11) @ '':'' @ hex2 (data ! 10) @ '':'' @
          hex2 (data ! 9)
      | Some DRBCC_E_COMM_TIMEOUT \<Rightarrow> timeout_text (data ! 9)
      | Some DRBCC_E_VOLTAGE_INFO \<Rightarrow> ''Voltage data: '' @ voltage_text data (unat (data ! 8)) 9
      | Some DRBCC_E_LOG_CLEARED \<Rightarrow> ''Log memory cleared''
      | Some DRBCC_E_HDD_USABLE_ON \<Rightarrow> ''HDD_USABLE on (ready for HDD use now)''
      | Some DRBCC_E_FW_UPDATE \<Rightarrow>
          ''BCTRL firmware update '' @ (if data ! 9 \<noteq> 0 then ''successful'' else ''failed'')
      | Some DRBCC_E_BL_UPDATE \<Rightarrow>
          ''BCTRL bootloader update '' @ (if data ! 9 \<noteq> 0 then ''successful'' else ''failed'')
      | Some DRBCC_E_FW_REBOOT \<Rightarrow>
          ''Forced firmware reboot '' @ (if data ! 9 \<noteq> 0 then ''with'' else ''without'') @ '' SRAM context reset''
      | Some DRBCC_E_OVERTEMP_OFF \<Rightarrow>
          ''Overtemperature turn off at '' @ dec_signed (data ! 9) @ '' deg C''
      | Some DRBCC_E_TEMPLIMIT \<Rightarrow> ''Could not turn on: temp '' @ dec_signed (data ! 9) @
          '' deg C not between '' @ dec_signed (data ! 10) @ '' and '' @ dec_signed (data ! 11) @
          '', reset below '' @ dec_signed (data ! 12)
      | Some DRBCC_E_ACCEL_EVENT \<Rightarrow> accel_event_text conv16 accel_text data
      | Some DRBCC_E_EMPTY \<Rightarrow> ''EMPTY LOGENTRY''
      | None \<Rightarrow> ''UNKNOWN LOGENTRY 0x'' @ hex2 (data ! 0))"

definition log_line ::
  "(int \<Rightarrow> int) \<Rightarrow> (int \<Rightarrow> int \<Rightarrow> int \<Rightarrow> string) \<Rightarrow> bool \<Rightarrow> u32 \<Rightarrow> nat \<Rightarrow> bytes \<Rightarrow> string" where
  "log_line conv16 accel_text raw pos len data =
     ''log '' @ pad_left 6 (show_int (sint pos)) @ '': '' @
     (if log_event (data ! 0) \<noteq> Some DRBCC_E_EXTENSION \<and> log_event (data ! 0) \<noteq> Some DRBCC_E_EMPTY
      then log_stamp data else []) @
     log_body conv16 accel_text data @
     (if raw then '' ---------- RAW len '' @ show_nat len @ '' data: '' @ hex_dump (take len data) else []) @
     newline"

section \<open>The other callbacks\<close>

text \<open>The characters of a C string at the start of some memory.\<close>

definition c_string :: "bytes \<Rightarrow> string" where
  "c_string bs = map (\<lambda>b. char_of (unat b)) (takeWhile (\<lambda>b. b \<noteq> 0) bs)"

definition text_bytes :: "string \<Rightarrow> bytes" where
  "text_bytes t = map (\<lambda>c. of_nat (of_char c)) t"

text \<open>At most 16 bytes of the build information are copied to a local array of 17 without a
  terminating zero, so what is printed runs on into \<open>junk\<close>, the rest of that array and of the
  stack; likewise the information on the bootloader runs on into \<open>after\<close>, what follows the
  message.\<close>

definition protocol_text :: "bytes \<Rightarrow> bytes \<Rightarrow> u8 \<Rightarrow> u8 \<Rightarrow> u8 \<Rightarrow> bytes \<Rightarrow> string" where
  "protocol_text junk after major minor fw_running build_info =
     ''protocol_cb: BCTRL is running '' @ (if fw_running \<noteq> 0 then ''FIRMWARE'' else ''BOOTLOADER'') @
     '' version '' @ dec major @ ''.'' @ pad0 2 (dec minor) @
     (if build_info \<noteq> []
      then '', fw_build_info: <'' @
          c_string (take 16 build_info @ (if 0 \<in> set (take 16 build_info) then [] else junk)) @ ''>'' @
        (if 18 \<le> length build_info
         then '', Bootloader version: '' @ dec (build_info ! 16) @ ''.'' @ pad0 2 (dec (build_info ! 17)) @
           (if 18 < length build_info
            then '', bl_build_info: <'' @ c_string (drop 18 build_info @ after) @ ''>'' else [])
         else [])
      else []) @ newline"

definition id_text :: "u8 \<Rightarrow> u8 \<Rightarrow> bytes \<Rightarrow> string" where
  "id_text board slot ser =
     ''id_cb: BoardID: '' @ dec board @ '', SlotID: '' @ dec slot @ '', HW S/N: '' @ hex_dump ser @ newline"

definition part_text :: "DRBCC_PARTENTRY_t list \<Rightarrow> string" where
  "part_text es = concat (map (\<lambda>e. ''part_cb: typeinfo=0x'' @ hex2 (typeinfo e) @ '' start=0x'' @
     pad0 4 (show_hex (unat (startblock e))) @ '' len=0x'' @ pad0 6 (show_hex (unat (plength e))) @
     newline) es)"

text \<open>\<^verbatim>\<open>strftime\<close> with \<^verbatim>\<open>"%Y-%m-%d %H:%M:%S"\<close>\<close>

definition time_text :: "tm \<Rightarrow> string" where
  "time_text t = show_int (tm_year t + 1900) @ ''-'' @ pad0 2 (show_int (tm_mon t + 1)) @ ''-'' @
     pad0 2 (show_int (tm_mday t)) @ '' '' @ pad0 2 (show_int (tm_hour t)) @ '':'' @
     pad0 2 (show_int (tm_min t)) @ '':'' @ pad0 2 (show_int (tm_sec t))"

definition rtc_text :: "tm \<Rightarrow> u8 \<Rightarrow> string" where
  "rtc_text t epoch =
     (if length (time_text t) = 19 then ''rtc_cb: '' @ time_text t @ '' (epoch='' @ dec epoch @ '')'' @ newline
      else ''rtc_cb: ERROR, could not parse struct tm data ('' @
        concat (map (\<lambda>i. show_int i @ '' '') [tm_sec t, tm_min t, tm_hour t, tm_mday t, tm_mon t,
          tm_year t, tm_wday t, tm_yday t, tm_isdst t]) @ ''epoch='' @ dec epoch @ '')'' @ newline)"

definition getpos_text :: "u32 \<Rightarrow> u8 \<Rightarrow> u8 \<Rightarrow> string" where
  "getpos_text pos entry wrapflag = ''pos: 0x'' @ pad0 2 (show_hex (unat pos)) @ '' entry: 0x'' @
     hex2 entry @ '' wrapflag: 0x'' @ hex2 wrapflag @ newline"

definition debug_get_text :: "u32 \<Rightarrow> nat \<Rightarrow> bytes \<Rightarrow> string" where
  "debug_get_text addr len data = ''debug_get_cb: addr: 0x'' @ pad0 8 (show_hex (unat addr)) @
     '' len: '' @ show_nat len @ '' data: '' @ hex_dump (take len data) @ newline"

definition on_off :: "u8 \<Rightarrow> u8 \<Rightarrow> string \<Rightarrow> string \<Rightarrow> string" where
  "on_off b bm s t = (if b AND bm \<noteq> 0 then s else t)"

definition bit_list_text :: "u8 \<Rightarrow> nat \<Rightarrow> string" where
  "bit_list_text b n = concat (map (\<lambda>i. if bit b i then ''1 '' else ''0 '') [0..<n])"

definition status_text :: "(int \<Rightarrow> int) \<Rightarrow> bytes \<Rightarrow> string" where
  "status_text conv16 st =
     ''status_cb: raw data: '' @ map tolower (hex_dump st) @ newline @
     ''SPIs/SPOs: Ignition: '' @ on_off (st ! 0) DRBCC_SFI_IGNITION_bm ''on'' ''off'' @
     '', HDD-Sense: '' @ on_off (st ! 0) DRBCC_SFI_HDD_SENS_bm ''open'' ''closed'' @
     '', OXE_INT1: '' @ on_off (st ! 0) DRBCC_SFI_HDD_USABLE_bm ''1'' ''0'' @
     '', OXE_INT2: '' @ on_off (st ! 0) DRBCC_SFI_HOST_RUNNING_bm ''1'' ''0'' @
     '', XOSC_ERR: '' @ on_off (st ! 0) DRBCC_SFI_XOSC_ERR_bm ''1'' ''0'' @
     '', GPI-Power: '' @ on_off (st ! 2) DRBCC_SFO_GPIPWR_bm ''on'' ''off'' @
     '', HDD-Power: '' @ on_off (st ! 2) DRBCC_SFO_HDDPWR_bm ''on'' ''off'' @ newline @
     ''GPInputs 1..6: '' @ bit_list_text (st ! 3) 6 @ ''  GPOutputs 1..4: '' @ bit_list_text (st ! 5) 4 @
     '' RTC Temp : '' @ dec_signed (st ! 6) @ '' deg C '' @
     (if 7 < length st
      then '' Accel X, Y, Z: '' @ show_int (milli_g conv16 (int16 (st ! 9) (st ! 8))) @ ''mg, '' @
        show_int (milli_g conv16 (int16 (st ! 11) (st ! 10))) @ ''mg, '' @
        show_int (milli_g conv16 (int16 (st ! 13) (st ! 12))) @ ''mg'' else []) @ newline @
     (if 29 < length st
      then ''Voltages: '' @ concat (map (\<lambda>i.
        show_hundredths (int16 (st ! (14 + 2 * i)) (st ! (15 + 2 * i))) @ ''V  '') [0..<11]) else []) @
     newline"

definition accel_cb_text :: "(int \<Rightarrow> int) \<Rightarrow> u8 \<Rightarrow> u16 \<Rightarrow> u16 \<Rightarrow> u16 \<Rightarrow> string" where
  "accel_cb_text conv16 type x y z =
     ''accel_event_cb: Accel type, X, Y, Z: '' @ dec type @ ''('' @
     (if type = 1 then ''THRESHOLD_HIGH'' else ''unknown'') @ '') '' @
     show_int (milli_g conv16 (sint x)) @ ''mg '' @ show_int (milli_g conv16 (sint y)) @ ''mg '' @
     show_int (milli_g conv16 (sint z)) @ ''mg'' @ newline"

definition flash_id_text :: "u8 \<Rightarrow> u8 \<Rightarrow> u8 \<Rightarrow> string" where
  "flash_id_text mid devid1 devid2 =
     ''flash_id_cb: ManufacturerID='' @ hex2 mid @ '' DeviceID='' @ hex2 devid1 @ hex2 devid2 @ newline"

text \<open>Sixteen bytes to a line, each line with its address. The loop is the same in
  \<^verbatim>\<open>flash_read_cb\<close> and, from address zero, in \<^verbatim>\<open>libdrbcc_dump\<close>.\<close>

definition dump_byte :: "nat \<Rightarrow> nat \<Rightarrow> u8 \<Rightarrow> string" where
  "dump_byte addr i b =
     (if i mod 16 = 0 then ''0x'' @ pad0 4 (show_hex ((i + addr) mod 2 ^ 32)) @ '':'' else []) @
     '' '' @ hex2 b @ (if i mod 16 = 15 then newline else [])"

definition dump_text :: "nat \<Rightarrow> bytes \<Rightarrow> string" where
  "dump_text addr bs =
     concat (map (\<lambda>(i, b). dump_byte addr i b) (zip [0..<length bs] bs)) @
     (if length bs mod 16 \<noteq> 0 then newline else [])"

definition libdrbcc_dump :: "bytes \<Rightarrow> string" where
  "libdrbcc_dump data = dump_text 0 data"

definition flash_write_text :: "u32 \<Rightarrow> u32 \<Rightarrow> u8 \<Rightarrow> string" where
  "flash_write_text addr len res = ''flash_write_cb: addr='' @ show_nat (unat addr) @ '' len='' @
     show_nat (unat len) @ '' result=0x'' @ hex2 res @ newline"

definition flash_erase_text :: "u32 \<Rightarrow> u8 \<Rightarrow> string" where
  "flash_erase_text blocknum res =
     ''flash_erase_cb: block='' @ show_nat (unat blocknum) @ '' result=0x'' @ hex2 res @ newline"

definition progress_text :: "u32 \<Rightarrow> u32 \<Rightarrow> string" where
  "progress_text cur mx =
     ''progress_cb: current='' @ show_int (sint cur) @ '' of '' @ show_int (sint mx) @ newline"

section \<open>How much of an entry is looked at\<close>

lemma voltage_text_append:
  "pos + len \<le> length data \<Longrightarrow> voltage_text (data @ junk) len pos = voltage_text data len pos"
proof (induction data len pos rule: voltage_text.induct)
  case (1 data len pos)
  show ?case
  proof (cases "len < 3")
    case False
    then have "voltage_text (data @ junk) (len - 3) (pos + 3) = voltage_text data (len - 3) (pos + 3)"
      using 1 by simp
    moreover have "pos < length data" "pos + 1 < length data" "pos + 2 < length data"
      using False 1(2) by linarith+
    ultimately show ?thesis
      by (subst (1 2) voltage_text.simps) (simp add: nth_append)
  qed (simp add: voltage_text.simps)
qed

lemma log_line_append:
  assumes "16 \<le> length data" and "9 + unat (data ! 8) \<le> length data" and "len \<le> length data"
  shows "log_line conv16 accel_text raw pos len (data @ junk) = log_line conv16 accel_text raw pos len data"
proof -
  have n: "(data @ junk) ! i = data ! i" if "i < 16" for i
    using that assms(1) by (simp add: nth_append)
  have m: "map (\<lambda>i. (data @ junk) ! i) [9..<16] = map (\<lambda>i. data ! i) [9..<16]"
    by (rule map_cong [OF refl], rule n) auto
  have eqs: "(data @ junk) ! 0 = data ! 0" "(data @ junk) ! 1 = data ! 1" "(data @ junk) ! 2 = data ! 2" "(data @ junk) ! 3 = data ! 3"
    "(data @ junk) ! 4 = data ! 4" "(data @ junk) ! 5 = data ! 5" "(data @ junk) ! 6 = data ! 6" "(data @ junk) ! 7 = data ! 7"
    "(data @ junk) ! 8 = data ! 8" "(data @ junk) ! 9 = data ! 9" "(data @ junk) ! 10 = data ! 10" "(data @ junk) ! 11 = data ! 11"
    "(data @ junk) ! 12 = data ! 12" "(data @ junk) ! 13 = data ! 13" "(data @ junk) ! 14 = data ! 14" "(data @ junk) ! 15 = data ! 15"
    by (rule n, simp)+
  have take_prefix: "take len (data @ junk) = take len data" using assms(3) by simp
  show ?thesis
    unfolding log_line_def log_body_def log_stamp_def key_text_def accel_event_text_def
    by (simp only: m take_prefix eqs voltage_text_append [OF assms(2)])
qed

section \<open>Hexadecimal dumps\<close>

lemma length_hex_dump [simp]: "length (hex_dump bs) = 3 * length bs"
  by (induction bs) (simp_all add: hex_dump_def hex2_digits)

fun undump :: "string \<Rightarrow> bytes" where
  "undump (c # d # _ # s) = word_of_int (scan_hex2 c d) # undump s"
| "undump _ = []"

lemma undump_hex_dump: "undump (hex_dump bs) = bs"
proof (induction bs)
  case (Cons b bs)
  obtain c d where "hex2 b = [c, d]" by (simp add: hex2_digits)
  moreover from this have "scan_hex2 c d = int (unat b)" by (rule scan_hex2_hex2)
  ultimately show ?case using Cons.IH by (simp add: hex_dump_def)
qed (simp add: hex_dump_def)

lemma hex_dump_inject: "hex_dump a = hex_dump b \<longleftrightarrow> a = b"
  by (metis undump_hex_dump)

section \<open>Properties\<close>

text \<open>A log entry of five volts on the 5V line, for the witnesses.\<close>

abbreviation sample_entry :: bytes where
  "sample_entry \<equiv> [18, 0x30, 0x15, 0x08, 1, 0x24, 0x12, 0x13, 3, 6, 0x01, 0xF4, 0xFF, 0xFF, 0xFF, 0xFF]"

text \<open>C40. The line that is printed for a log entry depends on the bytes of the entry only: when
  the entry has its sixteen bytes and as many more as its own length byte announces, nothing
  that lies behind it in memory influences the text.\<close>

theorem log_line_within:
  assumes "16 \<le> length data" and "9 + unat (data ! 8) \<le> length data" and "len \<le> length data"
  shows "log_line conv16 accel_text raw pos len (data @ junk) = log_line conv16 accel_text raw pos len data"
  using assms by (rule log_line_append)

theorem log_line_within_witness:
  "log_line (\<lambda>_. 0) (\<lambda>_ _ _. []) True 5 16 (sample_entry @ [7, 8]) =
   log_line (\<lambda>_. 0) (\<lambda>_ _ _. []) True 5 16 sample_entry"
  by (rule log_line_within) simp_all

end
