(* ===== verification/Calendar.thy ===== *)
theory Calendar
  imports Callback_Text Rtc_Codec
begin

text \<open>
  The functions of the C library the tool uses for the time of the command \<^verbatim>\<open>setrtc\<close>:
  \<^verbatim>\<open>gmtime_r\<close>, and \<^verbatim>\<open>strptime\<close> with the format \<^verbatim>\<open>"%Y-%m-%d %H:%M:%S"\<close>. The
  property follows a time from the text the user types over the registers of the clock to the
  text that is printed when the clock is read.
\<close>

section \<open>Days and dates\<close>

text \<open>Days since 1 January 1970 of a date of the Gregorian calendar and back; years are
  counted from March, so that a leap day is the last of its year, and in eras of 400 years.\<close>

definition days_of_date :: "int \<Rightarrow> int \<Rightarrow> int \<Rightarrow> int" where
  "days_of_date year month day =
     (let y = (if month \<le> 2 then year - 1 else year); era = y div 400; yoe = y - era * 400;
          doy = (153 * (if month > 2 then month - 3 else month + 9) + 2) div 5 + day - 1;
          doe = yoe * 365 + yoe div 4 - yoe div 100 + doy
      in era * 146097 + doe - 719468)"

definition date_of_days :: "int \<Rightarrow> int \<times> int \<times> int" where
  "date_of_days days =
     (let z = days + 719468; era = z div 146097; doe = z - era * 146097;
          yoe = (doe - doe div 1460 + doe div 36524 - doe div 146096) div 365;
          doy = doe - (365 * yoe + yoe div 4 - yoe div 100);
          mp = (5 * doy + 2) div 153; month = (if mp < 10 then mp + 3 else mp - 9)
      in (yoe + era * 400 + (if month \<le> 2 then 1 else 0), month, doy - (153 * mp + 2) div 5 + 1))"

text \<open>Fill in the days of the week and of the year.\<close>

definition with_weekday :: "tm \<Rightarrow> tm" where
  "with_weekday t =
     (let days = days_of_date (tm_year t + 1900) (tm_mon t + 1) (tm_mday t)
      in t\<lparr>tm_wday := (days + 4) mod 7, tm_yday := days - days_of_date (tm_year t + 1900) 1 1\<rparr>)"

definition gmtime_r :: "int \<Rightarrow> tm" where
  "gmtime_r secs =
     (let (year, month, day) = date_of_days (secs div 86400); rest = secs mod 86400
      in with_weekday \<lparr>tm_sec = rest mod 60, tm_min = rest div 60 mod 60, tm_hour = rest div 3600,
           tm_mday = day, tm_mon = month - 1, tm_year = year - 1900, tm_wday = 0, tm_yday = 0,
           tm_isdst = 0\<rparr>)"

section \<open>Reading a time\<close>

text \<open>Up to \<open>n\<close> digits of a number that is not to exceed \<open>hi\<close>.\<close>

fun number_digits :: "int \<Rightarrow> nat \<Rightarrow> int \<Rightarrow> string \<Rightarrow> int \<times> string" where
  "number_digits hi (Suc n) v (c # s) =
     (if v * 10 \<le> hi \<and> is_digit 10 c then number_digits hi n (v * 10 + int (digit_val c)) s
      else (v, c # s))"
| "number_digits hi _ v s = (v, s)"

definition get_number :: "int \<Rightarrow> int \<Rightarrow> nat \<Rightarrow> string \<Rightarrow> (int \<times> string) option" where
  "get_number lo hi n s =
     (case dropWhile (\<lambda>c. c = CHR '' '') s of
        [] \<Rightarrow> None
      | c # s' \<Rightarrow>
          if is_digit 10 c
          then (let (v, r) = number_digits hi (n - 1) (int (digit_val c)) s'
                in if lo \<le> v \<and> v \<le> hi then Some (v, r) else None)
          else None)"

text \<open>A field: the character before it (a blank stands for any blanks), its range and
  length, and the member it sets. Reading stops at the first field that does not fit; the
  fields before it are set.\<close>

type_synonym time_field = "char option \<times> int \<times> int \<times> nat \<times> (int \<Rightarrow> tm \<Rightarrow> tm)"

definition before_field :: "char option \<Rightarrow> string \<Rightarrow> string option" where
  "before_field sep s =
     (case sep of
        None \<Rightarrow> Some s
      | Some c \<Rightarrow>
          if c = CHR '' '' then Some (dropWhile is_blank s)
          else (case s of [] \<Rightarrow> None | d # s' \<Rightarrow> if d = c then Some s' else None))"

fun read_fields :: "time_field list \<Rightarrow> string \<Rightarrow> tm \<Rightarrow> bool \<times> tm" where
  "read_fields [] s t = (True, t)"
| "read_fields ((sep, lo, hi, n, set_to) # rest) s t =
     (case before_field sep s of
        None \<Rightarrow> (False, t)
      | Some s' \<Rightarrow>
          (case get_number lo hi n s' of
             None \<Rightarrow> (False, t)
           | Some (v, r) \<Rightarrow> read_fields rest r (set_to v t)))"

definition time_fields :: "time_field list" where
  "time_fields =
     [(None, 0, 9999, 4, \<lambda>v t. t\<lparr>tm_year := v - 1900\<rparr>),
      (Some (CHR ''-''), 1, 12, 2, \<lambda>v t. t\<lparr>tm_mon := v - 1\<rparr>),
      (Some (CHR ''-''), 1, 31, 2, \<lambda>v t. t\<lparr>tm_mday := v\<rparr>),
      (Some (CHR '' ''), 0, 23, 2, \<lambda>v t. t\<lparr>tm_hour := v\<rparr>),
      (Some (CHR '':''), 0, 59, 2, \<lambda>v t. t\<lparr>tm_min := v\<rparr>),
      (Some (CHR '':''), 0, 61, 2, \<lambda>v t. t\<lparr>tm_sec := v\<rparr>)]"

definition strptime :: "string \<Rightarrow> tm \<Rightarrow> tm" where
  "strptime s t = (let (ok, t') = read_fields time_fields s t in if ok then with_weekday t' else t')"

text \<open>The time \<^verbatim>\<open>setrtc\<close> sets: what follows the first blank of the line, over the epoch
  as default, or the current time.\<close>

definition setrtc_time :: "string \<Rightarrow> int \<Rightarrow> tm" where
  "setrtc_time line now =
     (case dropWhile (\<lambda>c. c \<noteq> CHR '' '') line of
        [] \<Rightarrow> gmtime_r now
      | _ # text \<Rightarrow> strptime text (gmtime_r 0))"

section \<open>From the text to the clock and back\<close>

text \<open>A time as the user types it: in the calendar ranges and in the years of the clock.\<close>

definition typed_time :: "tm \<Rightarrow> bool" where
  "typed_time t \<longleftrightarrow> 100 \<le> tm_year t \<and> tm_year t \<le> 299 \<and> 0 \<le> tm_mon t \<and> tm_mon t \<le> 11 \<and>
     1 \<le> tm_mday t \<and> tm_mday t \<le> 31 \<and> 0 \<le> tm_hour t \<and> tm_hour t \<le> 23 \<and>
     0 \<le> tm_min t \<and> tm_min t \<le> 59 \<and> 0 \<le> tm_sec t \<and> tm_sec t \<le> 60"

lemma pad0_two:
  assumes "0 \<le> v" "v < 100"
  shows "pad0 2 (show_int v) = [digit_char (nat v div 10), digit_char (nat v mod 10)]"
proof (cases "v < 10")
  case True
  then have "digits 10 (nat v) = [nat v]" by (subst digits.simps) simp
  with True assms show ?thesis by (simp add: pad0_def show_int_def show_nat_def)
next
  case False
  have "digits 10 (nat v div 10) = [nat v div 10]" using assms by (subst digits.simps) simp
  then have "digits 10 (nat v) = [nat v div 10, nat v mod 10]"
    using False by (subst digits.simps) simp
  with assms show ?thesis by (simp add: pad0_def show_int_def show_nat_def)
qed

lemma show_year:
  assumes "1000 \<le> v" "v < 10000"
  shows "show_int v = pad0 2 (show_int (v div 100)) @ pad0 2 (show_int (v mod 100))"
proof -
  let ?n = "nat v"
  have "digits 10 (?n div 10 div 10 div 10) = [?n div 10 div 10 div 10]"
    using assms by (subst digits.simps) simp
  then have "digits 10 (?n div 10 div 10) = [?n div 10 div 10 div 10, ?n div 10 div 10 mod 10]"
    using assms by (subst digits.simps) simp
  then have "digits 10 (?n div 10) = [?n div 10 div 10 div 10, ?n div 10 div 10 mod 10, ?n div 10 mod 10]"
    using assms by (subst digits.simps) simp
  then have "digits 10 ?n =
      [?n div 10 div 10 div 10, ?n div 10 div 10 mod 10, ?n div 10 mod 10, ?n mod 10]"
    using assms by (subst digits.simps) simp
  moreover have "nat (v div 100) = ?n div 10 div 10" "nat (v mod 100) = ?n mod 100"
    using assms by (simp_all add: nat_div_distrib nat_mod_distrib div_mult2_eq [symmetric])
  moreover have "?n mod 100 div 10 = ?n div 10 mod 10" "?n mod 100 mod 10 = ?n mod 10"
    by (simp_all add: mod_mult2_eq [of ?n 10 10, simplified] mod_mod_cancel)
  ultimately have "show_int v =
      [digit_char (nat (v div 100) div 10), digit_char (nat (v div 100) mod 10),
       digit_char (nat (v mod 100) div 10), digit_char (nat (v mod 100) mod 10)]"
    using assms by (simp add: show_int_def show_nat_def)
  moreover have "0 \<le> v div 100" "v div 100 < 100" "0 \<le> v mod 100" "v mod 100 < 100"
    using assms by (simp_all add: pos_imp_zdiv_nonneg_iff)
  ultimately show ?thesis using pad0_two [of "v div 100"] pad0_two [of "v mod 100"] by simp
qed

lemma digit_char_not_space: "d < 16 \<Longrightarrow> digit_char d \<noteq> CHR '' ''"
  using digit_char_not_blank [of d] by (auto simp: is_blank_def)

lemma get_number_start:
  assumes "d < 10"
  shows "get_number lo hi n (digit_char d # s) =
    (let (v, r) = number_digits hi (n - 1) (int d) s in if lo \<le> v \<and> v \<le> hi then Some (v, r) else None)"
  using assms digit_char_not_space [of d] by (simp add: get_number_def digit_val_digit_char)

lemma two_digits:
  assumes "0 \<le> v" "v < 100"
  shows "\<exists>a b. pad0 2 (show_int v) = [digit_char a, digit_char b] \<and> a < 10 \<and> b < 10 \<and>
    v = int a * 10 + int b"
proof (intro exI conjI)
  show "pad0 2 (show_int v) = [digit_char (nat v div 10), digit_char (nat v mod 10)]"
    by (rule pad0_two [OF assms])
  show "v = int (nat v div 10) * 10 + int (nat v mod 10)"
    using assms(1) by (metis int_nat_eq of_nat_add of_nat_mult of_nat_numeral div_mult_mod_eq)
qed (use assms in simp_all)

lemma get_number_two:
  assumes "0 \<le> v" "v < 100" "lo \<le> v" "v \<le> hi"
  shows "get_number lo hi 2 (pad0 2 (show_int v) @ r) = Some (v, r)"
proof -
  obtain a b where ab: "pad0 2 (show_int v) = [digit_char a, digit_char b]" "a < 10" "b < 10"
    "v = int a * 10 + int b" using two_digits [OF assms(1,2)] by blast
  have "number_digits hi (Suc 0) (int a) (digit_char b # r) = (v, r)"
    using ab(2-4) assms(4) by (simp add: digit_val_digit_char)
  then show ?thesis
    unfolding ab(1) append_Cons append_Nil get_number_start [OF ab(2)]
    using assms(3,4) by (simp add: numeral_2_eq_2)
qed

lemma get_number_year:
  assumes "1000 \<le> v" "v < 10000"
  shows "get_number 0 9999 4 (show_int v @ r) = Some (v, r)"
proof -
  have h: "0 \<le> v div 100" "v div 100 < 100" "0 \<le> v mod 100" "v mod 100 < 100"
    using assms by (simp_all add: pos_imp_zdiv_nonneg_iff)
  obtain a b where ab: "pad0 2 (show_int (v div 100)) = [digit_char a, digit_char b]" "a < 10" "b < 10"
    "v div 100 = int a * 10 + int b" using two_digits [OF h(1,2)] by blast
  obtain c d where cd: "pad0 2 (show_int (v mod 100)) = [digit_char c, digit_char d]" "c < 10" "d < 10"
    "v mod 100 = int c * 10 + int d" using two_digits [OF h(3,4)] by blast
  have v: "((int a * 10 + int b) * 10 + int c) * 10 + int d = v"
    using ab(4) cd(4) div_mult_mod_eq [of v 100] by simp
  have "number_digits 9999 (Suc (Suc (Suc 0))) (int a)
      (digit_char b # digit_char c # digit_char d # r) = (v, r)"
    using ab(2,3) cd(2,3) assms(2) v by (simp add: digit_val_digit_char)
  then show ?thesis
    unfolding show_year [OF assms] ab(1) cd(1) append_Cons append_Nil get_number_start [OF ab(2)]
    using assms by (simp add: numeral_eq_Suc)
qed

text \<open>The members a typed time determines.\<close>

definition same_moment :: "tm \<Rightarrow> tm \<Rightarrow> bool" where
  "same_moment a b \<longleftrightarrow> tm_year a = tm_year b \<and> tm_mon a = tm_mon b \<and> tm_mday a = tm_mday b \<and>
     tm_hour a = tm_hour b \<and> tm_min a = tm_min b \<and> tm_sec a = tm_sec b"

lemma time_text_same: "same_moment a b \<Longrightarrow> time_text a = time_text b"
  by (simp add: same_moment_def time_text_def)

lemma dropWhile_blank_two:
  "0 \<le> v \<Longrightarrow> v < 100 \<Longrightarrow> dropWhile is_blank (pad0 2 (show_int v) @ r) = pad0 2 (show_int v) @ r"
  using two_digits [of v] digit_char_not_blank by fastforce

lemma strptime_time_text:
  assumes "typed_time t"
  shows "same_moment (strptime (time_text t) t0) t"
proof -
  have b: "1000 \<le> tm_year t + 1900" "tm_year t + 1900 < 10000" "0 \<le> tm_mon t + 1" "tm_mon t + 1 < 100"
    "1 \<le> tm_mon t + 1" "tm_mon t + 1 \<le> 12" "0 \<le> tm_mday t" "tm_mday t < 100" "1 \<le> tm_mday t"
    "tm_mday t \<le> 31" "0 \<le> tm_hour t" "tm_hour t < 100" "tm_hour t \<le> 23" "0 \<le> tm_min t"
    "tm_min t < 100" "tm_min t \<le> 59" "0 \<le> tm_sec t" "tm_sec t < 100" "tm_sec t \<le> 61"
    using assms by (simp_all add: typed_time_def)
  note two = get_number_two [OF b(3,4,5,6)] get_number_two [OF b(7,8,9,10)]
    get_number_two [OF b(11,12,11,13)] get_number_two [OF b(14,15,14,16)]
    get_number_two [OF b(17,18,17,19), where r = "[]", unfolded append_Nil2]
  note blank = dropWhile_blank_two [OF b(11,12)]
  have "read_fields time_fields (time_text t) t0 = (True, t0\<lparr>tm_year := tm_year t, tm_mon := tm_mon t,
      tm_mday := tm_mday t, tm_hour := tm_hour t, tm_min := tm_min t, tm_sec := tm_sec t\<rparr>)"
    unfolding time_fields_def time_text_def
    by (simp add: before_field_def get_number_year [OF b(1,2)] two blank is_blank_def)
  then show ?thesis by (simp add: strptime_def with_weekday_def same_moment_def Let_def)
qed

lemma rtc_same_moment:
  assumes "typed_time t" and "same_moment u t"
  shows "same_moment (rtc_decode (rtc_encode u)) t"
proof -
  have "typed_time u" using assms by (simp add: typed_time_def same_moment_def)
  then have "same_moment (rtc_decode (rtc_encode u)) u"
    by (auto simp: typed_time_def same_moment_def rtc_decode_def rtc_encode_def Let_def nth_Cons'
      bcd_roundtrip bcd_hour_mask bcd_month_mask smod_year simp del: of_int_add of_int_diff)
  with assms(2) show ?thesis by (simp add: same_moment_def)
qed

lemma setrtc_time_text:
  assumes "CHR '' '' \<notin> set cmd_text"
  shows "setrtc_time (cmd_text @ '' '' @ text) now = strptime text (gmtime_r 0)"
proof -
  have "dropWhile (\<lambda>c. c \<noteq> CHR '' '') (cmd_text @ CHR '' '' # text) = CHR '' '' # text"
    using assms by (subst dropWhile_append2) auto
  then show ?thesis by (simp add: setrtc_time_def)
qed

lemma length_year: "1000 \<le> v \<Longrightarrow> v < 10000 \<Longrightarrow> length (show_int v) = 4"
  using show_year [of v] pad0_two [of "v div 100"] pad0_two [of "v mod 100"]
  by (simp add: pos_imp_zdiv_nonneg_iff)

lemma length_time_text: "typed_time t \<Longrightarrow> length (time_text t) = 19"
  by (simp add: typed_time_def time_text_def pad0_two length_year)

section \<open>Properties\<close>

text \<open>C33. A time the user types after \<^verbatim>\<open>setrtc\<close>, any of the years 2000 to 2199, comes back from
  the clock as it was typed: parsed, packed into the registers, unpacked from them and printed
  it gives the same text.\<close>

theorem typed_time_shown:
  assumes "typed_time t" and "CHR '' '' \<notin> set cmd_text"
  shows "rtc_text (rtc_decode (rtc_encode (setrtc_time (cmd_text @ '' '' @ time_text t) now))) epoch =
    ''rtc_cb: '' @ time_text t @ '' (epoch='' @ dec epoch @ '')'' @ newline"
proof -
  have "time_text (rtc_decode (rtc_encode (setrtc_time (cmd_text @ '' '' @ time_text t) now))) = time_text t"
    unfolding setrtc_time_text [OF assms(2)]
    by (rule time_text_same [OF rtc_same_moment [OF assms(1) strptime_time_text [OF assms(1)]]])
  then show ?thesis using length_time_text [OF assms(1)] by (simp add: rtc_text_def)
qed

theorem typed_time_shown_witness:
  "let t = \<lparr>tm_sec = 59, tm_min = 7, tm_hour = 23, tm_mday = 31, tm_mon = 11, tm_year = 225,
     tm_wday = 0, tm_yday = 0, tm_isdst = 0\<rparr>
   in rtc_text (rtc_decode (rtc_encode (setrtc_time (''setrtc'' @ '' '' @ time_text t) 0))) 3 =
     ''rtc_cb: '' @ time_text t @ '' (epoch='' @ dec 3 @ '')'' @ newline"
  unfolding Let_def by (rule typed_time_shown) (simp_all add: typed_time_def)

end
