(* ===== verification/Sema.thy ===== *)
theory Sema
  imports Prelude
begin

text \<open>
  The semaphore of the command line tool (\<^verbatim>\<open>drbcc_sema.c\<close>), a pipe: a release writes one
  byte to it, a wait reads one. The theory models the four functions with the answers the
  system gives to their calls, states the contract of a counting semaphore as a locale, and
  shows that the pipe keeps it.
\<close>

section \<open>The semaphore\<close>

record drbcc_sema =
  pipe_bytes :: nat   \<comment> \<open>bytes in the pipe between \<^verbatim>\<open>writefd\<close> and \<^verbatim>\<open>readfd\<close>\<close>
  writefd_open :: bool
  readfd_open :: bool

text \<open>The answer to a \<^verbatim>\<open>write\<close> or \<^verbatim>\<open>read\<close> of one byte: it is carried out, or fails with
  \<^verbatim>\<open>EPIPE\<close>, \<^verbatim>\<open>EINTR\<close> or another error. (A \<^verbatim>\<open>write\<close> to a pipe does not return zero.)\<close>

datatype pipe_answer = Pipe_ok | Pipe_EPIPE | Pipe_EINTR | Pipe_error

text \<open>The result, the pointer \<^verbatim>\<open>*sema\<close>, and whether \<^verbatim>\<open>NULL\<close> was dereferenced: the check
  after \<^verbatim>\<open>malloc\<close> is of the wrong pointer.\<close>

definition drbcc_sema_create :: "bool \<Rightarrow> bool \<Rightarrow> int \<times> drbcc_sema option \<times> bool" where
  "drbcc_sema_create malloc_ok pipe_ok =
     (if \<not> pipe_ok then (-1, None, False)
      else if malloc_ok
      then (1, Some \<lparr>pipe_bytes = 0, writefd_open = True, readfd_open = True\<rparr>, False)
      else (1, None, True))"

text \<open>\<open>ans n\<close> answers the \<open>n\<close>-th call. The results are the return value, the number of the next
  call and the semaphore.\<close>

function release_loop ::
  "(nat \<Rightarrow> pipe_answer) \<Rightarrow> nat \<Rightarrow> nat \<Rightarrow> drbcc_sema \<Rightarrow> int \<times> nat \<times> drbcc_sema" where
  "release_loop ans n count s =
     (case ans n of
        Pipe_ok \<Rightarrow> (1, Suc n, s\<lparr>pipe_bytes := Suc (pipe_bytes s)\<rparr>)
      | Pipe_EPIPE \<Rightarrow> (-1, Suc n, s)
      | _ \<Rightarrow> if Suc count < 1000 then release_loop ans (Suc n) (Suc count) s else (-1, Suc n, s))"
  by pat_completeness auto
termination by (relation "measure (\<lambda>(_, _, count, _). 1000 - count)") auto

declare release_loop.simps [simp del]

definition drbcc_sema_release ::
  "(nat \<Rightarrow> pipe_answer) \<Rightarrow> nat \<Rightarrow> drbcc_sema option \<Rightarrow> int \<times> nat \<times> drbcc_sema option" where
  "drbcc_sema_release ans n sema =
     (case sema of
        None \<Rightarrow> (-1, n, None)
      | Some s \<Rightarrow> (let (r, n', s') = release_loop ans n 0 s in (r, n', Some s')))"

text \<open>A \<^verbatim>\<open>read\<close> from an empty pipe returns zero when the writing end is closed, and does not
  return otherwise.\<close>

partial_function (option) wait_loop ::
  "(nat \<Rightarrow> pipe_answer) \<Rightarrow> nat \<Rightarrow> drbcc_sema \<Rightarrow> (int \<times> nat \<times> drbcc_sema) option" where
  "wait_loop ans n s =
     (case ans n of
        Pipe_ok \<Rightarrow>
          if 0 < pipe_bytes s then Some (1, Suc n, s\<lparr>pipe_bytes := pipe_bytes s - 1\<rparr>)
          else if writefd_open s then None else Some (-1, Suc n, s)
      | Pipe_EINTR \<Rightarrow> wait_loop ans (Suc n) s
      | _ \<Rightarrow> Some (-1, Suc n, s))"

definition drbcc_sema_wait ::
  "(nat \<Rightarrow> pipe_answer) \<Rightarrow> nat \<Rightarrow> drbcc_sema option \<Rightarrow> (int \<times> nat \<times> drbcc_sema option) option" where
  "drbcc_sema_wait ans n sema =
     (case sema of
        None \<Rightarrow> Some (-1, n, None)
      | Some s \<Rightarrow> map_option (\<lambda>(r, n', s'). (r, n', Some s')) (wait_loop ans n s))"

text \<open>What is left of the pointer after the destruction, and how many descriptors were closed.\<close>

definition drbcc_sema_destroy :: "drbcc_sema option \<Rightarrow> nat \<times> drbcc_sema option" where
  "drbcc_sema_destroy sema =
     (case sema of
        None \<Rightarrow> (0, None)
      | Some s \<Rightarrow> (of_bool (writefd_open s) + of_bool (readfd_open s), None))"

section \<open>A release\<close>

lemma release_loop_cases:
  assumes "release_loop ans n count s = (r, n', s')"
  shows "(r = 1 \<and> s' = s\<lparr>pipe_bytes := Suc (pipe_bytes s)\<rparr> \<or> r = -1 \<and> s' = s) \<and>
    n < n' \<and> n' \<le> n + max 1 (1000 - count)"
  using assms
proof (induction ans n count s rule: release_loop.induct)
  case (1 ans n count s)
  show ?case
  proof (cases "(ans n = Pipe_EINTR \<or> ans n = Pipe_error) \<and> Suc count < 1000")
    case True
    then have "release_loop ans (Suc n) (Suc count) s = (r, n', s')"
      using 1(3) by (subst (asm) release_loop.simps) auto
    then show ?thesis using 1(1,2) True by fastforce
  next
    case False
    then show ?thesis using 1(3) by (subst (asm) release_loop.simps) (auto split: pipe_answer.splits)
  qed
qed

text \<open>Failing writes are repeated: up to 999 of them do not matter.\<close>

lemma release_loop_retries:
  assumes "ans (n + k) = Pipe_ok" and "\<forall>i < k. ans (n + i) = Pipe_EINTR \<or> ans (n + i) = Pipe_error"
    and "count + k < 1000"
  shows "release_loop ans n count s = (1, Suc (n + k), s\<lparr>pipe_bytes := Suc (pipe_bytes s)\<rparr>)"
  using assms
proof (induction k arbitrary: n count)
  case 0
  then show ?case by (simp add: release_loop.simps)
next
  case (Suc k)
  have "ans n = Pipe_EINTR \<or> ans n = Pipe_error" using Suc(3) by fastforce
  moreover have "\<forall>i < k. ans (Suc n + i) = Pipe_EINTR \<or> ans (Suc n + i) = Pipe_error"
    using Suc(3) by (metis Suc_less_eq add_Suc_shift)
  ultimately show ?case
    using Suc.IH [of "Suc n" "Suc count"] Suc(2,4) by (subst release_loop.simps) auto
qed

lemma wait_loop_retries:
  assumes "ans (n + k) = Pipe_ok" and "\<forall>i < k. ans (n + i) = Pipe_EINTR"
  shows "wait_loop ans n s =
    (if 0 < pipe_bytes s then Some (1, Suc (n + k), s\<lparr>pipe_bytes := pipe_bytes s - 1\<rparr>)
     else if writefd_open s then None else Some (-1, Suc (n + k), s))"
  using assms
proof (induction k arbitrary: n)
  case 0
  then show ?case by (simp add: wait_loop.simps)
next
  case (Suc k)
  have "ans n = Pipe_EINTR" using Suc(3) by fastforce
  moreover have "\<forall>i < k. ans (Suc n + i) = Pipe_EINTR"
    using Suc(3) by (metis Suc_less_eq add_Suc_shift)
  ultimately show ?case
    using Suc.IH [of "Suc n"] Suc(2) by (subst wait_loop.simps) auto
qed

section \<open>A counting semaphore\<close>

text \<open>A sequence of operations, \<^const>\<open>True\<close> for a release and \<^const>\<open>False\<close> for a wait; the
  result is \<^const>\<open>None\<close> when one of them fails or would block.\<close>

fun run_ops :: "('s \<Rightarrow> 's option) \<Rightarrow> ('s \<Rightarrow> 's option) \<Rightarrow> bool list \<Rightarrow> 's \<Rightarrow> 's option" where
  "run_ops up down [] s = Some s"
| "run_ops up down (b # bs) s =
     (case (if b then up s else down s) of None \<Rightarrow> None | Some s' \<Rightarrow> run_ops up down bs s')"

fun count_ops :: "bool list \<Rightarrow> nat \<Rightarrow> nat option" where
  "count_ops [] n = Some n"
| "count_ops (True # bs) n = count_ops bs (Suc n)"
| "count_ops (False # bs) n = (case n of 0 \<Rightarrow> None | Suc m \<Rightarrow> count_ops bs m)"

locale counting_semaphore =
  fixes ok :: "'s \<Rightarrow> bool" and up down :: "'s \<Rightarrow> 's option" and level :: "'s \<Rightarrow> nat"
  assumes up_adds: "ok s \<Longrightarrow> \<exists>s'. up s = Some s' \<and> ok s' \<and> level s' = Suc (level s)"
    and down_takes: "ok s \<Longrightarrow> level s = Suc n \<Longrightarrow> \<exists>s'. down s = Some s' \<and> ok s' \<and> level s' = n"
    and down_blocks: "ok s \<Longrightarrow> level s = 0 \<Longrightarrow> down s = None"
begin

lemma run_counts: "ok s \<Longrightarrow> map_option level (run_ops up down bs s) = count_ops bs (level s)"
proof (induction bs arbitrary: s)
  case (Cons b bs)
  show ?case
  proof (cases b)
    case True
    obtain s' where "up s = Some s'" "ok s'" "level s' = Suc (level s)"
      using up_adds [OF Cons.prems] by blast
    with True show ?thesis using Cons.IH [of s'] by simp
  next
    case False
    show ?thesis
    proof (cases "level s")
      case 0
      with False show ?thesis using down_blocks [OF Cons.prems] by simp
    next
      case (Suc n)
      obtain s' where "down s = Some s'" "ok s'" "level s' = n"
        using down_takes [OF Cons.prems Suc] by blast
      with False Suc show ?thesis using Cons.IH [of s'] by simp
    qed
  qed
qed simp

end

text \<open>The operations on a semaphore together with the number of the next system call.\<close>

definition sema_up ::
  "(nat \<Rightarrow> pipe_answer) \<Rightarrow> nat \<times> drbcc_sema option \<Rightarrow> (nat \<times> drbcc_sema option) option" where
  "sema_up ans p = (case drbcc_sema_release ans (fst p) (snd p) of
     (r, n, s) \<Rightarrow> if r = 1 then Some (n, s) else None)"

definition sema_down ::
  "(nat \<Rightarrow> pipe_answer) \<Rightarrow> nat \<times> drbcc_sema option \<Rightarrow> (nat \<times> drbcc_sema option) option" where
  "sema_down ans p = (case drbcc_sema_wait ans (fst p) (snd p) of
     None \<Rightarrow> None | Some (r, n, s) \<Rightarrow> if r = 1 then Some (n, s) else None)"

definition sema_level :: "drbcc_sema option \<Rightarrow> nat" where
  "sema_level sema = (case sema of None \<Rightarrow> 0 | Some s \<Rightarrow> pipe_bytes s)"

definition sema_usable :: "drbcc_sema option \<Rightarrow> bool" where
  "sema_usable sema = (case sema of None \<Rightarrow> False | Some s \<Rightarrow> writefd_open s)"

text \<open>The system answers with nothing but interruptions by signals, and fewer than 1000 in a
  row.\<close>

definition patient :: "(nat \<Rightarrow> pipe_answer) \<Rightarrow> bool" where
  "patient ans \<longleftrightarrow>
     (\<forall>n. \<exists>k < 1000. ans (n + k) = Pipe_ok \<and> (\<forall>i < k. ans (n + i) = Pipe_EINTR))"

lemma patientE:
  assumes "patient ans"
  obtains k where "k < 1000" "ans (n + k) = Pipe_ok" "\<forall>i < k. ans (n + i) = Pipe_EINTR"
  using assms unfolding patient_def by blast

lemma pipe_counts:
  assumes "patient ans"
  shows "counting_semaphore (\<lambda>p. sema_usable (snd p)) (sema_up ans) (sema_down ans)
    (\<lambda>p. sema_level (snd p))"
proof
  fix p :: "nat \<times> drbcc_sema option"
  assume "sema_usable (snd p)"
  then obtain n s where p: "p = (n, Some s)" "writefd_open s"
    by (cases p) (auto simp: sema_usable_def split: option.splits)
  obtain k where k: "k < 1000" "ans (n + k) = Pipe_ok" "\<forall>i < k. ans (n + i) = Pipe_EINTR"
    using assms by (rule patientE)
  show "\<exists>s'. sema_up ans p = Some s' \<and> sema_usable (snd s') \<and> sema_level (snd s') = Suc (sema_level (snd p))"
    using k by (simp add: p sema_up_def drbcc_sema_release_def release_loop_retries [of ans n k]
        sema_usable_def sema_level_def)
  show "\<exists>s'. sema_down ans p = Some s' \<and> sema_usable (snd s') \<and> sema_level (snd s') = m"
    if "sema_level (snd p) = Suc m" for m
    using k that by (simp add: p sema_down_def drbcc_sema_wait_def wait_loop_retries [of ans n k]
        sema_usable_def sema_level_def)
  show "sema_down ans p = None" if "sema_level (snd p) = 0"
    using k that by (simp add: p sema_down_def drbcc_sema_wait_def wait_loop_retries [of ans n k]
        sema_level_def)
qed

interpretation quiet: counting_semaphore "\<lambda>p. sema_usable (snd p)" "sema_up (\<lambda>_. Pipe_ok)"
  "sema_down (\<lambda>_. Pipe_ok)" "\<lambda>p. sema_level (snd p)"
  by (rule pipe_counts) (auto simp: patient_def intro: exI [of _ 0])

section \<open>Properties\<close>



end
