(* ===== verification/Tool.thy ===== *)
theory Tool
  imports Commands Calendar Sema Ring_Log Lifecycle
begin

text \<open>
  The command line tool (\<^verbatim>\<open>main.c\<close>): its global state, the session count with the
  semaphore its main thread waits on, its callbacks, and the calls of the library. A callback
  runs when the library calls it; here the calls of a library function are the events it adds,
  and they are worked off, in order, when the function returns.
\<close>

section \<open>State\<close>

text \<open>
  \<open>lib\<close> is the handle with the library behind it and the environment they share. The next
  fields are \<^verbatim>\<open>s_running\<close>, those of \<^verbatim>\<open>DRBCC_thread_context_t\<close>, the static
  \<^verbatim>\<open>wait_time\<close> of \<^verbatim>\<open>process_input\<close> and those of \<^verbatim>\<open>context_t\<close>. Then the
  environment: \<open>pipe_ans\<close> and \<open>pipe_ios\<close> answer the calls of the semaphore; \<open>conv16\<close> and
  \<open>accel_text\<close> are the results of floating point operations (see \<^theory_text>\<open>Callback_Text\<close>);
  \<open>stack_junk\<close> and \<open>msg_junk\<close> is what happens to lie behind a string that is not terminated;
  \<open>stdout\<close> and \<open>stderr\<close> collect the output. \<open>overrun\<close> is set when \<^verbatim>\<open>%s\<close> stores more
  than its array holds, where C gives the program no further meaning.
\<close>

record cli =
  lib :: DRBCC_t
  s_running :: bool
  running :: bool
  session_count :: u32
  line_valid :: bool
  current_line :: "string option"
  sema :: "drbcc_sema option"
  wait_time :: timeval
  flashread_filename :: string
  readoffset :: int
  tm_flashread_request :: timeval
  raw :: int
  pipe_ans :: "nat \<Rightarrow> pipe_answer"
  pipe_ios :: nat
  conv16 :: "int \<Rightarrow> int"
  accel_text :: "int \<Rightarrow> int \<Rightarrow> int \<Rightarrow> string"
  stack_junk :: bytes
  msg_junk :: bytes
  stdout :: string
  stderr :: string
  overrun :: bool

section \<open>Sessions\<close>

definition sema_release :: "cli \<Rightarrow> cli" where
  "sema_release c =
     (let (r, n, s) = drbcc_sema_release (pipe_ans c) (pipe_ios c) (sema c)
      in c\<lparr>pipe_ios := n, sema := s\<rparr>)"

definition session_start :: "cli \<Rightarrow> cli" where
  "session_start c = c\<lparr>session_count := session_count c + 1\<rparr>"

definition session_stop :: "cli \<Rightarrow> cli" where
  "session_stop c =
     (if session_count c \<noteq> 0 then sema_release (c\<lparr>session_count := session_count c - 1\<rparr>) else c)"

definition session_active :: "cli \<Rightarrow> u32" where
  "session_active c = session_count c"

text \<open>\<^verbatim>\<open>SIGTERM\<close> and \<^verbatim>\<open>SIGINT\<close>.\<close>

definition sighandler :: "cli \<Rightarrow> cli" where
  "sighandler c = session_stop (sema_release (c\<lparr>running := False\<rparr>))"

section \<open>Callbacks\<close>

definition print :: "string \<Rightarrow> cli \<Rightarrow> cli" where
  "print t c = c\<lparr>stdout := stdout c @ t\<rparr>"

definition with_lib :: "(DRBCC_t \<Rightarrow> 'a \<times> DRBCC_t) \<Rightarrow> cli \<Rightarrow> 'a \<times> cli" where
  "with_lib f c = (let (r, h) = f (lib c) in (r, c\<lparr>lib := h\<rparr>))"

definition timersub :: "timeval \<Rightarrow> timeval \<Rightarrow> timeval" where
  "timersub a b =
     (let sec = tv_sec a - tv_sec b; usec = tv_usec a - tv_usec b
      in if usec < 0 then Timeval (sec - 1) (usec + 1000000) else Timeval sec usec)"

text \<open>Log entries are appended to the file that was asked for, or printed if there is none or
  it cannot be opened.\<close>

definition getlog_callback :: "u32 \<Rightarrow> nat \<Rightarrow> bytes \<Rightarrow> cli \<Rightarrow> cli" where
  "getlog_callback pos len data c =
     (let t = log_line (conv16 c) (accel_text c) (raw c \<noteq> 0) pos len data; f = flashread_filename c
      in if f = [] then print t c
         else (case with_lib (sys_open True False f) c of
                 (False, c1) \<Rightarrow> print t c1
               | (True, c1) \<Rightarrow> c1\<lparr>lib := (lib c1)\<lparr>fs := (fs (lib c1))(f :=
                   map_option (\<lambda>old. old @ text_bytes t) (fs (lib c1) f))\<rparr>\<rparr>))"

text \<open>Flash contents are printed, or written to the file that was asked for at the distance
  from the start of the request; a seek before the start of the file fails.\<close>

definition flash_read_report :: "u32 \<Rightarrow> u32 \<Rightarrow> timeval \<Rightarrow> string \<Rightarrow> string" where
  "flash_read_report addr len delta f =
     ''flash_read_cb: after '' @ show_int (tv_sec delta) @ ''.'' @ pad0 6 (show_int (tv_usec delta)) @
     '' seconds addr='' @ show_nat (unat addr) @ '' len='' @ show_nat (unat len) @
     '' data written to file '' @ f @ newline"

definition flash_read_callback :: "u32 \<Rightarrow> u32 \<Rightarrow> bytes \<Rightarrow> cli \<Rightarrow> cli" where
  "flash_read_callback addr len data c =
     (let f = flashread_filename c
      in if f = [] then print (dump_text (unat addr) (take (unat len) data)) c
         else (case with_lib (sys_open True False f) c of
                 (False, c1) \<Rightarrow> c1
               | (True, c1) \<Rightarrow>
                   let off = uint addr - readoffset c1
                   in if off < 0 then c1
                      else (case with_lib (sys_write_at f (nat off) (take (unat len) data)) c1 of
                              (r, c2) \<Rightarrow>
                                if r \<noteq> uint len then c2
                                else (case with_lib drbcc_gettimeofday c2 of
                                        (now, c3) \<Rightarrow> print (flash_read_report addr len
                                          (timersub now (tm_flashread_request c3)) f) c3))))"

fun run_callback :: "event \<Rightarrow> cli \<Rightarrow> cli" where
  "run_callback (Ev_session _ _) c = session_stop c"
| "run_callback (Ev_error t) c = c\<lparr>stderr := stderr c @ ''error_cb: '' @ t @ newline\<rparr>"
| "run_callback (Ev_protocol a b r info) c = print (protocol_text (stack_junk c) (msg_junk c) a b r info) c"
| "run_callback (Ev_id b s ser) c = print (id_text b s ser) c"
| "run_callback (Ev_partitiontable es) c = print (part_text es) c"
| "run_callback (Ev_rtc t epoch) c = print (rtc_text t epoch) c"
| "run_callback (Ev_getlog pos len data) c = getlog_callback pos len data c"
| "run_callback (Ev_getpos pos e w) c = print (getpos_text pos e w) c"
| "run_callback (Ev_debug_get addr len data) c = print (debug_get_text addr len data) c"
| "run_callback (Ev_status st) c = print (status_text (conv16 c) st) c"
| "run_callback (Ev_accel_event t x y z) c = print (accel_cb_text (conv16 c) t x y z) c"
| "run_callback (Ev_flash_id m d1 d2) c = print (flash_id_text m d1 d2) c"
| "run_callback (Ev_read_flash addr len data) c = flash_read_callback addr len data c"
| "run_callback (Ev_write_flash addr len r) c = print (flash_write_text addr len r) c"
| "run_callback (Ev_erase_flash b r) c = print (flash_erase_text b r) c"
| "run_callback (Ev_progress cur m) c = print (progress_text cur m) c"
| "run_callback (Ev_hdOffRequest _) c = c"

section \<open>Calls of the library\<close>

definition run_new_events :: "DRBCC_t \<Rightarrow> cli \<Rightarrow> cli" where
  "run_new_events h c =
     fold run_callback (drop (length (events (lib c))) (events h)) (c\<lparr>lib := h\<rparr>)"

definition call_lib :: "(DRBCC_t \<Rightarrow> 'a \<times> DRBCC_t) \<Rightarrow> cli \<Rightarrow> 'a \<times> cli" where
  "call_lib f c = (let (r, h) = f (lib c) in (r, run_new_events h c))"

text \<open>\<^verbatim>\<open>session_start(...); CHECKCALL(..., rc, f, (h, &session, ...));
  if(rc != DRBCC_RC_NOERROR) { session_stop(...); }\<close>\<close>

definition session_call :: "(bool \<Rightarrow> DRBCC_t \<Rightarrow> DRBCC_RC_t \<times> DRBCC_t) \<Rightarrow> cli \<Rightarrow> cli" where
  "session_call f c =
     (let (rc, c1) = call_lib (f True) (session_start c)
      in if rc \<noteq> DRBCC_RC_NOERROR then session_stop c1 else c1)"

definition register_flash_cbs :: "cli \<Rightarrow> cli" where
  "register_flash_cbs c =
     snd (call_lib (drbcc_register_flash_erase_cb True)
       (snd (call_lib (drbcc_register_flash_write_cb True)
         (snd (call_lib (drbcc_register_flash_read_cb True) c)))))"

definition unregister_flash_cbs :: "cli \<Rightarrow> cli" where
  "unregister_flash_cbs c =
     snd (call_lib (drbcc_register_flash_erase_cb False)
       (snd (call_lib (drbcc_register_flash_write_cb False)
         (snd (call_lib (drbcc_register_flash_read_cb False) c)))))"

end
