(* ===== verification/Tool_Sessions.thy ===== *)
theory Tool_Sessions
  imports Tool
begin

text \<open>
  How the sessions the tool counts and those of the library correspond: a request of the
  library that succeeds has opened a session, so that after a command the tool counts a session
  only if the library has one, whose end will be reported.
\<close>

section \<open>Requests that open a session\<close>

text \<open>The tool counts a session only while the library has one. A request opens a session
  whenever it succeeds, the callback for sessions being registered and the next session number
  not having wrapped around to zero.\<close>

definition opens :: "(bool \<Rightarrow> DRBCC_t \<Rightarrow> DRBCC_RC_t \<times> DRBCC_t) \<Rightarrow> bool" where
  "opens f \<longleftrightarrow> (\<forall>s s'. cbs s session_cb \<longrightarrow> drbcc_session s \<noteq> 0 \<longrightarrow>
     f True s = (DRBCC_RC_NOERROR, s') \<longrightarrow> session s' \<noteq> 0)"

definition fresh :: "cli \<Rightarrow> bool" where
  "fresh c \<longleftrightarrow> session_count c = 0 \<and> cbs (lib c) session_cb \<and> drbcc_session (lib c) \<noteq> 0"

definition backed :: "cli \<Rightarrow> bool" where
  "backed c \<longleftrightarrow> (session_count c \<noteq> 0 \<longrightarrow> session (lib c) \<noteq> 0)"

named_theorems opens_intros \<open>requests that open a session\<close>

lemma alloc_msg_fields [simp]:
  "cbs (snd (alloc_msg s)) = cbs s" "drbcc_session (snd (alloc_msg s)) = drbcc_session s"
  "session (snd (alloc_msg s)) = session s"
  by (simp_all add: alloc_msg_def drbcc_malloc_def)

lemma prio_request_opens: "prio_request bs closes True s = (DRBCC_RC_NOERROR, s') \<Longrightarrow>
    cbs s session_cb \<Longrightarrow> drbcc_session s \<noteq> 0 \<Longrightarrow> session s' \<noteq> 0"
  by (auto simp: prio_request_def alloc_msg_def drbcc_malloc_def open_session_def libdrbcc_add_msg_prio_def
    CHECK_HANDLE_def split: option.splits if_splits)

lemma opens_prio [opens_intros]:
  "opens drbcc_sync" "opens drbcc_req_protocol" "opens drbcc_req_rtc" "opens (drbcc_set_rtc t)"
  "opens (drbcc_heartbeat n)" "opens (drbcc_shutdown n)" "opens (drbcc_set_gpo g w)"
  "opens (drbcc_set_led l col on off ph)" "opens drbcc_get_status" "opens drbcc_get_id_data"
  "opens drbcc_eject_hd" "opens (drbcc_hd_power n)" "opens (drbcc_gpi_power n)" "opens drbcc_req_flash_id"
  "opens drbcc_invalidate_bctrl_fw" "opens (drbcc_restart_bctrl n)" "opens drbcc_request_bootloader_update"
  "opens drbcc_get_pos" "opens drbcc_clear_log" "opens (drbcc_debug_get n)"
  unfolding opens_def drbcc_sync_def drbcc_req_protocol_def drbcc_req_rtc_def drbcc_set_rtc_def
    drbcc_heartbeat_def drbcc_shutdown_def drbcc_set_gpo_def drbcc_set_led_def drbcc_get_status_def
    drbcc_get_id_data_def drbcc_eject_hd_def drbcc_hd_power_def drbcc_gpi_power_def drbcc_req_flash_id_def
    drbcc_invalidate_bctrl_fw_def drbcc_restart_bctrl_def drbcc_request_bootloader_update_def
    drbcc_get_pos_def drbcc_clear_log_def drbcc_debug_get_def
  by (blast dest: prio_request_opens)+

lemma flash_read_session [simp]: "session (snd (libdrbcc_req_flash_read addr len s)) = session s"
  by (simp add: libdrbcc_req_flash_read_def alloc_msg_def drbcc_malloc_def libdrbcc_add_msg_sec_def Let_def
    split: option.split)

lemma flash_erase_session: "session (snd (libdrbcc_req_flash_erase_block b s)) = session s"
  by (simp add: libdrbcc_req_flash_erase_block_def alloc_msg_def drbcc_malloc_def libdrbcc_add_msg_sec_def
    split: option.split)

lemma flash_write_session: "session (snd (libdrbcc_req_flash_write addr len data s)) = session s"
  by (simp add: libdrbcc_req_flash_write_def write_first_def save_rest_def fetch_def alloc_msg_def
    drbcc_malloc_def libdrbcc_add_msg_sec_def Let_def split: option.split)

lemma opens_session_request:
  assumes "\<And>s. session (snd (body s)) = session s"
  shows "opens (session_request body)"
  unfolding opens_def
proof (intro allI impI)
  fix s s'
  assume "cbs s session_cb" "drbcc_session s \<noteq> 0" "session_request body True s = (DRBCC_RC_NOERROR, s')"
  then show "session s' \<noteq> 0"
    using assms [of "open_session False True (s\<lparr>state := DRBCC_STATE_USER\<rparr>)"]
    by (auto simp: session_request_def open_session_def CHECK_HANDLE_def split: if_splits)
qed

lemma opens_flash [opens_intros]:
  "opens (drbcc_req_flash_read addr len)" "opens (drbcc_req_flash_write addr len data)"
  "opens (drbcc_req_flash_erase_block b)"
  unfolding drbcc_req_flash_read_def drbcc_req_flash_write_def drbcc_req_flash_erase_block_def
  by (rule opens_session_request; simp add: flash_erase_session flash_write_session)+

lemma request_partition_session: "libdrbcc_request_partition s = (r, s') \<Longrightarrow> session s' = session s"
  using flash_read_session [of 0 128 s] by (simp add: libdrbcc_request_partition_def)

lemma file_guard_error: "file_guard s = Some e \<Longrightarrow> e \<noteq> DRBCC_RC_NOERROR"
  by (auto simp: file_guard_def CHECK_HANDLE_def split: if_splits)

lemma sys_open_fields:
  assumes "sys_open creat trunc name s = (ok, s')"
  shows "cbs s' = cbs s \<and> drbcc_session s' = drbcc_session s \<and> session s' = session s"
  using assms by (auto simp: sys_open_def sys_call_def Let_def split: if_splits)

lemma sys_call_fields:
  assumes "sys_call n s = (r, s')"
  shows "cbs s' = cbs s \<and> drbcc_session s' = drbcc_session s \<and> session s' = session s"
  using assms by (auto simp: sys_call_def)

lemma opens_files [opens_intros]:
  "opens drbcc_get_partitiontable" "opens (drbcc_delete_file i)" "opens (drbcc_get_file i name)"
  "opens (drbcc_put_file i type name)"
  unfolding opens_def drbcc_get_partitiontable_def drbcc_delete_file_def drbcc_get_file_def
    drbcc_put_file_def
  by (auto simp: take_session_def set_file_def Let_def
    dest!: request_partition_session sys_open_fields sys_call_fields file_guard_error
    split: option.splits prod.splits if_splits)

lemma opens_files_by_type [opens_intros]:
  "opens (drbcc_delete_file_type type)" "opens (drbcc_get_file_type type name)"
  "opens (drbcc_put_file_type type name)" "opens (drbcc_upload_firmware name)"
  "opens (drbcc_upload_bootloader name)"
  by (simp_all add: drbcc_delete_file_type_def drbcc_get_file_type_def drbcc_put_file_type_def
    drbcc_upload_firmware_def drbcc_upload_bootloader_def opens_files)

lemma fetch_fields:
  assumes "fetch blk p n s = (bs, s')"
  shows "cbs s' = cbs s \<and> drbcc_session s' = drbcc_session s"
  using assms by (auto simp: fetch_def split: option.splits if_splits)

lemma opens_log [opens_intros]:
  "opens (drbcc_get_log ring n)" "opens (drbcc_put_log r len data)" "opens (drbcc_debug_set a len data)"
  unfolding opens_def drbcc_get_log_def drbcc_put_log_def drbcc_debug_set_def
  by (auto simp: take_session_def open_session_def alloc_msg_def drbcc_malloc_def libdrbcc_add_msg_prio_def
    CHECK_HANDLE_def Let_def dest!: fetch_fields file_guard_error split: option.splits prod.splits if_splits)

section \<open>Steps of the tool\<close>

lemma session_count_release [simp]: "session_count (sema_release c) = session_count c"
  and lib_release [simp]: "lib (sema_release c) = lib c"
  by (simp_all add: sema_release_def split_def Let_def)

lemma session_stop_fields:
  "lib (session_stop c) = lib c" "session_count (session_stop c) = session_count c - of_bool (session_count c \<noteq> 0)"
  by (simp_all add: session_stop_def)

text \<open>A callback leaves the session of the library alone and ends at most one of the tool.\<close>

lemma run_callback_session:
  "session (lib (run_callback e c)) = session (lib c) \<and> session_count (run_callback e c) \<le> session_count c"
proof (cases e)
  case (Ev_session x y)
  then show ?thesis by (cases "session_count c = 0") (auto simp: session_stop_fields word_le_nat_alt unat_minus_one)
next
  case (Ev_getlog pos len data)
  then show ?thesis
    by (auto simp: getlog_callback_def print_def with_lib_def Let_def
      dest!: sys_open_fields split: prod.splits bool.splits)
next
  case (Ev_read_flash addr len data)
  then show ?thesis
    by (auto simp: flash_read_callback_def print_def with_lib_def Let_def sys_write_at_def drbcc_gettimeofday_def
      dest!: sys_open_fields sys_call_fields split: prod.splits bool.splits if_splits)
qed (simp_all add: print_def)

lemma run_callbacks_session:
  "session (lib (fold run_callback es c)) = session (lib c) \<and> session_count (fold run_callback es c) \<le> session_count c"
proof (induction es arbitrary: c)
  case (Cons e es)
  show ?case using Cons.IH [of "run_callback e c"] run_callback_session [of e c] by (auto intro: order_trans)
qed simp

lemma backed_call:
  assumes "fresh c" and "opens f"
  shows "backed (session_call f c)"
proof -
  obtain rc h where h: "f True (lib c) = (rc, h)" by fastforce
  obtain d es where e: "call_lib (f True) (session_start c) = (rc, d)"
    and d: "d = fold run_callback es ((session_start c)\<lparr>lib := h\<rparr>)"
    using h by (simp add: call_lib_def run_new_events_def session_start_def)
  have "session (lib d) = session h \<and> session_count d \<le> session_count (session_start c)"
    unfolding d using run_callbacks_session [of es "(session_start c)\<lparr>lib := h\<rparr>"] by (simp add: session_start_def)
  then have c: "session (lib d) = session h" "session_count d \<le> 1"
    using assms(1) by (simp_all add: session_start_def fresh_def)
  show ?thesis
  proof (cases "rc = DRBCC_RC_NOERROR")
    case True
    then have "session h \<noteq> 0" using assms h by (auto simp: opens_def fresh_def)
    then show ?thesis using c True e by (simp add: session_call_def backed_def)
  next
    case False
    have "session_count d = 0 \<or> session_count d = 1"
      using c(2) by (simp add: word_le_nat_alt word_unat_eq_iff) linarith
    then show ?thesis using False e by (auto simp: session_call_def backed_def session_stop_fields)
  qed
qed

lemma backed_idle: "fresh c \<Longrightarrow> backed c"
  by (simp add: fresh_def backed_def)

lemma backed_release: "fresh c \<Longrightarrow> backed (sema_release c)"
  by (simp add: fresh_def backed_def)

lemma fresh_register:
  assumes "fresh c" and "k \<noteq> session_cb"
  shows "fresh (snd (call_lib (register_cb k b) c))"
  using assms by (simp add: call_lib_def run_new_events_def register_cb_def fresh_def split: option.split)

lemma fresh_flash_cbs: "fresh c \<Longrightarrow> fresh (register_flash_cbs c)" "fresh c \<Longrightarrow> fresh (unregister_flash_cbs c)"
  by (simp_all add: register_flash_cbs_def unregister_flash_cbs_def drbcc_register_flash_erase_cb_def
    drbcc_register_flash_read_cb_def drbcc_register_flash_write_cb_def fresh_register)

lemma fresh_with_lib:
  assumes "fresh c" and "cbs (snd (f (lib c))) = cbs (lib c)" and "drbcc_session (snd (f (lib c))) = drbcc_session (lib c)"
  shows "fresh (snd (with_lib f c))"
  using assms by (simp add: fresh_def with_lib_def split_def Let_def)

lemma fresh_calls:
  assumes "fresh c"
  shows "fresh (snd (with_lib drbcc_gettimeofday c))" "fresh (snd (with_lib (drbcc_malloc n) c))"
    "fresh (snd (with_lib (sys_open creat trunc name) c))" "fresh (snd (with_lib (sys_read content p n) c))"
  by (rule fresh_with_lib [OF assms]; simp add: drbcc_gettimeofday_def drbcc_malloc_def sys_open_def
    sys_read_def sys_call_def Let_def)+

lemma fresh_fields:
  "fresh (c\<lparr>overrun := b\<rparr>) = fresh c" "fresh (c\<lparr>readoffset := z\<rparr>) = fresh c" "fresh (c\<lparr>wait_time := w\<rparr>) = fresh c"
  "fresh (c\<lparr>flashread_filename := f, tm_flashread_request := t\<rparr>) = fresh c"
  "fresh (c\<lparr>raw := z, flashread_filename := f\<rparr>) = fresh c" "fresh (c\<lparr>running := b\<rparr>) = fresh c"
  "fresh (print u c) = fresh c"
  by (simp_all add: fresh_def print_def)

end
