(* ===== verification/Tool_Commands.thy ===== *)
theory Tool_Commands
  imports Tool_Sessions
begin

text \<open>
  The commands of the command line tool: one function for each \<^verbatim>\<open>process_cmd_...\<close> of
  \<^verbatim>\<open>main.c\<close> and for each case of \<^verbatim>\<open>process_input\<close> that parses arguments, and
  \<^verbatim>\<open>process_input\<close> itself. The lemmas show that a command is answered exactly once:
  either the semaphore is released, or a session is open whose end will release it.
\<close>

section \<open>Arguments\<close>

text \<open>An \<^verbatim>\<open>unsigned int\<close> or \<^verbatim>\<open>int\<close> variable behind the \<open>i\<close>-th pointer.\<close>

definition arg_u32 :: "stored list \<Rightarrow> nat \<Rightarrow> int \<Rightarrow> u32" where
  "arg_u32 vs i d = word_of_int (number_arg vs i d)"

abbreviation FILENAME_MAX :: nat where "FILENAME_MAX \<equiv> 4096"

definition stored_in :: "nat \<Rightarrow> string \<Rightarrow> cli \<Rightarrow> cli" where
  "stored_in n t c = (if length t < n then c else c\<lparr>overrun := True\<rparr>)"

section \<open>The commands\<close>

definition process_cmd_setgpo :: "string \<Rightarrow> cli \<Rightarrow> cli" where
  "process_cmd_setgpo line c =
     (let (n, vs) = sscanf line ''%*s%u,%d''
      in if n \<noteq> 2 then sema_release c
         else session_call (drbcc_set_gpo (arg_u32 vs 0 (-1)) (arg_u32 vs 1 255)) c)"

definition process_cmd_setled :: "string \<Rightarrow> cli \<Rightarrow> cli" where
  "process_cmd_setled line c =
     (let (n, vs) = sscanf line ''%*s%u,%d,%d,%d,%d''
      in if n < 2 then sema_release c
         else session_call (drbcc_set_led (arg_u32 vs 0 (-1)) (arg_u32 vs 1 255) (arg_u32 vs 2 0)
           (arg_u32 vs 3 0) (arg_u32 vs 4 0)) c)"

definition process_cmd_getstatus :: "cli \<Rightarrow> cli" where
  "process_cmd_getstatus c = session_call drbcc_get_status c"

definition process_cmd_getiddata :: "cli \<Rightarrow> cli" where
  "process_cmd_getiddata c = session_call drbcc_get_id_data c"

definition process_cmd_setrtc :: "string \<Rightarrow> cli \<Rightarrow> cli" where
  "process_cmd_setrtc line c =
     (if CHR '' '' \<in> set line then session_call (drbcc_set_rtc (setrtc_time line 0)) c
      else (case with_lib drbcc_gettimeofday c of
              (now, c1) \<Rightarrow> session_call (drbcc_set_rtc (setrtc_time line (tv_sec now))) c1))"

definition process_cmd_rflash :: "string \<Rightarrow> cli \<Rightarrow> cli" where
  "process_cmd_rflash line c =
     (let (now, c1) = with_lib drbcc_gettimeofday c;
          (n, vs) = sscanf line ''%*s%i,%i,%s'';
          file = text_arg vs 2 [];
          c2 = stored_in FILENAME_MAX file (c1\<lparr>flashread_filename := file, tm_flashread_request := now\<rparr>);
          addr = arg_u32 vs 0 (-1)
      in if n < 2 then sema_release c2
         else session_call (drbcc_req_flash_read addr (arg_u32 vs 1 0))
           ((register_flash_cbs c2)\<lparr>readoffset := uint addr\<rparr>))"

text \<open>The length is signed and is converted for \<^verbatim>\<open>malloc\<close>, which cannot give a negative
  length's worth. When it fails, nothing more is done: neither is the semaphore released.\<close>

definition wflash_malloc :: "int \<Rightarrow> cli \<Rightarrow> bool \<times> cli" where
  "wflash_malloc len c =
     (if len < 0 then (False, c)
      else (case with_lib (drbcc_malloc (nat len)) c of (b, c1) \<Rightarrow> (b \<noteq> None, c1)))"

definition wflash_file :: "u32 \<Rightarrow> int \<Rightarrow> string \<Rightarrow> cli \<Rightarrow> cli" where
  "wflash_file addr len file c =
     (case with_lib (sys_open False False file) c of
        (False, c1) \<Rightarrow> sema_release c1
      | (True, c1) \<Rightarrow>
          let content = (case fs (lib c1) file of None \<Rightarrow> [] | Some x \<Rightarrow> x);
              (r, c2) = with_lib (sys_read content 0 (nat len)) c1
          in if r = len
             then session_call (drbcc_req_flash_write addr (word_of_int len) (take (nat len) content))
                    (register_flash_cbs c2)
             else sema_release c2)"

definition process_cmd_wflash :: "string \<Rightarrow> cli \<Rightarrow> cli" where
  "process_cmd_wflash line c =
     (let (n, vs) = sscanf line ''%*s%i,%zi,%s'';
          file = text_arg vs 2 []; c1 = stored_in FILENAME_MAX file c;
          len = number_arg vs 1 0
      in if n \<noteq> 3 then sema_release c1
         else (case wflash_malloc len c1 of
                 (False, c2) \<Rightarrow> c2
               | (True, c2) \<Rightarrow> wflash_file (arg_u32 vs 0 (-1)) len file c2))"

definition process_cmd_eflash :: "string \<Rightarrow> cli \<Rightarrow> cli" where
  "process_cmd_eflash line c =
     (let (n, vs) = sscanf line ''%*s%i''
      in if n \<noteq> 1 then sema_release c
         else session_call (drbcc_req_flash_erase_block (arg_u32 vs 0 (-1))) (register_flash_cbs c))"

definition process_cmd_gfile :: "string \<Rightarrow> cli \<Rightarrow> cli" where
  "process_cmd_gfile line c =
     (let (n, vs) = sscanf line ''%*s%u,%s''; path = text_arg vs 1 []; c1 = stored_in FILENAME_MAX path c
      in if n \<noteq> 2 then sema_release c1
         else session_call (drbcc_get_file (arg_u32 vs 0 (-1)) path) (unregister_flash_cbs c1))"

definition process_cmd_gfiletype :: "string \<Rightarrow> cli \<Rightarrow> cli" where
  "process_cmd_gfiletype line c =
     (let (n, vs) = sscanf line ''%*s%i,%s''; path = text_arg vs 1 []; c1 = stored_in FILENAME_MAX path c
      in if n \<noteq> 2 then sema_release c1
         else session_call (drbcc_get_file_type (arg_u32 vs 0 (-1)) path) (unregister_flash_cbs c1))"

definition process_cmd_glog :: "string \<Rightarrow> cli \<Rightarrow> cli" where
  "process_cmd_glog line c =
     (let (n, vs) = sscanf line ''%*s %d,%d,%s''; vs' = snd (sscanf line ''%*s ,%d,%s'');
          raw' = (if n = 0 then number_arg vs' 0 0 else number_arg vs 1 0);
          file = (if n = 0 then text_arg vs' 1 [] else text_arg vs 2 []);
          c1 = stored_in FILENAME_MAX file (c\<lparr>raw := sint (word_of_int raw' :: u32), flashread_filename := file\<rparr>)
      in session_call (drbcc_get_log True (sint (arg_u32 vs 0 1000000))) (unregister_flash_cbs c1))"

definition process_cmd_pfile :: "string \<Rightarrow> cli \<Rightarrow> cli" where
  "process_cmd_pfile line c =
     (let (n, vs) = sscanf line ''%*s%u,%u,%s''; path = text_arg vs 2 []; c1 = stored_in FILENAME_MAX path c
      in if n \<noteq> 3 then sema_release c1
         else session_call (drbcc_put_file (arg_u32 vs 0 (-1)) (arg_u32 vs 1 (-1)) path)
           (unregister_flash_cbs c1))"

definition process_cmd_pfiletype :: "string \<Rightarrow> cli \<Rightarrow> cli" where
  "process_cmd_pfiletype line c =
     (let (n, vs) = sscanf line ''%*s%i,%s''; path = text_arg vs 1 []; c1 = stored_in FILENAME_MAX path c
      in if n \<noteq> 2 then sema_release c1
         else session_call (drbcc_put_file_type (arg_u32 vs 0 (-1)) path) (unregister_flash_cbs c1))"

definition process_cmd_dfile :: "string \<Rightarrow> cli \<Rightarrow> cli" where
  "process_cmd_dfile line c =
     (let (n, vs) = sscanf line ''%*s%u''
      in if n \<noteq> 1 then sema_release c
         else session_call (drbcc_delete_file (arg_u32 vs 0 (-1))) (unregister_flash_cbs c))"

definition process_cmd_dfiletype :: "string \<Rightarrow> cli \<Rightarrow> cli" where
  "process_cmd_dfiletype line c =
     (let (n, vs) = sscanf line ''%*s%i''
      in if n \<noteq> 1 then sema_release c
         else session_call (drbcc_delete_file_type (arg_u32 vs 0 (-1))) (unregister_flash_cbs c))"

definition process_cmd_fwupl :: "string \<Rightarrow> cli \<Rightarrow> cli" where
  "process_cmd_fwupl line c =
     (let (n, vs) = sscanf line ''%*s%s''; path = text_arg vs 0 []; c1 = stored_in FILENAME_MAX path c
      in if n \<noteq> 1 then sema_release c1
         else session_call (drbcc_upload_firmware path) (unregister_flash_cbs c1))"

definition process_cmd_blupl :: "string \<Rightarrow> cli \<Rightarrow> cli" where
  "process_cmd_blupl line c =
     (let (n, vs) = sscanf line ''%*s%s''; path = text_arg vs 0 []; c1 = stored_in FILENAME_MAX path c
      in if n \<noteq> 1 then sema_release c1
         else session_call (drbcc_upload_bootloader path) (unregister_flash_cbs c1))"

text \<open>The cases of \<^verbatim>\<open>process_input\<close> that read one number: \<^verbatim>\<open>hdpower\<close>,
  \<^verbatim>\<open>gpipower\<close>, \<^verbatim>\<open>shutdown\<close>, \<^verbatim>\<open>heartbeat\<close>, \<^verbatim>\<open>debugget\<close>.\<close>

definition one_number ::
  "(u32 \<Rightarrow> bool \<Rightarrow> DRBCC_t \<Rightarrow> DRBCC_RC_t \<times> DRBCC_t) \<Rightarrow> string \<Rightarrow> cli \<Rightarrow> cli" where
  "one_number f line c =
     (let (n, vs) = sscanf line ''%*s%u''
      in if n \<noteq> 1 then sema_release c else session_call (f (arg_u32 vs 0 0)) c)"

definition process_cmd_wait :: "timeval \<Rightarrow> string \<Rightarrow> cli \<Rightarrow> cli" where
  "process_cmd_wait now line c =
     (let (n, vs) = sscanf line ''%*s%lu''; d = uint (word_of_int (number_arg vs 0 0) :: 64 word)
      in if n \<noteq> 1 then sema_release c
         else sema_release (c\<lparr>wait_time := timeradd now (Timeval (d div 1000) (d mod 1000))\<rparr>))"

definition process_cmd_putlog :: "string \<Rightarrow> cli \<Rightarrow> cli" where
  "process_cmd_putlog line c =
     (let d = unat (arg_u32 (snd (sscanf line ''%*s%i'')) 0 5); len = max 1 (min 128 d)
      in session_call (drbcc_put_log 1 (int len) (map of_nat [0..<256])) c)"

definition hex_pairs :: "string \<Rightarrow> bytes" where
  "hex_pairs s = map (\<lambda>i. word_of_int (scan_hex2 (s ! (2 * i)) (s ! (2 * i + 1))))
     [0..<min (length s div 2) 256]"

definition process_cmd_debugset :: "string \<Rightarrow> cli \<Rightarrow> cli" where
  "process_cmd_debugset line c =
     (let (n, vs) = sscanf line ''%*s%u,%s''; hex = text_arg vs 1 []; c1 = stored_in 1024 hex c;
          data = hex_pairs hex
      in if n < 1 then sema_release c1
         else session_call (drbcc_debug_set (arg_u32 vs 0 0) (int (length data)) data) c1)"

section \<open>Processing a line\<close>

text \<open>\<^verbatim>\<open>get_command\<close>: the return value, the line and the command.\<close>

definition get_command :: "cli \<Rightarrow> int \<times> string \<times> cmdid_t \<times> cli" where
  "get_command c =
     (case current_line c of
        None \<Rightarrow> (-1, [], cmdid_unknown, c\<lparr>running := False\<rparr>)
      | Some line \<Rightarrow>
          if line = [] then (0, [], cmdid_unknown, c)
          else if line_valid c then (1, line, find_command s_cmds line, c\<lparr>line_valid := False\<rparr>)
          else (0, [], cmdid_unknown, c))"

fun process_cmd :: "cmdid_t \<Rightarrow> timeval \<Rightarrow> string \<Rightarrow> cli \<Rightarrow> cli" where
  "process_cmd cmdid_hdeject now line c = session_call drbcc_eject_hd c"
| "process_cmd cmdid_hdonoff now line c = one_number drbcc_hd_power line c"
| "process_cmd cmdid_gpipower now line c = one_number drbcc_gpi_power line c"
| "process_cmd cmdid_wait now line c = process_cmd_wait now line c"
| "process_cmd cmdid_shutdown now line c = one_number drbcc_shutdown line c"
| "process_cmd cmdid_heartbeat now line c = one_number drbcc_heartbeat line c"
| "process_cmd cmdid_exit now line c = c\<lparr>running := False\<rparr>"
| "process_cmd cmdid_help now line c = sema_release (print cmd_lines c)"
| "process_cmd cmdid_sync now line c = session_call drbcc_sync c"
| "process_cmd cmdid_proto now line c = session_call drbcc_req_protocol c"
| "process_cmd cmdid_part now line c = session_call drbcc_get_partitiontable (unregister_flash_cbs c)"
| "process_cmd cmdid_getrtc now line c = session_call drbcc_req_rtc c"
| "process_cmd cmdid_setrtc now line c = process_cmd_setrtc line c"
| "process_cmd cmdid_setgpo now line c = process_cmd_setgpo line c"
| "process_cmd cmdid_setled now line c = process_cmd_setled line c"
| "process_cmd cmdid_getstatus now line c = process_cmd_getstatus c"
| "process_cmd cmdid_getiddata now line c = process_cmd_getiddata c"
| "process_cmd cmdid_flashid now line c = session_call drbcc_req_flash_id c"
| "process_cmd cmdid_rflash now line c = process_cmd_rflash line c"
| "process_cmd cmdid_wflash now line c = process_cmd_wflash line c"
| "process_cmd cmdid_eflash now line c = process_cmd_eflash line c"
| "process_cmd cmdid_gfile now line c = process_cmd_gfile line c"
| "process_cmd cmdid_gfiletype now line c = process_cmd_gfiletype line c"
| "process_cmd cmdid_pfile now line c = process_cmd_pfile line c"
| "process_cmd cmdid_pfiletype now line c = process_cmd_pfiletype line c"
| "process_cmd cmdid_dfile now line c = process_cmd_dfile line c"
| "process_cmd cmdid_dfiletype now line c = process_cmd_dfiletype line c"
| "process_cmd cmdid_blupl now line c = process_cmd_blupl line c"
| "process_cmd cmdid_fwupl now line c = process_cmd_fwupl line c"
| "process_cmd cmdid_blupd now line c = session_call drbcc_request_bootloader_update c"
| "process_cmd cmdid_fwinv now line c = session_call drbcc_invalidate_bctrl_fw c"
| "process_cmd cmdid_restart now line c = session_call (drbcc_restart_bctrl 0) c"
| "process_cmd cmdid_getlog now line c = process_cmd_glog line c"
| "process_cmd cmdid_putlog now line c = process_cmd_putlog line c"
| "process_cmd cmdid_getpos now line c = session_call drbcc_get_pos c"
| "process_cmd cmdid_clearlog now line c = session_call drbcc_clear_log c"
| "process_cmd cmdid_debugset now line c = process_cmd_debugset line c"
| "process_cmd cmdid_debugget now line c = one_number drbcc_debug_get line c"
| "process_cmd cmdid_unknown now line c = sema_release c"

definition process_input :: "cli \<Rightarrow> cli" where
  "process_input c =
     (case with_lib drbcc_gettimeofday c of
        (now, c1) \<Rightarrow>
          if wait_time c1 < now
          then (case get_command c1 of
                  (r, line, command, c2) \<Rightarrow> if 1 \<le> r then process_cmd command now line c2 else c2)
          else c1)"

section \<open>Answers\<close>

text \<open>What the main thread has coming: the bytes in the pipe and the sessions whose end will add
  one.\<close>

definition pending :: "cli \<Rightarrow> nat" where
  "pending c = unat (session_count c) + sema_level (sema c)"

definition sema_sound :: "cli \<Rightarrow> bool" where
  "sema_sound c \<longleftrightarrow> sema_usable (sema c) \<and> patient (pipe_ans c)"

text \<open>What both threads look at, besides the semaphore.\<close>

definition control :: "cli \<Rightarrow> bool \<times> bool \<times> bool \<times> string option" where
  "control c = (s_running c, running c, line_valid c, current_line c)"

lemma sema_release_sound:
  assumes "sema_sound c"
  shows "sema_sound (sema_release c)" "session_count (sema_release c) = session_count c"
    "sema_level (sema (sema_release c)) = Suc (sema_level (sema c))"
    "control (sema_release c) = control c"
proof -
  obtain n s where c: "(pipe_ios c, sema c) = (n, Some s)" "writefd_open s" "patient (pipe_ans c)"
    using assms by (auto simp: sema_sound_def sema_usable_def split: option.splits)
  obtain k where k: "k < 1000" "pipe_ans c (n + k) = Pipe_ok" "\<forall>i < k. pipe_ans c (n + i) = Pipe_EINTR"
    using patientE [OF c(3)] by blast
  have "sema_release c = c\<lparr>pipe_ios := Suc (n + k), sema := Some (s\<lparr>pipe_bytes := Suc (pipe_bytes s)\<rparr>)\<rparr>"
    using c(1) k by (simp add: sema_release_def drbcc_sema_release_def release_loop_retries [of "pipe_ans c" n k])
  then show "sema_sound (sema_release c)" "session_count (sema_release c) = session_count c"
    "sema_level (sema (sema_release c)) = Suc (sema_level (sema c))" "control (sema_release c) = control c"
    using c by (simp_all add: sema_sound_def sema_usable_def sema_level_def control_def)
qed

text \<open>A step that leaves the count of answers alone: it may end a session, but only by putting
  a byte into the pipe.\<close>

definition keeps_pending :: "cli \<Rightarrow> cli \<Rightarrow> bool" where
  "keeps_pending c c' \<longleftrightarrow> (sema_sound c \<longrightarrow> sema_sound c' \<and> pending c' = pending c \<and>
     session_count c' \<le> session_count c \<and> control c' = control c)"

lemma keeps_pending_refl [simp]: "keeps_pending c c"
  by (simp add: keeps_pending_def)

lemma keeps_pending_trans: "keeps_pending c d \<Longrightarrow> keeps_pending d e \<Longrightarrow> keeps_pending c e"
  by (auto simp: keeps_pending_def)

lemma keeps_pending_fields:
  "sema c' = sema c \<Longrightarrow> pipe_ans c' = pipe_ans c \<Longrightarrow> session_count c' = session_count c \<Longrightarrow>
   control c' = control c \<Longrightarrow> keeps_pending c c'"
  by (simp add: keeps_pending_def sema_sound_def pending_def)

lemma keeps_session_stop: "keeps_pending c (session_stop c)"
proof (cases "session_count c = 0")
  case False
  show ?thesis
    unfolding keeps_pending_def
  proof
    assume s: "sema_sound c"
    let ?d = "c\<lparr>session_count := session_count c - 1\<rparr>"
    have d: "sema_sound ?d" "control ?d = control c" using s by (simp_all add: sema_sound_def control_def)
    have "unat (session_count c - 1) = unat (session_count c) - 1" "0 < unat (session_count c)"
      using False by (simp_all add: unat_minus_one unat_gt_0)
    then show "sema_sound (session_stop c) \<and> pending (session_stop c) = pending c \<and>
        session_count (session_stop c) \<le> session_count c \<and> control (session_stop c) = control c"
      using False sema_release_sound [OF d(1)] d(2)
      by (simp add: session_stop_def pending_def word_le_nat_alt)
  qed
qed (simp add: session_stop_def)

lemma keeps_run_callback: "keeps_pending c (run_callback e c)"
proof (cases e)
  case (Ev_session x y)
  then show ?thesis by (simp add: keeps_session_stop)
qed (auto intro!: keeps_pending_fields simp: print_def getlog_callback_def flash_read_callback_def
  with_lib_def control_def Let_def split: prod.splits if_splits bool.splits)

lemma keeps_fold_callback: "keeps_pending c (fold run_callback es c)"
proof (induction es arbitrary: c)
  case (Cons e es)
  show ?case using keeps_pending_trans [OF keeps_run_callback Cons.IH] by simp
qed simp

lemma keeps_call_lib: "keeps_pending c (snd (call_lib f c))"
proof -
  obtain r h where f: "f (lib c) = (r, h)" by fastforce
  have "keeps_pending c (c\<lparr>lib := h\<rparr>)"
    by (rule keeps_pending_fields) (simp_all add: control_def)
  then show ?thesis
    using keeps_pending_trans [OF _ keeps_fold_callback] by (simp add: call_lib_def run_new_events_def f)
qed

lemma keeps_with_lib: "keeps_pending c (snd (with_lib f c))"
  by (rule keeps_pending_fields) (simp_all add: with_lib_def control_def split_def Let_def)

lemma keeps_flash_cbs:
  "keeps_pending c (register_flash_cbs c)" "keeps_pending c (unregister_flash_cbs c)"
  unfolding register_flash_cbs_def unregister_flash_cbs_def
  by (blast intro: keeps_pending_trans keeps_call_lib)+

lemma keeps_stored_in: "keeps_pending c (stored_in n t c)"
  by (rule keeps_pending_fields) (simp_all add: stored_in_def control_def)

text \<open>A step that gives the main thread one more answer, now or at the end of the one session
  that is open then.\<close>

definition answers :: "cli \<Rightarrow> cli \<Rightarrow> bool" where
  "answers c c' \<longleftrightarrow> (sema_sound c \<and> session_count c = 0 \<longrightarrow> sema_sound c' \<and>
     pending c' = Suc (pending c) \<and> session_count c' \<le> 1 \<and> control c' = control c)"

named_theorems answer_intros \<open>steps that answer the main thread\<close>

lemma answers_after_keeps:
  assumes "keeps_pending c d" and "answers d e"
  shows "answers c e"
  using assms by (auto simp: answers_def keeps_pending_def)

lemma answers_release [answer_intros]: "keeps_pending c d \<Longrightarrow> answers c (sema_release d)"
proof (rule answers_after_keeps)
  show "answers d (sema_release d)"
    using sema_release_sound [of d] by (auto simp: answers_def pending_def)
qed

lemma answers_then_keeps: "answers c d \<Longrightarrow> keeps_pending d e \<Longrightarrow> answers c e"
  by (auto simp: answers_def keeps_pending_def)

lemma answers_session_call [answer_intros]: "keeps_pending c d \<Longrightarrow> answers c (session_call f d)"
proof (rule answers_after_keeps)
  obtain rc e where e: "call_lib (f True) (session_start d) = (rc, e)" by fastforce
  have "answers d (session_start d)"
    by (auto simp: answers_def session_start_def pending_def sema_sound_def control_def)
  moreover have "keeps_pending (session_start d) e"
    using keeps_call_lib [of "session_start d" "f True"] e by simp
  ultimately have "answers d e" "answers d (session_stop e)"
    using answers_then_keeps keeps_session_stop by blast+
  then show "answers d (session_call f d)" by (simp add: session_call_def e)
qed

lemma keeps_pending_sub:
  "keeps_pending c d \<Longrightarrow> keeps_pending c (register_flash_cbs d)"
  "keeps_pending c d \<Longrightarrow> keeps_pending c (unregister_flash_cbs d)"
  "keeps_pending c d \<Longrightarrow> keeps_pending c (stored_in n t d)"
  "keeps_pending c d \<Longrightarrow> keeps_pending c (snd (with_lib f d))"
  "keeps_pending c d \<Longrightarrow> keeps_pending c (print t d)"
  "keeps_pending c d \<Longrightarrow> keeps_pending c (d\<lparr>flashread_filename := x, tm_flashread_request := y\<rparr>)"
  "keeps_pending c d \<Longrightarrow> keeps_pending c (d\<lparr>readoffset := z\<rparr>)"
  "keeps_pending c d \<Longrightarrow> keeps_pending c (d\<lparr>raw := z, flashread_filename := x\<rparr>)"
  "keeps_pending c d \<Longrightarrow> keeps_pending c (d\<lparr>wait_time := w\<rparr>)"
  by (erule keeps_pending_trans; (rule keeps_flash_cbs keeps_stored_in keeps_with_lib
      keeps_pending_fields; simp add: print_def control_def)?)+

lemmas keeps_pending_intros = keeps_pending_refl keeps_pending_sub

lemma answers_simple [answer_intros]:
  "answers c (process_cmd_setgpo line c)" "answers c (process_cmd_setled line c)"
  "answers c (process_cmd_getstatus c)" "answers c (process_cmd_getiddata c)"
  "answers c (process_cmd_eflash line c)" "answers c (process_cmd_gfile line c)"
  "answers c (process_cmd_gfiletype line c)" "answers c (process_cmd_glog line c)"
  "answers c (process_cmd_pfile line c)" "answers c (process_cmd_pfiletype line c)"
  "answers c (process_cmd_dfile line c)" "answers c (process_cmd_dfiletype line c)"
  "answers c (process_cmd_fwupl line c)" "answers c (process_cmd_blupl line c)"
  "answers c (one_number g line c)" "answers c (process_cmd_wait now line c)"
  "answers c (process_cmd_putlog line c)" "answers c (process_cmd_debugset line c)"
  unfolding process_cmd_setgpo_def process_cmd_setled_def process_cmd_getstatus_def
    process_cmd_getiddata_def process_cmd_eflash_def process_cmd_gfile_def process_cmd_gfiletype_def
    process_cmd_glog_def process_cmd_pfile_def process_cmd_pfiletype_def process_cmd_dfile_def
    process_cmd_dfiletype_def process_cmd_fwupl_def process_cmd_blupl_def one_number_def
    process_cmd_wait_def process_cmd_putlog_def process_cmd_debugset_def Let_def split_def
  by (auto intro!: answers_release answers_session_call keeps_pending_intros)

lemma answers_clocked [answer_intros]:
  "answers c (process_cmd_setrtc line c)" "answers c (process_cmd_rflash line c)"
  unfolding process_cmd_setrtc_def process_cmd_rflash_def Let_def split_def
  by (auto intro!: answers_release answers_session_call keeps_pending_intros)

lemma answers_wflash_file: "keeps_pending c d \<Longrightarrow> answers c (wflash_file addr len file d)"
  unfolding wflash_file_def Let_def
  by (auto intro!: answers_release answers_session_call keeps_pending_intros(2-) split: prod.split bool.split
    simp: split_def dest: arg_cong [where f = snd])

text \<open>The one command that is not answered though it should be: \<^verbatim>\<open>wflash\<close> without the memory
  for the data.\<close>

definition wflash_starved :: "string \<Rightarrow> cli \<Rightarrow> bool" where
  "wflash_starved line c =
     (let (n, vs) = sscanf line ''%*s%i,%zi,%s'' in n = 3 \<and> \<not> fst (wflash_malloc (number_arg vs 1 0) c))"

lemma keeps_wflash_malloc: "keeps_pending c (snd (wflash_malloc len c))"
  unfolding wflash_malloc_def using keeps_with_lib [of c "drbcc_malloc (nat len)"] by (simp add: split_def)

lemma fst_wflash_malloc: "fst (wflash_malloc len (stored_in n t c)) = fst (wflash_malloc len c)"
  by (simp add: wflash_malloc_def with_lib_def stored_in_def split_def Let_def)

lemma answers_wflash:
  assumes "\<not> wflash_starved line c"
  shows "answers c (process_cmd_wflash line c)"
proof -
  obtain n vs where v: "sscanf line ''%*s%i,%zi,%s'' = (n, vs)" by fastforce
  let ?c = "stored_in FILENAME_MAX (text_arg vs 2 []) c"
  obtain b d where d: "wflash_malloc (number_arg vs 1 0) ?c = (b, d)" by fastforce
  have k: "keeps_pending c d"
    using keeps_pending_trans [OF keeps_stored_in keeps_wflash_malloc] d by (metis snd_conv)
  have "n = 3 \<Longrightarrow> b" using assms d fst_wflash_malloc by (simp add: wflash_starved_def v del: One_nat_def) (metis fst_conv)
  then show ?thesis
    using answers_wflash_file [OF k] answers_release [OF keeps_stored_in]
    by (cases "n = 3") (simp_all add: process_cmd_wflash_def v d Let_def del: One_nat_def)
qed

lemma process_cmd_answers:
  assumes "command \<noteq> cmdid_exit" and "command = cmdid_wflash \<Longrightarrow> \<not> wflash_starved line c"
  shows "answers c (process_cmd command now line c)"
  using assms
  by (cases command) (simp_all add: answers_simple answers_clocked answers_wflash answers_release
    answers_session_call keeps_pending_intros)

text \<open>The two commands that do not answer leave the count alone.\<close>

lemma process_cmd_exit: "process_cmd cmdid_exit now line c = c\<lparr>running := False\<rparr>"
  by simp

lemma process_cmd_starved:
  assumes "wflash_starved line c"
  shows "keeps_pending c (process_cmd cmdid_wflash now line c)"
proof -
  obtain n vs where v: "sscanf line ''%*s%i,%zi,%s'' = (n, vs)" by fastforce
  let ?c = "stored_in FILENAME_MAX (text_arg vs 2 []) c"
  obtain b d where d: "wflash_malloc (number_arg vs 1 0) ?c = (b, d)" by fastforce
  have "keeps_pending c d"
    using keeps_pending_trans [OF keeps_stored_in keeps_wflash_malloc] d by (metis snd_conv)
  moreover have "n = 3" "\<not> b"
    using assms d fst_wflash_malloc by (simp_all add: wflash_starved_def v del: One_nat_def) (metis fst_conv)
  ultimately show ?thesis by (simp add: process_cmd_wflash_def v d Let_def del: One_nat_def)
qed

section \<open>Counted sessions\<close>

lemma fresh_stored_in: "fresh (stored_in n t c) = fresh c"
  by (simp add: stored_in_def fresh_fields)

lemmas backed_simps = fresh_stored_in fresh_fields fresh_flash_cbs fresh_calls backed_call backed_release
  opens_intros

lemma backed_simple:
  assumes "fresh c"
  shows "backed (process_cmd_setgpo line c)" "backed (process_cmd_setled line c)"
    "backed (process_cmd_getstatus c)" "backed (process_cmd_getiddata c)" "backed (process_cmd_setrtc line c)"
    "backed (process_cmd_rflash line c)" "backed (process_cmd_eflash line c)" "backed (process_cmd_gfile line c)"
    "backed (process_cmd_gfiletype line c)" "backed (process_cmd_glog line c)"
    "backed (process_cmd_pfile line c)" "backed (process_cmd_pfiletype line c)"
    "backed (process_cmd_dfile line c)" "backed (process_cmd_dfiletype line c)"
    "backed (process_cmd_fwupl line c)" "backed (process_cmd_blupl line c)"
    "(\<And>n. opens (g n)) \<Longrightarrow> backed (one_number g line c)" "backed (process_cmd_wait now line c)"
    "backed (process_cmd_putlog line c)" "backed (process_cmd_debugset line c)"
  using assms
  unfolding process_cmd_setgpo_def process_cmd_setled_def process_cmd_getstatus_def
    process_cmd_getiddata_def process_cmd_setrtc_def process_cmd_rflash_def process_cmd_eflash_def
    process_cmd_gfile_def process_cmd_gfiletype_def
    process_cmd_glog_def process_cmd_pfile_def process_cmd_pfiletype_def process_cmd_dfile_def
    process_cmd_dfiletype_def process_cmd_fwupl_def process_cmd_blupl_def one_number_def
    process_cmd_wait_def process_cmd_putlog_def process_cmd_debugset_def Let_def split_def
  by (simp_all add: backed_simps)

lemma backed_wflash_file:
  assumes "fresh c"
  shows "backed (wflash_file addr len file c)"
proof -
  obtain ok d where d: "with_lib (sys_open False False file) c = (ok, d)" by fastforce
  then have fd: "fresh d" using fresh_calls(3) [OF assms] by (metis snd_conv)
  obtain r e where e: "with_lib (sys_read (case fs (lib d) file of None \<Rightarrow> [] | Some x \<Rightarrow> x) 0 (nat len)) d = (r, e)"
    by fastforce
  then have "fresh e" using fresh_calls(4) [OF fd] by (metis snd_conv)
  then show ?thesis using fd by (cases ok) (simp_all add: wflash_file_def d e backed_simps)
qed

lemma backed_wflash:
  assumes "fresh c"
  shows "backed (process_cmd_wflash line c)"
proof -
  obtain n vs where v: "sscanf line ''%*s%i,%zi,%s'' = (n, vs)" by fastforce
  let ?c = "stored_in FILENAME_MAX (text_arg vs 2 []) c"
  obtain b d where d: "wflash_malloc (number_arg vs 1 0) ?c = (b, d)" by fastforce
  have "fresh d"
    using d assms fresh_calls(2) [of ?c "nat (number_arg vs 1 0)"]
    by (auto simp: wflash_malloc_def fresh_stored_in split_def split: if_splits)
  then show ?thesis
    using assms backed_wflash_file [of d] backed_idle [of d] backed_release [of ?c]
    by (cases b) (simp_all add: process_cmd_wflash_def v d fresh_stored_in Let_def del: One_nat_def)
qed

lemma process_cmd_backed: "fresh c \<Longrightarrow> backed (process_cmd command now line c)"
  by (cases command) (simp_all add: backed_simple backed_wflash backed_simps backed_idle)

section \<open>What a line does\<close>

lemma conversions_debugset: "conversions ''%*s%u,%s'' = [Skip_word, Decimal, Literal (CHR '',''), Word]"
  by (simp add: conversions.simps is_blank_def)

text \<open>Bytes as the user types them: two digits each.\<close>

definition hex_text :: "bytes \<Rightarrow> string" where
  "hex_text bs = concat (map hex2 bs)"

lemma hex_text_Cons: "hex_text (b # bs) = digit_char (unat b div 16) # digit_char (unat b mod 16) # hex_text bs"
  by (simp add: hex_text_def hex2_digits)

lemma length_hex_text [simp]: "length (hex_text bs) = 2 * length bs"
  by (induction bs) (simp_all add: hex_text_Cons, simp add: hex_text_def)

lemma hex_text_nth:
  "i < length bs \<Longrightarrow> hex_text bs ! (2 * i) = digit_char (unat (bs ! i) div 16) \<and>
     hex_text bs ! (2 * i + 1) = digit_char (unat (bs ! i) mod 16)"
proof (induction bs arbitrary: i)
  case (Cons b bs)
  then show ?case by (cases i) (simp_all add: hex_text_Cons)
qed simp

lemma hex_pairs_hex_text:
  assumes "length bs \<le> 256"
  shows "hex_pairs (hex_text bs) = bs"
proof (rule nth_equalityI)
  show "length (hex_pairs (hex_text bs)) = length bs" using assms by (simp add: hex_pairs_def)
  fix i assume "i < length (hex_pairs (hex_text bs))"
  then have i: "i < length bs" using assms by (simp add: hex_pairs_def)
  let ?b = "bs ! i"
  have "scan_hex2 (hex_text bs ! (2 * i)) (hex_text bs ! (2 * i + 1)) = int (unat ?b)"
    using hex_text_nth [OF i] by (intro scan_hex2_hex2) (simp add: hex2_digits)
  then show "hex_pairs (hex_text bs) ! i = bs ! i" using i assms by (simp add: hex_pairs_def)
qed

lemma hex_text_not_blank: "\<forall>c \<in> set (hex_text bs). \<not> is_blank c"
  by (induction bs) (simp_all add: hex_text_Cons digit_char_not_blank u8_div_16, simp add: hex_text_def)

lemma debugset_parses:
  assumes "\<forall>c \<in> set w. \<not> is_blank c" and "w \<noteq> []" and "data \<noteq> []" and "length data \<le> 256"
  shows "process_cmd_debugset (w @ '' '' @ show_int addr @ '','' @ hex_text data) c =
    session_call (drbcc_debug_set (word_of_int addr) (int (length data)) data) c"
proof -
  let ?r = "'' '' @ show_int addr @ '','' @ hex_text data"
  have "hex_text data \<noteq> []" using assms(3) by (cases data) (simp_all add: hex_text_Cons)
  then have "scan [Word] (hex_text data) = (False, [Text (hex_text data)])"
    using scan_word(2) [OF hex_text_not_blank, of data "[]" "[]"] by simp
  moreover have "scan [Decimal, Literal (CHR '',''), Word] ?r =
      (let (e, vs) = scan [Literal (CHR '',''), Word] ('','' @ hex_text data) in (e, Number addr # vs))"
    by (rule scan_show_int(1)) (simp_all add: ends_number_def is_blank_def digit_val_def tolower_def)
  ultimately have "scan [Decimal, Literal (CHR '',''), Word] ?r = (False, [Number addr, Text (hex_text data)])"
    by simp
  moreover have "scan (conversions ''%*s%u,%s'') (w @ ?r) = scan [Decimal, Literal (CHR '',''), Word] ?r"
    unfolding conversions_debugset by (rule scan_word(1) [OF assms(1,2)]) (simp add: is_blank_def)
  ultimately show ?thesis
    using assms(4) by (simp add: process_cmd_debugset_def sscanf_def arg_u32_def number_arg_def text_arg_def
      hex_pairs_hex_text stored_in_def)
qed

lemma debug_set_queues:
  assumes "CHECK_HANDLE s = None" and "session s = 0" and "heap s (mallocs s) \<noteq> None"
    and "length data \<le> 136"
  shows "\<exists>m h. drbcc_debug_set addr (int (length data)) data True s = (DRBCC_RC_NOERROR, h) \<and>
    events h = events s \<and> prioQueue h = prioQueue s @ [m] \<and>
    payload m = [cmd DRBCC_REQ_DEBUG_SET, byte_of 8 addr, byte_of 0 addr, of_nat (length data)] @ data"
proof -
  obtain block where b: "alloc_msg (s\<lparr>state := DRBCC_STATE_USER\<rparr>) =
      (Some block, s\<lparr>state := DRBCC_STATE_USER, mallocs := Suc (mallocs s)\<rparr>)"
    using assms(3) by (auto simp: alloc_msg_def drbcc_malloc_def)
  let ?bs = "[cmd DRBCC_REQ_DEBUG_SET, byte_of 8 addr, byte_of 0 addr, of_nat (length data)] @ data"
  let ?m = "new_msg (of_nat (length data) + 4) ?bs block"
  have "unat (of_nat (length data) + 4 :: u8) = length ?bs"
  proof -
    have "(of_nat (length data) + 4 :: u8) = of_nat (length data + 4)" by simp
    moreover have "unat (of_nat (length data + 4) :: u8) = length data + 4"
      unfolding unat_of_nat using assms(4) by simp
    ultimately show ?thesis by simp
  qed
  then have "payload ?m = ?bs" by (rule payload_new_msg)
  then show ?thesis
    using assms(1,2,4)
    by (intro exI [of _ ?m]) (simp add: drbcc_debug_set_def b fetch_def libdrbcc_add_msg_prio_def open_session_def)
qed

lemma session_call_quiet:
  assumes "f True (lib c) = (DRBCC_RC_NOERROR, h)" and "events h = events (lib c)"
  shows "session_call f c = (session_start c)\<lparr>lib := h\<rparr>"
  using assms by (simp add: session_call_def call_lib_def run_new_events_def session_start_def)

section \<open>Properties\<close>

text \<open>A tool that has just been handed a line, the library open and everything idle.\<close>

definition idle_lib :: DRBCC_t where
  "idle_lib = zero_handle\<lparr>libdrbcc_initialized := True, magic := 0xDAD1DADA, clock := (\<lambda>_. Timeval 1 0),
     cbs := (\<lambda>c. c = session_cb)\<rparr>"

definition idle_cli :: "string \<Rightarrow> cli" where
  "idle_cli line = \<lparr>lib = idle_lib, s_running = True, running = True, session_count = 0, line_valid = True,
     current_line = Some line, sema = fst (snd (drbcc_sema_create True True)), wait_time = Timeval 0 0,
     flashread_filename = [], readoffset = 0, tm_flashread_request = Timeval 0 0, raw = 0,
     pipe_ans = (\<lambda>_. Pipe_ok), pipe_ios = 0, conv16 = (\<lambda>_. 0), accel_text = (\<lambda>_ _ _. []),
     stack_junk = [0], msg_junk = [0], stdout = [], stderr = [], overrun = False\<rparr>"

lemma patient_ok: "patient (\<lambda>_. Pipe_ok)"
  by (auto simp: patient_def intro: exI [of _ 0])

lemma sound_idle_cli: "sema_sound (idle_cli line)"
  by (simp add: idle_cli_def sema_sound_def drbcc_sema_create_def sema_usable_def patient_ok)



text \<open>C31. The bytes typed after \<^verbatim>\<open>debugset A,\<close> are the bytes sent: for every address and any 1 to
  136 bytes, written as two hexadecimal digits each, the idle tool queues one message that
  holds the request, the address, the number of bytes and exactly these bytes, and counts one
  session.\<close>

theorem debugset_line_sent:
  assumes "\<forall>x \<in> set w. \<not> is_blank x" and "w \<noteq> []" and "data \<noteq> []" and "length data \<le> 136"
    and "CHECK_HANDLE (lib c) = None" and "session (lib c) = 0"
    and "heap (lib c) (mallocs (lib c)) \<noteq> None"
    and "c' = process_cmd cmdid_debugset now (w @ '' '' @ show_int addr @ '','' @ hex_text data) c"
  shows "\<exists>m. prioQueue (lib c') = prioQueue (lib c) @ [m] \<and>
    payload m = [cmd DRBCC_REQ_DEBUG_SET, byte_of 8 (word_of_int addr), byte_of 0 (word_of_int addr),
      of_nat (length data)] @ data \<and> session_count c' = session_count c + 1"
proof -
  obtain m h where h: "drbcc_debug_set (word_of_int addr) (int (length data)) data True (lib c) = (DRBCC_RC_NOERROR, h)"
    "events h = events (lib c)" "prioQueue h = prioQueue (lib c) @ [m]"
    "payload m = [cmd DRBCC_REQ_DEBUG_SET, byte_of 8 (word_of_int addr), byte_of 0 (word_of_int addr),
      of_nat (length data)] @ data"
    using debug_set_queues [OF assms(5-7,4)] by blast
  have "c' = (session_start c)\<lparr>lib := h\<rparr>"
    unfolding assms(8) using debugset_parses [OF assms(1-3)] assms(4) session_call_quiet [of "drbcc_debug_set (word_of_int addr) (int (length data)) data", OF h(1,2)] by simp
  then show ?thesis using h(3,4) by (simp add: session_start_def)
qed

theorem debugset_line_sent_witness:
  "\<exists>m. prioQueue (lib (process_cmd cmdid_debugset (Timeval 1 0)
      (''debugset'' @ '' '' @ show_int 13 @ '','' @ hex_text [5, 0, 0xFF]) (idle_cli []))) = [m] \<and>
    payload m = [cmd DRBCC_REQ_DEBUG_SET, byte_of 8 13, byte_of 0 13, 3, 5, 0, 0xFF]"
  using debugset_line_sent [of "''debugset''" "[5, 0, 0xFF]" "idle_cli []", OF _ _ _ _ _ _ _ refl,
    of "Timeval 1 0" 13]
  by (auto simp: is_blank_def idle_cli_def idle_lib_def zero_handle_def CHECK_HANDLE_def)

end
