(* ===== verification/Tool_Threads.thy ===== *)
theory Tool_Threads
  imports Tool_Commands
begin

text \<open>
  The two threads of the command line tool: the worker that drives the library and processes
  the lines (\<^verbatim>\<open>drbcc_thread_main\<close>), and the main thread that hands it the lines and waits
  for each to be answered (\<^verbatim>\<open>run_connection\<close>, \<^verbatim>\<open>execute_cmd_line\<close>). Their steps are
  interleaved in any order; the assignments of \<^verbatim>\<open>put_command\<close> are steps of their own, and
  memory is taken to be sequentially consistent. Signals are not among the steps. Before that,
  the options of the program and the setting up of the connection.
\<close>

section \<open>Options\<close>

datatype opts = opt_version | opt_cmd | opt_dev | opt_trace | opt_libtrace | opt_help

record options =
  s_cmd_line :: string
  s_dev :: string
  s_speed :: DRBCC_BR_t
  s_tracelevel :: u32
  libtracemask :: int
  cmd_line_open :: bool   \<comment> \<open>\<^verbatim>\<open>strncpy\<close> filled \<^verbatim>\<open>s_cmd_line\<close> without a terminating zero\<close>

definition default_options :: options where
  "default_options = \<lparr>s_cmd_line = [], s_dev = ''/dev/ttyS0'', s_speed = DRBCC_BR_921600,
     s_tracelevel = 0, libtracemask = 0, cmd_line_open = False\<rparr>"

text \<open>An option either ends the program, with the text it prints, or changes the settings.\<close>

fun main_option :: "string \<Rightarrow> opts \<times> string \<Rightarrow> options \<Rightarrow> string + options" where
  "main_option progname (opt_help, _) op = Inl (print_usage progname (s_speed op) True)"
| "main_option progname (opt_version, _) op = Inl (print_version progname)"
| "main_option progname (opt_cmd, optarg) op =
     Inr (op\<lparr>s_cmd_line := take 1024 optarg, cmd_line_open := (1024 \<le> length optarg)\<rparr>)"
| "main_option progname (opt_dev, optarg) op =
     (let vs = snd (sscanf optarg ''%[^,],%u''); s = uint (word_of_int (number_arg vs 1 0) :: u32)
      in Inr (op\<lparr>s_dev := text_arg vs 0 (s_dev op),
           s_speed := (if s = 115200 then DRBCC_BR_115200
                       else if s = 57600 then DRBCC_BR_57600
                       else if s = 921600 then DRBCC_BR_921600 else s_speed op)\<rparr>))"
| "main_option progname (opt_trace, optarg) op =
     Inr (op\<lparr>s_tracelevel := word_of_int (number_arg (snd (sscanf optarg ''%u'')) 0 0)\<rparr>)"
| "main_option progname (opt_libtrace, optarg) op =
     Inr (op\<lparr>libtracemask := number_arg (snd (sscanf optarg ''%li'')) 0 (libtracemask op)\<rparr>)"

fun main_options :: "string \<Rightarrow> (opts \<times> string) list \<Rightarrow> options \<Rightarrow> string + options" where
  "main_options progname [] op = Inr op"
| "main_options progname (a # as) op =
     (case main_option progname a op of Inl t \<Rightarrow> Inl t | Inr op' \<Rightarrow> main_options progname as op')"

section \<open>The connection\<close>

text \<open>The callbacks \<^verbatim>\<open>establish_connection\<close> registers, in its order.\<close>

definition tool_cbs :: "callback list" where
  "tool_cbs = [error_cb, session_cb, protocol_cb, id_cb, partitiontable_cb, rtc_cb, status_cb,
     accel_event_cb, flash_id_cb, progress_cb, getlog_cb, getpos_cb, debug_get_cb]"

text \<open>\<^verbatim>\<open>CHECKCALL\<close> keeps the first error.\<close>

definition checked :: "DRBCC_RC_t \<Rightarrow> DRBCC_RC_t \<Rightarrow> DRBCC_RC_t" where
  "checked rc r = (if rc = DRBCC_RC_NOERROR then r else rc)"

definition register_tool_cbs :: "DRBCC_RC_t \<times> DRBCC_t \<Rightarrow> DRBCC_RC_t \<times> DRBCC_t" where
  "register_tool_cbs p =
     fold (\<lambda>cb (rc, h). case register_cb cb True h of (r, h') \<Rightarrow> (checked rc r, h')) tool_cbs p"

text \<open>\<^verbatim>\<open>establish_connection\<close> up to the call of \<^verbatim>\<open>run_connection\<close>.\<close>

definition open_connection :: "cli \<Rightarrow> DRBCC_RC_t \<times> cli" where
  "open_connection c =
     (case drbcc_open (lib c) of
        (rc, h) \<Rightarrow>
          if rc \<noteq> DRBCC_RC_NOERROR then (rc, c\<lparr>lib := h\<rparr>)
          else (case register_tool_cbs (rc, h) of
                  (rc', h') \<Rightarrow> (rc', register_flash_cbs (c\<lparr>lib := h'\<rparr>))))"

text \<open>\<^verbatim>\<open>run_connection\<close> up to the creation of the worker; \<open>tty\<close> is the descriptor of the
  device, or a negative error. \<open>None\<close>: the semaphore could not be created and the function
  returned, without stopping the library.\<close>

definition run_connection_start :: "int \<Rightarrow> bool \<Rightarrow> bool \<Rightarrow> cli \<Rightarrow> DRBCC_RC_t \<times> cli option" where
  "run_connection_start tty malloc_ok pipe_ok c =
     (let c0 = c\<lparr>running := False, session_count := 0, line_valid := False, sema := None,
                 current_line := Some []\<rparr>
      in case call_lib (drbcc_start tty) c0 of
           (rc, c1) \<Rightarrow>
             if rc \<noteq> DRBCC_RC_NOERROR then (rc, Some (snd (call_lib drbcc_stop c1)))
             else (case drbcc_sema_create malloc_ok pipe_ok of
                     (r, s, bad) \<Rightarrow>
                       if r \<noteq> 1 then (DRBCC_RC_NOERROR, None)
                       else (rc, Some (c1\<lparr>sema := s, s_running := True, running := True,
                              overrun := (overrun c1 \<or> bad)\<rparr>))))"

text \<open>The end: the semaphore is destroyed and the library stopped.\<close>

definition run_connection_end :: "cli \<Rightarrow> DRBCC_RC_t \<times> cli" where
  "run_connection_end c = call_lib drbcc_stop (c\<lparr>sema := snd (drbcc_sema_destroy (sema c))\<rparr>)"

section \<open>The threads\<close>

text \<open>\<^verbatim>\<open>put_command\<close> in its two assignments.\<close>

definition put_line :: "string \<Rightarrow> cli \<Rightarrow> cli" where
  "put_line line c = c\<lparr>current_line := Some line\<rparr>"

definition put_valid :: "cli \<Rightarrow> cli" where
  "put_valid c = c\<lparr>line_valid := True\<rparr>"

text \<open>What \<^verbatim>\<open>execute_cmd_line\<close> does when its wait returns.\<close>

definition wait_returns :: "cli \<Rightarrow> cli option" where
  "wait_returns c =
     map_option (\<lambda>(r, n, s). c\<lparr>pipe_ios := n, sema := s, s_running := (s_running c \<and> 0 \<le> r)\<rparr>)
       (drbcc_sema_wait (pipe_ans c) (pipe_ios c) (sema c))"

text \<open>The main thread leaves its loop at the end of its input, after the one command of
  \<^verbatim>\<open>--cmd\<close>, or because \<^verbatim>\<open>s_running\<close> is no longer set; that is the step \<open>leave\<close> below.
  One turn of the loop of \<^verbatim>\<open>drbcc_thread_main\<close>, and what follows the loop.\<close>

definition thread_body :: "cli \<Rightarrow> cli option" where
  "thread_body c =
     map_option (\<lambda>(rc, h). let c1 = run_new_events h c
                           in if session_active c1 = 0 then process_input c1 else c1)
       (drbcc_trigger 1000 (lib c))"

definition thread_end :: "cli \<Rightarrow> cli" where
  "thread_end c = sema_release (c\<lparr>s_running := False\<rparr>)"

datatype main_pc = Prompt | Put string | Waiting | Joining | Ended
datatype worker_pc = Looping | Finished

type_synonym tool_state = "main_pc \<times> worker_pc \<times> cli"

inductive tool_step :: "tool_state \<Rightarrow> tool_state \<Rightarrow> bool" where
  turn: "running c \<or> session_active c \<noteq> 0 \<Longrightarrow> thread_body c = Some c' \<Longrightarrow>
    tool_step (m, Looping, c) (m, Looping, c')"
| finish: "\<not> running c \<Longrightarrow> session_active c = 0 \<Longrightarrow>
    tool_step (m, Looping, c) (m, Finished, thread_end c)"
| read_line: "s_running c \<Longrightarrow> line \<noteq> [] \<Longrightarrow> tool_step (Prompt, w, c) (Put line, w, put_line line c)"
| valid: "tool_step (Put line, w, c) (Waiting, w, put_valid c)"
| awake: "wait_returns c = Some c' \<Longrightarrow> tool_step (Waiting, w, c) (Prompt, w, c')"
| leave: "tool_step (Prompt, w, c) (Joining, w, c\<lparr>s_running := False, current_line := None\<rparr>)"
| join: "tool_step (Joining, Finished, c) (Ended, Finished, snd (run_connection_end c))"
| arrive: "tool_step (m, w, c) (m, w, c\<lparr>lib := (lib c)\<lparr>rx := rx (lib c) @ bs\<rparr>\<rparr>)"

inductive_cases tool_stepE: "tool_step s t"

inductive tool_reach :: "cli \<Rightarrow> tool_state \<Rightarrow> bool" for c0 where
  start: "tool_reach c0 (Prompt, Looping, c0)"
| step: "tool_reach c0 s \<Longrightarrow> tool_step s t \<Longrightarrow> tool_reach c0 t"

section \<open>What a line can do\<close>

text \<open>What processing the input does to the fields the threads share, the worker having no
  session open.\<close>

lemma process_input_effect:
  assumes "sema_sound c" and "session_count c = 0" and "d = process_input c"
  shows "sema_sound d \<and> session_count d \<le> 1 \<and>
    (pending d = pending c \<and> (control d = control c \<or>
        current_line c = None \<and> control d = (s_running c, False, line_valid c, None) \<or>
        line_valid c \<and> (\<exists>r. control d = (s_running c, r, False, current_line c))) \<or>
     line_valid c \<and> current_line c \<noteq> None \<and> pending d = Suc (pending c) \<and>
       control d = (s_running c, running c, False, current_line c))"
proof -
  let ?now = "clock (lib c) (ticks (lib c))"
  define c1 where "c1 = c\<lparr>lib := (lib c)\<lparr>ticks := Suc (ticks (lib c))\<rparr>\<rparr>"
  have c1: "sema_sound c1" "session_count c1 = 0" "pending c1 = pending c" "control c1 = control c"
    "current_line c1 = current_line c" "line_valid c1 = line_valid c" "wait_time c1 = wait_time c"
    using assms by (simp_all add: c1_def sema_sound_def pending_def control_def)
  have d: "d = (if wait_time c < ?now
      then (case get_command c1 of (r, line, command, c2) \<Rightarrow> if 1 \<le> r then process_cmd command ?now line c2 else c2)
      else c1)"
    by (simp add: assms(3) process_input_def with_lib_def drbcc_gettimeofday_def c1_def)
  consider (early) "d = c1" | (stop) "current_line c = None" "d = c1\<lparr>running := False\<rparr>"
    | (line) line where "current_line c = Some line" "line_valid c"
        "d = process_cmd (find_command s_cmds line) ?now line (c1\<lparr>line_valid := False\<rparr>)"
    using d c1 by (auto simp: get_command_def split: if_splits option.splits)
  then show ?thesis
  proof cases
    case early
    then show ?thesis using c1 by simp
  next
    case stop
    then show ?thesis using c1 by (simp add: sema_sound_def pending_def control_def)
  next
    case line
    let ?c = "c1\<lparr>line_valid := False\<rparr>"
    have l: "sema_sound ?c" "session_count ?c = 0" "pending ?c = pending c"
      "control ?c = (s_running c, running c, False, current_line c)"
      using c1 by (simp_all add: sema_sound_def pending_def control_def)
    show ?thesis
    proof (cases "find_command s_cmds line = cmdid_exit")
      case True
      then have "d = ?c\<lparr>running := False\<rparr>" using line(3) by simp
      then show ?thesis using l line(2) by (auto simp: sema_sound_def pending_def control_def)
    next
      case False
      show ?thesis
      proof (cases "find_command s_cmds line = cmdid_wflash \<and> wflash_starved line ?c")
        case True
        then have "keeps_pending ?c d" using line(3) process_cmd_starved by simp
        then show ?thesis using l line(2) by (auto simp: keeps_pending_def)
      next
        case nonstarved: False
        then have "answers ?c d" using line(3) False process_cmd_answers [of _ line ?c] by blast
        then show ?thesis using l line(1,2) by (auto simp: answers_def)
      qed
    qed
  qed
qed

lemma thread_body_effect:
  assumes "sema_sound c" and "thread_body c = Some d" and "session_count c \<le> 1"
  shows "sema_sound d \<and> session_count d \<le> 1 \<and>
    (pending d = pending c \<and> (control d = control c \<or>
        current_line c = None \<and> control d = (s_running c, False, line_valid c, None) \<or>
        line_valid c \<and> (\<exists>r. control d = (s_running c, r, False, current_line c))) \<or>
     line_valid c \<and> current_line c \<noteq> None \<and> pending d = Suc (pending c) \<and>
       control d = (s_running c, running c, False, current_line c))"
proof -
  obtain rc h where h: "drbcc_trigger 1000 (lib c) = Some (rc, h)"
    "d = (let c1 = run_new_events h c in if session_active c1 = 0 then process_input c1 else c1)"
    using assms(2) by (auto simp: thread_body_def)
  let ?c = "run_new_events h c"
  have "keeps_pending c ?c" using keeps_call_lib [of c "\<lambda>_. ((), h)"] by (simp add: call_lib_def)
  then have k: "sema_sound ?c" "pending ?c = pending c" "session_count ?c \<le> session_count c" "control ?c = control c"
    using assms(1) by (simp_all add: keeps_pending_def)
  show ?thesis
  proof (cases "session_count ?c = 0")
    case True
    then have "d = process_input ?c" using h(2) by (simp add: session_active_def Let_def)
    from process_input_effect [OF k(1) True this] show ?thesis using k(2,4) by (auto simp: control_def)
  next
    case False
    then have "d = ?c" using h(2) by (simp add: session_active_def Let_def)
    then show ?thesis using k assms(3) by auto
  qed
qed

section \<open>The invariant of the two threads\<close>

text \<open>How many answers are under way, and what the worker will find, at each point of the main
  thread.\<close>

fun tool_inv :: "tool_state \<Rightarrow> bool" where
  "tool_inv (Prompt, Looping, c) \<longleftrightarrow> sema_sound c \<and> pending c = 0 \<and> \<not> line_valid c \<and> current_line c \<noteq> None \<and> running c"
| "tool_inv (Put line, Looping, c) \<longleftrightarrow> sema_sound c \<and> pending c = 0 \<and> \<not> line_valid c \<and> current_line c \<noteq> None \<and> running c"
| "tool_inv (Waiting, Looping, c) \<longleftrightarrow> sema_sound c \<and> session_count c \<le> 1 \<and> current_line c \<noteq> None \<and>
     pending c \<le> 1 \<and> (line_valid c \<or> \<not> running c \<longrightarrow> pending c = 0) \<and> (\<not> running c \<longrightarrow> \<not> line_valid c)"
| "tool_inv (Joining, Looping, c) \<longleftrightarrow> sema_sound c \<and> pending c = 0 \<and> \<not> line_valid c \<and> current_line c = None"
| "tool_inv (Prompt, Finished, c) \<longleftrightarrow> sema_sound c \<and> \<not> s_running c \<and> \<not> line_valid c \<and> pending c = 0"
| "tool_inv (Put line, Finished, c) \<longleftrightarrow> False"
| "tool_inv (Waiting, Finished, c) \<longleftrightarrow> sema_sound c \<and> \<not> s_running c \<and> \<not> line_valid c \<and> pending c = 1 \<and> session_count c = 0"
| "tool_inv (Joining, Finished, c) \<longleftrightarrow> sema_sound c \<and> \<not> line_valid c \<and> pending c \<le> 1 \<and> session_count c = 0"
| "tool_inv (Ended, w, c) \<longleftrightarrow> w = Finished \<and> session_count c = 0"

lemma pending_zero: "pending c = 0 \<longleftrightarrow> session_count c = 0 \<and> sema_level (sema c) = 0"
  by (simp add: pending_def unat_eq_zero)

lemma count_le_pending: "pending c = 0 \<Longrightarrow> session_count c \<le> 1"
  by (simp add: pending_zero)

lemma inv_turn:
  assumes "tool_inv (m, Looping, c)" and "thread_body c = Some d"
  shows "tool_inv (m, Looping, d)"
proof -
  have "sema_sound c" "session_count c \<le> 1" using assms(1) by (cases m; simp add: pending_zero)+
  note e = thread_body_effect [OF this(1) assms(2) this(2)]
  show ?thesis
    using assms(1) e by (cases m) (auto simp: control_def)
qed

lemma thread_end_effect:
  assumes "sema_sound c"
  shows "sema_sound (thread_end c) \<and> session_count (thread_end c) = session_count c \<and>
    pending (thread_end c) = Suc (pending c) \<and> control (thread_end c) = (False, running c, line_valid c, current_line c)"
proof -
  let ?c = "c\<lparr>s_running := False\<rparr>"
  have "sema_sound ?c" using assms by (simp add: sema_sound_def)
  from sema_release_sound [OF this] show ?thesis by (simp add: thread_end_def pending_def control_def)
qed

lemma inv_finish:
  assumes "tool_inv (m, Looping, c)" and "\<not> running c" and "session_active c = 0"
  shows "tool_inv (m, Finished, thread_end c)"
proof -
  have "sema_sound c" using assms by (cases m) auto
  note e = thread_end_effect [OF this]
  show ?thesis using assms e by (cases m) (auto simp: control_def session_active_def)
qed

lemma wait_returns_effect:
  assumes "sema_sound c" and "wait_returns c = Some d"
  shows "sema_sound d \<and> session_count d = session_count c \<and> Suc (pending d) = pending c \<and> control d = control c"
proof -
  obtain n s where c: "pipe_ios c = n" "sema c = Some s" "writefd_open s" "patient (pipe_ans c)"
    using assms(1) by (auto simp: sema_sound_def sema_usable_def split: option.splits)
  obtain k where k: "k < 1000" "pipe_ans c (n + k) = Pipe_ok" "\<forall>i < k. pipe_ans c (n + i) = Pipe_EINTR"
    using patientE [OF c(4)] by blast
  have "0 < pipe_bytes s" "d = c\<lparr>pipe_ios := Suc (n + k), sema := Some (s\<lparr>pipe_bytes := pipe_bytes s - 1\<rparr>)\<rparr>"
    using assms(2) c k
    by (auto simp: wait_returns_def drbcc_sema_wait_def wait_loop_retries [of "pipe_ans c" n k] split: if_splits)
  then show ?thesis using c by (simp add: sema_sound_def sema_usable_def pending_def sema_level_def control_def)
qed

lemma inv_awake:
  assumes "tool_inv (Waiting, w, c)" and "wait_returns c = Some d"
  shows "tool_inv (Prompt, w, d)"
proof -
  have "sema_sound c" using assms by (cases w) auto
  note e = wait_returns_effect [OF this assms(2)]
  show ?thesis using assms(1) e by (cases w) (auto simp: control_def)
qed

lemma call_lib_no_events:
  "f (lib c) = (r, h) \<Longrightarrow> events h = events (lib c) \<Longrightarrow> call_lib f c = (r, c\<lparr>lib := h\<rparr>)"
  by (simp add: call_lib_def run_new_events_def)

lemma events_stop: "events (snd (drbcc_stop h)) = events h"
  by (simp add: drbcc_stop_def split: option.split)

lemma events_start: "events (snd (drbcc_start tty h)) = events h"
proof -
  have "events (snd (drbcc_sync False s)) = events s" for s
    by (auto simp: drbcc_sync_def prio_request_def alloc_msg_def drbcc_malloc_def open_session_def
      libdrbcc_add_msg_prio_def split: option.split prod.split)
  then show ?thesis by (simp add: drbcc_start_def split: option.split)
qed

lemma connection_end_count: "session_count (snd (run_connection_end c)) = session_count c"
proof -
  let ?c = "c\<lparr>sema := snd (drbcc_sema_destroy (sema c))\<rparr>"
  obtain r h where h: "drbcc_stop (lib ?c) = (r, h)" by fastforce
  then have "events h = events (lib ?c)" using events_stop [of "lib ?c"] by simp
  from call_lib_no_events [of drbcc_stop, OF h this] show ?thesis by (simp add: run_connection_end_def)
qed

lemma connection_start_inv:
  assumes "run_connection_start tty True True c = (DRBCC_RC_NOERROR, Some c0)" and "patient (pipe_ans c)"
  shows "tool_inv (Prompt, Looping, c0)"
proof -
  let ?c = "c\<lparr>running := False, session_count := 0, line_valid := False, sema := None, current_line := Some []\<rparr>"
  obtain r h where h: "drbcc_start tty (lib ?c) = (r, h)" by fastforce
  then have "events h = events (lib ?c)" using events_start [of tty "lib ?c"] by simp
  from call_lib_no_events [of "drbcc_start tty", OF h this] have
    "c0 = (?c\<lparr>lib := h\<rparr>)\<lparr>sema := fst (snd (drbcc_sema_create True True)), s_running := True, running := True,
       overrun := overrun c\<rparr>"
    using assms(1) by (auto simp: run_connection_start_def drbcc_sema_create_def split: if_splits)
  then show ?thesis
    using assms(2) by (simp add: sema_sound_def sema_usable_def pending_def sema_level_def drbcc_sema_create_def)
qed

lemma inv_arrive: "tool_inv (m, w, c) \<Longrightarrow> tool_inv (m, w, c\<lparr>lib := h\<rparr>)"
  by (cases m; cases w) (auto simp: sema_sound_def pending_def)

lemma inv_step:
  assumes "tool_step s t" and "tool_inv s"
  shows "tool_inv t"
  using assms
proof (cases rule: tool_step.cases)
  case (turn c c' m)
  then show ?thesis using assms(2) inv_turn by blast
next
  case (finish c m)
  then show ?thesis using assms(2) inv_finish by blast
next
  case (read_line c line w)
  then show ?thesis using assms(2) by (cases w) (auto simp: put_line_def sema_sound_def pending_def)
next
  case (valid line w c)
  then show ?thesis using assms(2) by (cases w) (auto simp: put_valid_def sema_sound_def pending_def unat_eq_zero)
next
  case (awake c c' w)
  then show ?thesis using assms(2) inv_awake by blast
next
  case (leave w c)
  then show ?thesis using assms(2) by (cases w) (auto simp: sema_sound_def pending_def unat_eq_zero)
next
  case (join c)
  then show ?thesis using assms(2) by (simp add: connection_end_count)
next
  case (arrive m w c bs)
  then show ?thesis using assms(2) inv_arrive by blast
qed

lemma reach_inv:
  assumes "tool_reach c0 s" and "run_connection_start tty True True c = (DRBCC_RC_NOERROR, Some c0)"
    and "patient (pipe_ans c)"
  shows "tool_inv s"
  using assms(1)
proof induction
  case start
  show ?case by (rule connection_start_inv [OF assms(2,3)])
next
  case (step s t)
  then show ?case using inv_step by blast
qed

section \<open>Properties\<close>

text \<open>C18. In every state the two threads of the tool can reach, in any interleaving and with
  whatever the device sends, the shared state is well formed: at most one session is counted,
  at most one answer for the main thread is in the pipe or under way, the semaphore is there
  until the end, and the end is only reached after the worker has finished.\<close>

theorem thread_states_wf:
  assumes "tool_reach c0 (m, w, d)" and "run_connection_start tty True True c = (DRBCC_RC_NOERROR, Some c0)"
    and "patient (pipe_ans c)"
  shows "session_count d \<le> 1 \<and> (m = Ended \<longrightarrow> w = Finished) \<and>
    (m \<noteq> Ended \<longrightarrow> unat (session_count d) + sema_level (sema d) \<le> 1 \<and> sema_usable (sema d))"
  using reach_inv [OF assms] unfolding pending_def [symmetric]
  by (cases m; cases w) (auto simp: sema_sound_def count_le_pending)

lemma idle_connection:
  "\<exists>c0. run_connection_start 3 True True (idle_cli []) = (DRBCC_RC_NOERROR, Some c0) \<and> s_running c0"
  by (simp add: run_connection_start_def call_lib_def run_new_events_def drbcc_start_def drbcc_sync_def
    prio_request_def alloc_msg_def drbcc_malloc_def libdrbcc_add_msg_prio_def open_session_def
    idle_cli_def idle_lib_def zero_handle_def CHECK_HANDLE_def drbcc_sema_create_def)

theorem thread_states_wf_witness:
  "\<exists>c0 d. tool_reach c0 (Waiting, Looping, d) \<and> session_count d \<le> 1 \<and> sema_usable (sema d)"
proof -
  obtain c0 where c0: "run_connection_start 3 True True (idle_cli []) = (DRBCC_RC_NOERROR, Some c0)" "s_running c0"
    using idle_connection by blast
  have "tool_reach c0 (Put ''sync'', Looping, put_line ''sync'' c0)"
    using c0(2) by (intro tool_reach.step [OF tool_reach.start] tool_step.read_line) simp_all
  then have r: "tool_reach c0 (Waiting, Looping, put_valid (put_line ''sync'' c0))"
    by (rule tool_reach.step) (rule tool_step.valid)
  from thread_states_wf [OF r c0(1)] show ?thesis using r by (auto simp: idle_cli_def patient_ok)
qed

text \<open>C10. The prompt does not return before the command is done: whenever the main thread is back
  at its prompt, no session is open, the line it handed over has been taken, and the semaphore
  is empty, so that the next wait cannot be satisfied by an answer to an earlier command.\<close>

theorem prompt_after_command:
  assumes "tool_reach c0 (Prompt, w, d)" and "run_connection_start tty True True c = (DRBCC_RC_NOERROR, Some c0)"
    and "patient (pipe_ans c)"
  shows "session_count d = 0 \<and> \<not> line_valid d \<and> sema_level (sema d) = 0"
  using reach_inv [OF assms] by (cases w) (auto simp: pending_zero)

theorem prompt_after_command_witness:
  "\<exists>c0 d. tool_reach c0 (Prompt, Looping, d) \<and> session_count d = 0 \<and> \<not> line_valid d \<and> sema_level (sema d) = 0"
proof -
  obtain c0 where c0: "run_connection_start 3 True True (idle_cli []) = (DRBCC_RC_NOERROR, Some c0)"
    using idle_connection by blast
  have r: "tool_reach c0 (Prompt, Looping, c0\<lparr>lib := (lib c0)\<lparr>rx := rx (lib c0) @ [[0xFA]]\<rparr>\<rparr>)"
    (is "tool_reach _ (_, _, ?d)")
    by (intro tool_reach.step [OF tool_reach.start] tool_step.arrive)
  have "patient (pipe_ans (idle_cli []))" by (simp add: idle_cli_def patient_ok)
  from prompt_after_command [OF r c0 this] r show ?thesis by blast
qed

end
