(* ===== verification/Tty_Lock.thy ===== *)
theory Tty_Lock
  imports Callback_Text
begin

text \<open>
  Opening the serial device (\<^verbatim>\<open>libdrbcc_open_tty\<close>, in \<^verbatim>\<open>drbcc_ll.c\<close> for the library
  and almost the same in \<^verbatim>\<open>dvmon.c\<close>): the name of the lock file, the loop that takes the
  lock from nobody who is alive, and the giving back of the lock when the device cannot be
  set up. The variant without \<^verbatim>\<open>liblockdev\<close> is modelled.
\<close>

section \<open>The name of the lock\<close>

text \<open>The device behind a symbolic link, in an array of the length of the link's name plus one;
  a target that fills it is cut, and its end is marked one place behind the array (second
  component).\<close>

definition real_device :: "string \<Rightarrow> string option \<Rightarrow> string \<times> bool" where
  "real_device dev link =
     (case link of
        None \<Rightarrow> (dev, False)
      | Some target \<Rightarrow> (take (length dev + 1) target, length dev + 1 \<le> length target))"

definition after_last :: "char \<Rightarrow> string \<Rightarrow> string" where
  "after_last c s = rev (takeWhile (\<lambda>x. x \<noteq> c) (rev s))"

definition base_name :: "string \<Rightarrow> string" where
  "base_name s =
     take 255 (if CHR ''/'' \<in> set s then after_last (CHR ''/'') s else after_last (CHR 0x5C) s)"

definition lock_name :: "nat \<Rightarrow> string \<Rightarrow> string option \<Rightarrow> string" where
  "lock_name llen dev link = take (llen - 1) (''/var/lock/LCK..'' @ base_name (fst (real_device dev link)))"

section \<open>Taking the lock\<close>

text \<open>
  The world around the loop, by the number of the turn: the time, which processes are alive,
  what others do to the lock file while the loop sleeps, and which of its own calls fail. The
  lock file itself is an option of its contents. That others change it between the look at the
  process and the removal is left out.
\<close>

record lock_world =
  now_at :: "nat \<Rightarrow> int"
  alive :: "nat \<Rightarrow> int \<Rightarrow> bool"
  others :: "nat \<Rightarrow> string option \<Rightarrow> string option"
  create_fails :: "nat \<Rightarrow> bool"
  open_fails :: "nat \<Rightarrow> bool"
  read_fails :: "nat \<Rightarrow> bool"
  getpid :: int

text \<open>\<^verbatim>\<open>atoi\<close> of what was read.\<close>

definition atoi :: "string \<Rightarrow> int" where
  "atoi s = (case scan_number False (dropWhile is_blank s) of None \<Rightarrow> 0 | Some (i, _) \<Rightarrow> i)"

text \<open>The lock file after a turn that did not get the lock.\<close>

definition lock_turn :: "lock_world \<Rightarrow> nat \<Rightarrow> string option \<Rightarrow> string option" where
  "lock_turn w n lock =
     (let l = others w n lock
      in case l of
           None \<Rightarrow> None
         | Some text \<Rightarrow>
             if open_fails w n \<or> read_fails w n \<or> alive w n (atoi (take 20 text)) then l
             else None)"

text \<open>Whether the lock was taken, the lock file and the turn. Time is read before each turn;
  \<open>None\<close> as a result means that the loop does not end.\<close>

partial_function (option) lock_loop ::
  "lock_world \<Rightarrow> int \<Rightarrow> nat \<Rightarrow> string option \<Rightarrow> (bool \<times> string option \<times> nat) option" where
  "lock_loop w stamp n lock =
     (if stamp + 2 < now_at w n then Some (False, lock, n)
      else if lock = None \<and> \<not> create_fails w n then Some (True, Some [], n)
      else lock_loop w stamp (Suc n) (lock_turn w n lock))"

definition pid_text :: "int \<Rightarrow> string" where
  "pid_text pid = pad_left 10 (show_int pid) @ newline"

section \<open>Opening\<close>

text \<open>How the calls after the lock was taken end: the write of the lock file, the opening of the
  device, and the three calls that set it up.\<close>

datatype tty_outcome = Write_fails | Open_fails | Getattr_fails | Speed_fails | Setattr_fails | Tty_ok int

text \<open>The descriptor, or the error code \<open>locked\<close> or \<open>failed\<close>, and the lock file afterwards. When
  the lock file cannot be written it stays.\<close>

definition open_tty :: "int \<Rightarrow> int \<Rightarrow> lock_world \<Rightarrow> tty_outcome \<Rightarrow> string option \<Rightarrow> (int \<times> string option) option" where
  "open_tty locked failed w outcome lock =
     map_option (\<lambda>(got, l, n).
         if \<not> got then (locked, l)
         else (case outcome of
                 Write_fails \<Rightarrow> (failed, l)
               | Tty_ok d \<Rightarrow> (d, Some (pid_text (getpid w)))
               | _ \<Rightarrow> (failed, None)))
       (lock_loop w (now_at w 0) 1 lock)"

text \<open>\<^verbatim>\<open>drbcc_ll.c\<close> returns the negated codes \<^verbatim>\<open>DRBCC_RC_DEVICE_LOCKED\<close> and
  \<^verbatim>\<open>DRBCC_RC_SYSTEM_ERROR\<close> of its enumeration; \<^verbatim>\<open>dvmon.c\<close> returns \<open>-1\<close> and \<open>-2\<close>.\<close>

definition libdrbcc_open_tty :: "lock_world \<Rightarrow> tty_outcome \<Rightarrow> string option \<Rightarrow> (int \<times> string option) option" where
  "libdrbcc_open_tty = open_tty (-9) (-1)"

definition dvmon_open_tty :: "lock_world \<Rightarrow> tty_outcome \<Rightarrow> string option \<Rightarrow> (int \<times> string option) option" where
  "dvmon_open_tty = open_tty (-1) (-2)"

section \<open>Who holds the lock\<close>

lemma dropWhile_pad_left:
  "c = hd s \<Longrightarrow> s \<noteq> [] \<Longrightarrow> \<not> is_blank c \<Longrightarrow> dropWhile is_blank (pad_left k s @ r) = s @ r"
  unfolding pad_left_def append_assoc
  by (subst dropWhile_append2) (auto simp: is_blank_def neq_Nil_conv)

lemma atoi_pid_text:
  assumes "0 \<le> pid" and "pid < 2 ^ 31"
  shows "atoi (take 20 (pid_text pid)) = pid"
proof -
  have "nat pid < 10 ^ Suc 9" using assms by simp
  then have "length (show_int pid) \<le> 10"
    using length_digits [of 10 "nat pid" 9] assms(1) by (simp add: show_int_def show_nat_def)
  then have "take 20 (pid_text pid) = pid_text pid" by (simp add: pid_text_def pad_left_def)
  moreover obtain c t where c: "show_int pid = c # t" "\<not> is_blank c" using show_int_not_blank by blast
  then have "dropWhile is_blank (pid_text pid) = show_int pid @ newline"
    unfolding pid_text_def using dropWhile_pad_left [of c "show_int pid" 10 newline] by simp
  moreover have "scan_number False (show_int pid @ newline) = Some (pid, newline)"
    by (rule scan_number_show_int) (simp add: ends_number_def digit_val_def tolower_def)
  ultimately show ?thesis by (simp add: atoi_def)
qed

lemma lock_loop_kept:
  assumes "\<And>i. lock_turn w i (Some text) = Some text" and "stamp + 2 < now_at w (n + k)"
  shows "\<exists>m. lock_loop w stamp n (Some text) = Some (False, Some text, m)"
  using assms(2)
proof (induction k arbitrary: n)
  case 0
  then show ?case by (simp add: lock_loop.simps)
next
  case (Suc k)
  show ?case
  proof (cases "stamp + 2 < now_at w n")
    case False
    then have "lock_loop w stamp n (Some text) = lock_loop w stamp (Suc n) (Some text)"
      by (subst lock_loop.simps) (simp add: assms(1))
    then show ?thesis using Suc.IH [of "Suc n"] Suc.prems by simp
  qed (simp add: lock_loop.simps)
qed

lemma lock_respected:
  assumes "\<forall>n. alive w n (atoi (take 20 text))" and "\<forall>n. others w n (Some text) = Some text"
    and "now_at w 0 + 2 < now_at w (Suc k)"
  shows "open_tty locked failed w outcome (Some text) = Some (locked, Some text)"
proof -
  have "lock_turn w i (Some text) = Some text" for i
    using assms(1,2) by (simp add: lock_turn_def)
  then obtain m where "lock_loop w (now_at w 0) 1 (Some text) = Some (False, Some text, m)"
    using lock_loop_kept [of w "text" "now_at w 0" 1 k] assms(3) by auto
  then show ?thesis by (simp add: open_tty_def)
qed

section \<open>Properties\<close>


abbreviation quiet_world :: "int \<Rightarrow> lock_world" where
  "quiet_world pid \<equiv> \<lparr>now_at = (\<lambda>n. int n), alive = (\<lambda>_ _. True), others = (\<lambda>_ l. l),
     create_fails = (\<lambda>_. False), open_fails = (\<lambda>_. False), read_fails = (\<lambda>_. False), getpid = pid\<rparr>"


end
