(* ===== verification/Dvmon.thy ===== *)
theory Dvmon
  imports Tty_Lock
begin

text \<open>
  The board controller light (\<^verbatim>\<open>dvmon.c\<close>): a text protocol on the serial line with the
  commands \<^verbatim>\<open>proto\<close>, \<^verbatim>\<open>heartbeat\<close>, \<^verbatim>\<open>shutdown\<close>, \<^verbatim>\<open>waitpoweroff\<close>,
  \<^verbatim>\<open>getrtc\<close>, \<^verbatim>\<open>pfiletype\<close>, \<^verbatim>\<open>gfiletype\<close> and \<^verbatim>\<open>fwupload\<close>. The checksum of a
  firmware image detects every change of one byte, and an upload is only reported successful
  when the lines sent hold the image and the device has confirmed its checksum.
\<close>

section \<open>The checksum\<close>

definition crc16_step :: "u32 \<Rightarrow> u32" where
  "crc16_step x = (if bit x 0 then drop_bit 1 x XOR 0xA001 else drop_bit 1 x)"

definition crc16_update :: "u32 \<Rightarrow> u8 \<Rightarrow> u32" where
  "crc16_update x a = (crc16_step ^^ 8) (x XOR ucast a)"

abbreviation FIRMWARE_SECTION_SIZE :: nat where "FIRMWARE_SECTION_SIZE \<equiv> 16384"

text \<open>The image is copied to the front of a section of \<open>0xff\<close>.\<close>

definition calcCRC16 :: "bytes \<Rightarrow> u32" where
  "calcCRC16 f = foldl crc16_update 0 (overwrite f (replicate FIRMWARE_SECTION_SIZE 0xFF))"

section \<open>The line\<close>

text \<open>
  \<open>dv_rx\<close>: what successive reads find, \<^const>\<open>None\<close> for a failing one; a read that finds nothing
  returns zero. \<open>dv_tx\<close>: what each write put on the line. \<open>dv_plan\<close>, \<open>dv_ios\<close>: which calls are
  cut short. \<open>char_signed\<close>: whether \<^verbatim>\<open>char\<close> is signed, which C leaves open. \<open>dv_junk\<close>: what
  uninitialised local arrays hold. \<open>dv_bad\<close> is set by an access outside of an array.
\<close>

record dv =
  dv_rx :: "bytes option list"
  dv_tx :: "bytes list"
  dv_fs :: "string \<Rightarrow> bytes option"
  dv_out :: string
  dv_plan :: "nat \<Rightarrow> int option"
  dv_ios :: nat
  char_signed :: bool
  dv_junk :: bytes
  dv_bad :: bool

definition dv_call :: "nat \<Rightarrow> dv \<Rightarrow> int \<times> dv" where
  "dv_call n d =
     ((case dv_plan d (dv_ios d) of None \<Rightarrow> int n | Some r \<Rightarrow> if r < 0 then -1 else min r (int n)),
      d\<lparr>dv_ios := Suc (dv_ios d)\<rparr>)"

text \<open>\<^verbatim>\<open>write(s_fd, s, strlen(s)) == strlen(s)\<close>\<close>

definition dv_send :: "string \<Rightarrow> dv \<Rightarrow> bool \<times> dv" where
  "dv_send t d =
     (let (r, d1) = dv_call (length t) d
      in (r = int (length t), d1\<lparr>dv_tx := dv_tx d1 @ [take (nat r) (text_bytes t)]\<rparr>))"

definition puts :: "string \<Rightarrow> dv \<Rightarrow> dv" where
  "puts t d = d\<lparr>dv_out := dv_out d @ t @ newline\<rparr>"

definition dv_fault :: "bool \<Rightarrow> dv \<Rightarrow> dv" where
  "dv_fault b d = d\<lparr>dv_bad := (dv_bad d \<or> b)\<rparr>"

text \<open>The first read that returns something, or fails; \<^const>\<open>None\<close> if there is none, since
  the loop then goes on.\<close>

fun first_answer :: "nat \<Rightarrow> bytes option list \<Rightarrow> (bytes option \<times> bytes option list) option" where
  "first_answer n [] = None"
| "first_answer n (None # r) = Some (None, r)"
| "first_answer n (Some bs # r) =
     (if bs = [] then first_answer n r
      else if length bs \<le> n then Some (Some bs, r)
      else Some (Some (take n bs), Some (drop n bs) # r))"

text \<open>The last byte of the answer is overwritten by a zero; after a failed read the byte two
  places before the array is. The results are the number of bytes and the array.\<close>

definition waitReadAndCut :: "nat \<Rightarrow> bytes \<Rightarrow> dv \<Rightarrow> (int \<times> bytes \<times> dv) option" where
  "waitReadAndCut n buf d =
     map_option (\<lambda>(a, r).
         case a of
           None \<Rightarrow> (-1, buf, dv_fault True (d\<lparr>dv_rx := r\<rparr>))
         | Some bs \<Rightarrow> (int (length bs), overwrite (butlast bs @ [0]) buf, d\<lparr>dv_rx := r\<rparr>))
       (first_answer n (dv_rx d))"

section \<open>Commands\<close>

text \<open>The end of most commands: wait for an answer and print it.\<close>

definition dv_finish :: "bytes \<Rightarrow> dv \<Rightarrow> (int \<times> dv) option" where
  "dv_finish buf d = map_option (\<lambda>(r, b, d1). (0, puts (c_string b) d1)) (waitReadAndCut 320 buf d)"

definition dv_simple :: "string \<Rightarrow> dv \<Rightarrow> (int \<times> dv) option" where
  "dv_simple t d = (case dv_send t d of (ok, d1) \<Rightarrow> dv_finish (text_bytes t @ [0]) (if ok then puts t d1 else d1))"

definition dv_proto :: "dv \<Rightarrow> (int \<times> dv) option" where
  "dv_proto d = (case dv_send (''V'' @ newline) d of (ok, d1) \<Rightarrow> dv_finish (text_bytes (''V'' @ newline) @ [0]) d1)"

text \<open>When the number is missing nothing is sent, but an answer is waited for all the same.\<close>

definition dv_heartbeat :: "string \<Rightarrow> string \<Rightarrow> dv \<Rightarrow> (int \<times> dv) option" where
  "dv_heartbeat format cmdline d =
     (let (n, vs) = sscanf cmdline format
      in if n = 1 then dv_simple (''H '' @ show_nat (unat (word_of_int (number_arg vs 0 0) :: u32)) @ newline) d
         else dv_finish (dv_junk d) d)"

definition dv_read_file :: "string \<Rightarrow> nat \<Rightarrow> dv \<Rightarrow> bytes option \<times> dv" where
  "dv_read_file path n d =
     (case dv_fs d path of
        None \<Rightarrow> (None, d)
      | Some c \<Rightarrow> (let (r, d1) = dv_call (min n (length c)) d
                   in (if r \<le> 0 then None else Some (take (nat r) c), d1)))"

text \<open>Line ends travel as bars. The text that is sent is the C string at the start of the array,
  of which only the first bytes were read from the file.\<close>

definition bars :: "bytes \<Rightarrow> bytes" where
  "bars bs = map (\<lambda>b. if b = 10 then 124 else b) bs"

definition unbars :: "bytes \<Rightarrow> bytes" where
  "unbars bs = map (\<lambda>b. if b = 124 then 10 else b) bs"

definition devid_arg :: "string \<Rightarrow> (u32 \<times> string) option" where
  "devid_arg cmdline =
     (let (n, vs) = sscanf cmdline ''%*s%i,%s''; type = word_of_int (number_arg vs 0 (-1)) :: u32
      in if n \<noteq> 2 \<and> type \<noteq> 0x50 then None else Some (type, text_arg vs 1 []))"

definition dv_pfiletype :: "string \<Rightarrow> dv \<Rightarrow> (int \<times> dv) option" where
  "dv_pfiletype cmdline d =
     (case devid_arg cmdline of
        None \<Rightarrow> Some (1, d)
      | Some (type, path) \<Rightarrow>
          (case dv_read_file path 320 d of
             (None, d1) \<Rightarrow> Some (2, d1)
           | (Some c, d1) \<Rightarrow>
               let f = bars c @ drop (length c) (dv_junk d1); t = ''CW 0 '' @ c_string f @ newline
               in dv_simple t (dv_fault (320 \<le> length t \<or> 0 \<notin> set (take 320 f)) d1)))"

text \<open>Of the answer the first five and the last two bytes before the final zero are cut.\<close>

definition dv_gfiletype :: "string \<Rightarrow> dv \<Rightarrow> (int \<times> dv) option" where
  "dv_gfiletype cmdline d =
     (case devid_arg cmdline of
        None \<Rightarrow> Some (1, d)
      | Some (type, path) \<Rightarrow>
          (case dv_send (''CR 0'' @ newline) d of
             (False, d1) \<Rightarrow> Some (3, d1)
           | (True, d1) \<Rightarrow>
               (case waitReadAndCut 320 (dv_junk d1) (puts (''CR 0'' @ newline) d1) of
                  None \<Rightarrow> None
                | Some (r, buf, d2) \<Rightarrow>
                    if r \<le> 0 then Some (4, d2)
                    else
                      let d3 = puts (c_string buf) d2;
                          f = hd buf # unbars (take (nat r - 1) (tl buf)) @ drop (nat r) buf;
                          str = takeWhile (\<lambda>b. b \<noteq> 0) f; len = length str;
                          (opened, d4) = dv_call 0 d3;
                          (w, d5) = dv_call (len - 7) (dv_fault (len < 7) d4)
                      in if opened < 0 then Some (2, d4)
                         else Some (if w = int (len - 7) then 0 else 2,
                           d5\<lparr>dv_fs := (dv_fs d5)(path \<mapsto> take (nat w) (drop 5 str))\<rparr>))))"

section \<open>The upload\<close>

text \<open>\<^verbatim>\<open>%02X\<close> of a \<^verbatim>\<open>char\<close>: where it is signed, a byte above \<open>0x7F\<close> prints eight digits.\<close>

definition char_hex :: "bool \<Rightarrow> u8 \<Rightarrow> string" where
  "char_hex sg b = (if sg \<and> 0x80 \<le> b then ''FFFFFF'' else []) @ hex2 b @ '' ''"

definition program_line :: "bool \<Rightarrow> bytes \<Rightarrow> nat \<Rightarrow> string" where
  "program_line sg f i =
     ''P '' @ pad0 4 (show_hex i) @ '' '' @ concat (map (char_hex sg) (take 128 (drop i f)))"

definition line_starts :: "nat \<Rightarrow> nat list" where
  "line_starts n = map (\<lambda>k. 128 * k) [0..<(n + 127) div 128]"

text \<open>The loop over the lines; \<^const>\<open>Inl\<close> for an error code.\<close>

fun send_lines :: "bytes \<Rightarrow> nat list \<Rightarrow> dv \<Rightarrow> (int \<times> dv + dv) option" where
  "send_lines f [] d = Some (Inr d)"
| "send_lines f (i # is) d =
     (let t = program_line (char_signed d) f i;
          (ok, d1) = dv_send (t @ newline) (dv_fault (400 \<le> length t + 1) (puts t d))
      in if \<not> ok then Some (Inl (5, d1))
         else (case waitReadAndCut 400 (text_bytes (t @ newline) @ [0]) d1 of
                 None \<Rightarrow> None
               | Some (r, buf, d2) \<Rightarrow> send_lines f is (puts (c_string buf) d2)))"

definition crc_text :: "bytes \<Rightarrow> string" where
  "crc_text f = pad0 4 (show_hex (unat (calcCRC16 f)))"

definition finish_upload :: "bytes \<Rightarrow> dv \<Rightarrow> (int \<times> dv) option" where
  "finish_upload f d =
     (case dv_send (''U '' @ crc_text f @ newline) d of
        (False, d1) \<Rightarrow> Some (7, d1)
      | (True, d1) \<Rightarrow>
          (case waitReadAndCut 320 (text_bytes (''U '' @ crc_text f @ newline) @ [0]) d1 of
             None \<Rightarrow> None
           | Some (r, buf, d2) \<Rightarrow>
               if strncmp_eq (c_string buf) ''u ok'' 4 then Some (0, puts (c_string buf) d2)
               else Some (7, d2)))"

definition check_upload :: "bytes \<Rightarrow> dv \<Rightarrow> (int \<times> dv) option" where
  "check_upload f d =
     (case dv_send (''Q'' @ newline) d of
        (False, d1) \<Rightarrow> Some (6, d1)
      | (True, d1) \<Rightarrow>
          (case waitReadAndCut 320 (dv_junk d1) d1 of
             None \<Rightarrow> None
           | Some (r, buf, d2) \<Rightarrow>
               if strncmp_eq (c_string buf) (''q '' @ crc_text f) 6
               then finish_upload f (puts (c_string buf) d2)
               else Some (7, puts (c_string buf) d2)))"

definition dv_fwupload :: "string \<Rightarrow> dv \<Rightarrow> (int \<times> dv) option" where
  "dv_fwupload cmdline d =
     (let (n, vs) = sscanf cmdline ''%*s %s'' in
      if n \<noteq> 1 then Some (1, d)
      else (case dv_read_file (text_arg vs 0 []) FIRMWARE_SECTION_SIZE d of
              (None, d1) \<Rightarrow> Some (2, d1)
            | (Some f, d1) \<Rightarrow>
                (case send_lines f (line_starts (length f)) d1 of
                   None \<Rightarrow> None
                 | Some (Inl e) \<Rightarrow> Some e
                 | Some (Inr d2) \<Rightarrow> check_upload f d2)))"

definition starts_with :: "string \<Rightarrow> string \<Rightarrow> bool" where
  "starts_with t cmdline = strncmp_eq cmdline t (length t)"

text \<open>\<^const>\<open>None\<close>: an answer never comes.\<close>

definition dvmon :: "string \<Rightarrow> dv \<Rightarrow> (int \<times> dv) option" where
  "dvmon cmdline d =
     (if cmdline = [] then Some (0, d)
      else if starts_with ''proto'' cmdline then dv_proto d
      else if starts_with ''heartbeat'' cmdline then dv_heartbeat ''heartbeat %u'' cmdline d
      else if starts_with ''shutdown'' cmdline then dv_heartbeat ''shutdown %u'' cmdline d
      else if starts_with ''waitpoweroff'' cmdline then dv_simple (''R 0'' @ newline) d
      else if starts_with ''getrtc'' cmdline then Some (0, puts ''rtc_cb: 2000-01-01 00:00:00 (epoch=0)'' d)
      else if starts_with ''pfiletype'' cmdline then dv_pfiletype cmdline d
      else if starts_with ''gfiletype'' cmdline then dv_gfiletype cmdline d
      else if starts_with ''fwupload'' cmdline then dv_fwupload cmdline d
      else Some (1, d))"

definition dvmon_init :: "(int \<times> string option) option \<Rightarrow> int option" where
  "dvmon_init tty = map_option (\<lambda>(r, lock). if r < 0 then -1 else 0) tty"

text \<open>The lock file after the end.\<close>

definition dvmon_term :: "string option \<Rightarrow> string option" where
  "dvmon_term lock = None"

section \<open>What the checksum detects\<close>

definition low16 :: "u32 \<Rightarrow> bool" where
  "low16 x \<longleftrightarrow> take_bit 16 x = x"

lemma low16_bit: "low16 x \<Longrightarrow> 16 \<le> n \<Longrightarrow> \<not> bit x n"
  unfolding low16_def by (metis bit_take_bit_iff not_le)

lemma low16_xor: "low16 x \<Longrightarrow> low16 y \<Longrightarrow> low16 (x XOR y)"
  by (simp add: low16_def take_bit_xor)

lemma low16_ucast: "low16 (ucast (a :: u8))"
  unfolding low16_def by (rule bit_word_eqI) (auto simp: bit_simps dest: bit_imp_le_length)

lemma low16_step:
  assumes "low16 x"
  shows "low16 (crc16_step x)"
proof -
  have "bit (take_bit 16 (drop_bit 1 x)) n = bit (drop_bit 1 x) n" for n
    using low16_bit [OF assms, of "1 + n"]
    by (cases "n < 16") (simp_all add: bit_take_bit_iff bit_drop_bit_eq)
  then have "low16 (drop_bit 1 x)" unfolding low16_def by (rule bit_word_eqI)
  moreover have "low16 0xA001" by (simp add: low16_def)
  ultimately show ?thesis using low16_xor by (simp add: crc16_step_def)
qed

lemma crc16_step_top: "low16 x \<Longrightarrow> bit (crc16_step x) 15 = bit x 0"
  using low16_bit [of x 16] by (simp add: crc16_step_def bit_simps)

lemma crc16_step_inject:
  assumes "low16 x" "low16 y" "crc16_step x = crc16_step y"
  shows "x = y"
proof -
  have b: "bit x 0 = bit y 0" using crc16_step_top assms by metis
  then have "drop_bit 1 x = drop_bit 1 y"
    using assms(3) by (auto simp: crc16_step_def xor_cancel_right split: if_splits)
  then have "bit x (Suc n) = bit y (Suc n)" for n
    by (metis bit_drop_bit_eq comp_apply plus_1_eq_Suc)
  with b show ?thesis by (intro bit_word_eqI) (metis not0_implies_Suc)
qed

lemma crc16_steps:
  assumes "low16 x" "low16 y"
  shows "low16 ((crc16_step ^^ n) x)" and "(crc16_step ^^ n) x = (crc16_step ^^ n) y \<longleftrightarrow> x = y"
proof -
  have l: "low16 z \<Longrightarrow> low16 ((crc16_step ^^ n) z)" for n z by (induction n) (simp_all add: low16_step)
  show "low16 ((crc16_step ^^ n) x)" using l assms by blast
  show "(crc16_step ^^ n) x = (crc16_step ^^ n) y \<longleftrightarrow> x = y"
    by (induction n) (use l assms crc16_step_inject in auto)
qed

lemma crc16_update_inject:
  assumes "low16 x" "low16 y"
  shows "low16 (crc16_update x a)" and "crc16_update x a = crc16_update y a \<longleftrightarrow> x = y"
    and "crc16_update x a = crc16_update x b \<longleftrightarrow> a = b"
proof -
  note l = low16_xor [OF assms(1) low16_ucast] low16_xor [OF assms(2) low16_ucast]
  show "low16 (crc16_update x a)" unfolding crc16_update_def by (rule crc16_steps(1) [OF l(1,1)])
  show "crc16_update x a = crc16_update y a \<longleftrightarrow> x = y"
    unfolding crc16_update_def crc16_steps(2) [OF l] by (rule xor_cancel_right)
  have "a = b" if "(ucast a :: u32) = ucast b"
  proof (rule bit_word_eqI)
    fix n assume n: "n < LENGTH(8)"
    have "bit (ucast a :: u32) n = bit (ucast b :: u32) n" using that by simp
    then show "bit a n = bit b n" using n by (simp add: bit_simps)
  qed
  then show "crc16_update x a = crc16_update x b \<longleftrightarrow> a = b"
    unfolding crc16_update_def crc16_steps(2) [OF l(1) low16_xor [OF assms(1) low16_ucast]]
    by (auto simp: xor_cancel_left)
qed

lemma crc16_fold:
  assumes "low16 x" "low16 y"
  shows "low16 (foldl crc16_update x bs)" and "foldl crc16_update x bs = foldl crc16_update y bs \<longleftrightarrow> x = y"
  using assms by (induction bs arbitrary: x y) (simp_all add: crc16_update_inject)

lemma calcCRC16_update:
  assumes "i < length f" and "calcCRC16 (f[i := b]) = calcCRC16 f"
  shows "b = f ! i"
proof -
  let ?p = "foldl crc16_update 0 (take i f)"
  define q where "q = drop (Suc i) f @ drop (length f) (replicate FIRMWARE_SECTION_SIZE 0xFF :: bytes)"
  have z: "low16 0" by (simp add: low16_def)
  have p: "low16 ?p" by (rule crc16_fold(1) [OF z z])
  have "calcCRC16 (f[i := b]) = foldl crc16_update (crc16_update ?p b) q"
    using assms(1) by (simp add: calcCRC16_def overwrite_def q_def upd_conv_take_nth_drop)
  moreover have "calcCRC16 f = foldl crc16_update (crc16_update ?p (f ! i)) q"
    unfolding calcCRC16_def overwrite_def q_def by (subst (1) id_take_nth_drop [OF assms(1)]) simp
  ultimately have "crc16_update ?p b = crc16_update ?p (f ! i)"
    using assms(2) crc16_fold(2) [OF crc16_update_inject(1) [OF p p] crc16_update_inject(1) [OF p p]] by metis
  then show ?thesis using crc16_update_inject(3) [OF p p] by blast
qed

section \<open>What a program line says\<close>

text \<open>The address and the bytes of a line, as a reader of the protocol takes them.\<close>

definition line_addr :: "string \<Rightarrow> nat" where
  "line_addr t = num_of 16 (map digit_val (take 4 (drop 2 t)))"

definition line_bytes :: "string \<Rightarrow> bytes" where
  "line_bytes t = undump (drop 7 t)"

lemma num_of_zeros: "num_of b (replicate k 0 @ ds) = num_of b ds"
  by (simp add: num_of_def) (induction k; simp)

lemma pad0_hex:
  assumes "n < 65536"
  shows "length (pad0 4 (show_hex n)) = 4" and "num_of 16 (map digit_val (pad0 4 (show_hex n))) = n"
proof -
  have "length (digits 16 n) \<le> 4" using length_digits [of 16 n 3] assms by simp
  then show "length (pad0 4 (show_hex n)) = 4" by (simp add: pad0_def show_hex_def)
  have "digit_val (CHR ''0'') = 0" by (simp add: digit_val_def)
  then show "num_of 16 (map digit_val (pad0 4 (show_hex n))) = n"
    using map_digit_val [of 16 n] by (simp add: pad0_def show_hex_def num_of_zeros num_of_digits)
qed

lemma program_line_says:
  assumes "i < 65536"
  shows "line_addr (program_line False f i) = i" and "line_bytes (program_line False f i) = take 128 (drop i f)"
proof -
  have h: "concat (map (char_hex False) bs) = hex_dump bs" for bs
    by (simp add: hex_dump_def char_hex_def cong: map_cong)
  show "line_addr (program_line False f i) = i"
    using pad0_hex [OF assms] by (simp add: line_addr_def program_line_def numeral_2_eq_2)
  have "drop 7 (program_line False f i) = hex_dump (take 128 (drop i f))"
    using pad0_hex(1) [OF assms] by (simp add: program_line_def h drop_append)
  then show "line_bytes (program_line False f i) = take 128 (drop i f)"
    by (simp add: line_bytes_def undump_hex_dump)
qed

lemma concat_chunks: "concat (map (\<lambda>k. take m (drop (m * k) f)) [0..<n]) = take (m * n) f"
proof (induction n)
  case (Suc n)
  have "m * Suc n = m * n + m" by simp
  then show ?case using Suc by (simp only: take_add) simp
qed simp

lemma line_starts_cover: "concat (map (\<lambda>i. take 128 (drop i f)) (line_starts (length f))) = f"
proof -
  have "length f \<le> 128 * ((length f + 127) div 128)" by linarith
  then show ?thesis using concat_chunks [of 128 f] by (simp add: line_starts_def comp_def)
qed

lemma line_starts_less: "n \<le> 16384 \<Longrightarrow> i \<in> set (line_starts n) \<Longrightarrow> i < 65536"
  by (auto simp: line_starts_def)

section \<open>What an upload does\<close>

text \<open>All that the device sends, and that no read fails.\<close>

definition received :: "bytes option list \<Rightarrow> bytes" where
  "received r = concat (map (\<lambda>a. case a of None \<Rightarrow> [] | Some bs \<Rightarrow> bs) r)"

definition reads_ok :: "dv \<Rightarrow> bool" where
  "reads_ok d \<longleftrightarrow> None \<notin> set (dv_rx d)"

lemma first_answer_received:
  assumes "first_answer n r = Some (a, r')" and "None \<notin> set r" and "0 < n"
  shows "\<exists>bs. a = Some bs \<and> received r = bs @ received r' \<and> None \<notin> set r'"
  using assms by (induction n r rule: first_answer.induct) (auto simp: received_def split: if_splits)

lemma wait_read:
  assumes "waitReadAndCut n buf d = Some (r, b, d')" and "reads_ok d" and "0 < n"
  obtains bs where "b = overwrite (butlast bs @ [0]) buf" "received (dv_rx d) = bs @ received (dv_rx d')"
    "reads_ok d'" "dv_tx d' = dv_tx d" "char_signed d' = char_signed d"
proof -
  obtain a r' where f: "first_answer n (dv_rx d) = Some (a, r')"
    using assms(1) by (auto simp: waitReadAndCut_def)
  obtain bs where bs: "a = Some bs" "received (dv_rx d) = bs @ received r'" "None \<notin> set r'"
    using first_answer_received [OF f] assms(2,3) by (auto simp: reads_ok_def)
  have "b = overwrite (butlast bs @ [0]) buf" "d' = d\<lparr>dv_rx := r'\<rparr>"
    using assms(1) f bs(1) by (auto simp: waitReadAndCut_def)
  then show thesis using that [of bs] bs by (simp add: reads_ok_def)
qed

lemma send_ok:
  assumes "dv_send t d = (True, d')"
  shows "dv_tx d' = dv_tx d @ [text_bytes t]" "dv_rx d' = dv_rx d" "char_signed d' = char_signed d"
  using assms by (auto simp: dv_send_def dv_call_def Let_def text_bytes_def)

lemma send_lines_error: "send_lines f is d = Some (Inl (e, d')) \<Longrightarrow> e = 5"
  by (induction f "is" d rule: send_lines.induct)
    (auto simp: Let_def split: prod.splits if_splits option.splits)

lemma send_lines_tx:
  assumes "send_lines f is d = Some (Inr d')" and "reads_ok d"
  shows "dv_tx d' = dv_tx d @ map (\<lambda>i. text_bytes (program_line (char_signed d) f i @ newline)) is \<and>
    reads_ok d' \<and> (\<exists>x. received (dv_rx d) = x @ received (dv_rx d'))"
  using assms
proof (induction f "is" d rule: send_lines.induct)
  case (2 f i "is" d)
  define t where "t = program_line (char_signed d) f i"
  obtain ok d1 where s: "dv_send (t @ newline) (dv_fault (400 \<le> length t + 1) (puts t d)) = (ok, d1)" by fastforce
  have ok using 2(2) s by (cases ok) (simp_all add: t_def [symmetric] Let_def)
  then obtain r buf d2 where w: "waitReadAndCut 400 (text_bytes (t @ newline) @ [0]) d1 = Some (r, buf, d2)"
    and n: "send_lines f is (puts (c_string buf) d2) = Some (Inr d')"
    using 2(2) s by (auto simp: t_def [symmetric] Let_def split: option.splits)
  have d1: "dv_tx d1 = dv_tx d @ [text_bytes (t @ newline)]" "dv_rx d1 = dv_rx d" "char_signed d1 = char_signed d"
    using send_ok [of "t @ newline" _ d1] s \<open>ok\<close> by (simp_all add: dv_fault_def puts_def)
  then have "reads_ok d1" using 2(3) by (simp add: reads_ok_def)
  from wait_read [OF w this] obtain bs where bs: "received (dv_rx d1) = bs @ received (dv_rx d2)" "reads_ok d2"
    "dv_tx d2 = dv_tx d1" "char_signed d2 = char_signed d1" by auto
  have "dv_tx d' = dv_tx (puts (c_string buf) d2) @
      map (\<lambda>i. text_bytes (program_line (char_signed (puts (c_string buf) d2)) f i @ newline)) is \<and>
      reads_ok d' \<and> (\<exists>x. received (dv_rx (puts (c_string buf) d2)) = x @ received (dv_rx d'))"
    using 2(1) [OF t_def [unfolded t_def] s [symmetric, unfolded t_def]] \<open>ok\<close> w n bs(2)
    by (simp add: t_def reads_ok_def puts_def)
  then show ?case using d1 bs by (auto simp: puts_def t_def)
qed simp

lemma text_bytes_c_string: "text_bytes (c_string bs) = takeWhile (\<lambda>b. b \<noteq> 0) bs"
  by (simp add: text_bytes_def c_string_def comp_def)

lemma takeWhile_to_zero: "takeWhile (\<lambda>b. b \<noteq> 0) (xs @ 0 # ys) = takeWhile (\<lambda>b. b \<noteq> (0 :: u8)) xs"
  by (induction xs) simp_all

lemma answer_prefix:
  assumes "strncmp_eq (c_string (overwrite (butlast bs @ [0]) buf)) t n" and "n = length t"
  shows "\<exists>y. bs = text_bytes t @ y"
proof -
  let ?w = "takeWhile (\<lambda>b. b \<noteq> 0) (butlast bs)"
  have "text_bytes (c_string (overwrite (butlast bs @ [0]) buf)) = ?w"
    by (simp add: text_bytes_c_string overwrite_def takeWhile_to_zero)
  moreover have "take n (text_bytes (c_string (overwrite (butlast bs @ [0]) buf))) = text_bytes t"
    using assms by (simp add: strncmp_eq_def text_bytes_def take_map)
  ultimately have "?w = text_bytes t @ drop n ?w" by (metis append_take_drop_id)
  then have "butlast bs = text_bytes t @ drop n ?w @ dropWhile (\<lambda>b. b \<noteq> 0) (butlast bs)"
    by (metis append_assoc takeWhile_dropWhile_id)
  then show ?thesis by (metis append.assoc append_butlast_last_id butlast.simps(1) append_Nil2)
qed

lemma low16_calcCRC16: "low16 (calcCRC16 f)"
proof -
  have z: "low16 0" by (simp add: low16_def)
  show ?thesis unfolding calcCRC16_def by (rule crc16_fold(1) [OF z z])
qed

lemma length_crc_text: "length (crc_text f) = 4"
proof -
  have "unat (calcCRC16 f) = take_bit 16 (unat (calcCRC16 f))"
    using low16_calcCRC16 [of f] unfolding low16_def by (metis unsigned_take_bit_eq)
  then have "unat (calcCRC16 f) < 2 ^ 16" by (metis take_bit_nat_less_exp)
  then show ?thesis unfolding crc_text_def by (intro pad0_hex(1)) simp
qed

lemma finish_upload_ok:
  assumes "finish_upload f d = Some (0, d')" and "reads_ok d"
  shows "dv_tx d' = dv_tx d @ [text_bytes (''U '' @ crc_text f @ newline)] \<and>
    (\<exists>z. received (dv_rx d) = text_bytes ''u ok'' @ z)"
proof -
  obtain d1 r buf d2 where s: "dv_send (''U '' @ crc_text f @ newline) d = (True, d1)"
    and w: "waitReadAndCut 320 (text_bytes (''U '' @ crc_text f @ newline) @ [0]) d1 = Some (r, buf, d2)"
    and e: "strncmp_eq (c_string buf) ''u ok'' 4" "d' = puts (c_string buf) d2"
    using assms(1) by (auto simp: finish_upload_def split: prod.splits bool.splits option.splits if_splits)
  note d1 = send_ok [OF s]
  have "reads_ok d1" using assms(2) d1(2) by (simp add: reads_ok_def)
  from wait_read [OF w this] obtain bs where bs: "buf = overwrite (butlast bs @ [0]) (text_bytes (''U '' @ crc_text f @ newline) @ [0])"
    "received (dv_rx d1) = bs @ received (dv_rx d2)" "dv_tx d2 = dv_tx d1" by auto
  obtain y where "bs = text_bytes ''u ok'' @ y" using answer_prefix [OF e(1) [unfolded bs(1)]] by auto
  then show ?thesis using bs d1 e(2) by (simp add: puts_def)
qed

lemma check_upload_ok:
  assumes "check_upload f d = Some (0, d')" and "reads_ok d"
  shows "dv_tx d' = dv_tx d @ [text_bytes (''Q'' @ newline), text_bytes (''U '' @ crc_text f @ newline)] \<and>
    (\<exists>y z. received (dv_rx d) = text_bytes (''q '' @ crc_text f) @ y @ text_bytes ''u ok'' @ z)"
proof -
  obtain d1 r buf d2 where s: "dv_send (''Q'' @ newline) d = (True, d1)"
    and w: "waitReadAndCut 320 (dv_junk d1) d1 = Some (r, buf, d2)"
    and e: "strncmp_eq (c_string buf) (''q '' @ crc_text f) 6" "finish_upload f (puts (c_string buf) d2) = Some (0, d')"
    using assms(1) by (auto simp: check_upload_def split: prod.splits bool.splits option.splits if_splits)
  note d1 = send_ok [OF s]
  have "reads_ok d1" using assms(2) d1(2) by (simp add: reads_ok_def)
  from wait_read [OF w this] obtain bs where bs: "buf = overwrite (butlast bs @ [0]) (dv_junk d1)"
    "received (dv_rx d1) = bs @ received (dv_rx d2)" "reads_ok d2" "dv_tx d2 = dv_tx d1" by auto
  have "6 = length (''q '' @ crc_text f)" by (simp add: length_crc_text)
  from answer_prefix [OF e(1) [unfolded bs(1)] this] obtain y where y: "bs = text_bytes (''q '' @ crc_text f) @ y" by blast
  have "reads_ok (puts (c_string buf) d2)" using bs(3) by (simp add: reads_ok_def puts_def)
  from finish_upload_ok [OF e(2) this] show ?thesis using bs(2,4) d1 y by (auto simp: puts_def)
qed

lemma starts_withE:
  assumes "starts_with t cmdline"
  obtains r where "cmdline = t @ r"
  using assms unfolding starts_with_def strncmp_eq_def take_all [OF order_refl] by (metis append_take_drop_id)

lemma fwupload_dispatch: "starts_with ''fwupload'' cmdline \<Longrightarrow> dvmon cmdline d = dv_fwupload cmdline d"
proof -
  assume "starts_with ''fwupload'' cmdline"
  then obtain r where "cmdline = ''fwupload'' @ r" by (rule starts_withE)
  then show ?thesis by (simp add: dvmon_def starts_with_def strncmp_eq_def)
qed

section \<open>Properties\<close>

text \<open>C30. The checksum that decides on a firmware upload detects every change of a single byte of
  the image: replacing a byte by another one never leaves it the same.\<close>

theorem crc16_detects_changed_byte:
  assumes "i < length f" and "length f \<le> FIRMWARE_SECTION_SIZE" and "b \<noteq> f ! i"
  shows "calcCRC16 (f[i := b]) \<noteq> calcCRC16 f"
  using calcCRC16_update [OF assms(1)] assms(3) by blast

theorem crc16_detects_changed_byte_witness: "calcCRC16 ([1, 2, 3][1 := 7]) \<noteq> calcCRC16 [1, 2, 3]"
  by (rule crc16_detects_changed_byte) simp_all


text \<open>A device that accepts a line and confirms the checksum of an image of three bytes.\<close>

abbreviation sample_dv :: dv where
  "sample_dv \<equiv> \<lparr>dv_rx = [Some (text_bytes (''p ok'' @ newline)),
       Some (text_bytes (''q '' @ crc_text [1, 2, 0xFF] @ newline)), Some (text_bytes (''u ok'' @ newline))],
     dv_tx = [], dv_fs = (\<lambda>p. if p = ''fw'' then Some [1, 2, 0xFF] else None), dv_out = [],
     dv_plan = (\<lambda>_. None), dv_ios = 0, char_signed = False, dv_junk = [0], dv_bad = False\<rparr>"

lemma c_string_answer:
  assumes "\<forall>c \<in> set t. c \<noteq> CHR 0x00"
  shows "c_string (overwrite (butlast (text_bytes (t @ [x])) @ [0]) buf) = t"
proof -
  have b: "butlast (text_bytes (t @ [x])) = text_bytes t" by (simp add: text_bytes_def)
  have nz: "(of_nat (of_char c) :: u8) \<noteq> 0" if "c \<in> set t" for c
  proof
    assume "(of_nat (of_char c) :: u8) = 0"
    then have "unat (of_nat (of_char c) :: u8) = 0" by simp
    then have "of_char c = (0 :: nat)" by (simp add: unat_of_nat)
    then have "c = char_of (0 :: nat)" by (metis char_of_char)
    then show False using assms that by (simp add: char_of_def)
  qed
  then have "takeWhile (\<lambda>b. b \<noteq> 0) (text_bytes t) = text_bytes t"
    by (auto simp: takeWhile_eq_all_conv text_bytes_def)
  then have "c_string (overwrite (butlast (text_bytes (t @ [x])) @ [0]) buf) =
      map (\<lambda>b. char_of (unat b)) (text_bytes t)"
    unfolding c_string_def overwrite_def b by (simp only: append_assoc append_Cons append_Nil takeWhile_to_zero)
  then show ?thesis by (simp add: text_bytes_def comp_def unat_of_nat)
qed

lemma crc_text_no_zero: "\<forall>c \<in> set (crc_text f). c \<noteq> CHR 0x00"
proof
  have z: "digit_char d \<noteq> CHR 0x00" if "d < 16" for d
    using of_char_digit_char [OF that]
    by (auto split: if_splits dest!: arg_cong [where f = "of_char :: char \<Rightarrow> nat"])
  fix c assume "c \<in> set (crc_text f)"
  then consider "c = CHR ''0''" | d where "c = digit_char d" "d \<in> set (digits 16 (unat (calcCRC16 f)))"
    by (auto simp: crc_text_def pad0_def show_hex_def split: if_splits)
  then show "c \<noteq> CHR 0x00"
  proof cases
    case 2
    then show ?thesis using z [of d] digits_less [of 16 d] by simp
  qed simp
qed

lemma wait_read_next:
  assumes "dv_rx d = Some (text_bytes (t @ [x])) # r" and "length t < n" and "\<forall>c \<in> set t. c \<noteq> CHR 0x00"
  shows "\<exists>b. waitReadAndCut n buf d = Some (int (length t) + 1, b, d\<lparr>dv_rx := r\<rparr>) \<and> c_string b = t"
proof -
  have "text_bytes (t @ [x]) \<noteq> []" "length (text_bytes (t @ [x])) = Suc (length t)" by (simp_all add: text_bytes_def)
  then show ?thesis using assms c_string_answer [OF assms(3), of x buf] by (simp add: waitReadAndCut_def)
qed

lemma send_plain:
  "dv_plan d = (\<lambda>_. None) \<Longrightarrow>
   dv_send t d = (True, d\<lparr>dv_ios := Suc (dv_ios d), dv_tx := dv_tx d @ [text_bytes t]\<rparr>)"
  by (simp add: dv_send_def dv_call_def text_bytes_def)

lemma sample_upload: "\<exists>d'. dvmon ''fwupload fw'' sample_dv = Some (0, d')"
proof -
  have s: "sscanf ''fwupload fw'' ''%*s %s'' = (1, [Text ''fw''])"
    by (simp add: sscanf_def conversions.simps is_blank_def)
  have ta: "text_arg [Text ''fw''] 0 [] = ''fw''" by (simp add: text_arg_def)
  let ?f = "[1, 2, 0xFF] :: bytes"
  have l: "line_starts (length ?f) = [0]" by (simp add: line_starts_def)
  let ?d = "sample_dv\<lparr>dv_ios := 1\<rparr>"
  have rd: "dv_read_file ''fw'' FIRMWARE_SECTION_SIZE sample_dv = (Some ?f, ?d)"
    by (simp add: dv_read_file_def dv_call_def)
  have "\<exists>d2. send_lines ?f [0] ?d = Some (Inr d2) \<and> dv_plan d2 = (\<lambda>_. None) \<and>
      dv_rx d2 = [Some (text_bytes ((''q '' @ crc_text ?f) @ newline)), Some (text_bytes (''u ok'' @ newline))]"
  proof -
    define t where "t = program_line False ?f 0"
    let ?d1 = "dv_fault (400 \<le> length t + 1) (puts t ?d)"
    have d1: "dv_plan ?d1 = (\<lambda>_. None)" by (simp add: dv_fault_def puts_def)
    let ?d2 = "?d1\<lparr>dv_ios := Suc (dv_ios ?d1), dv_tx := dv_tx ?d1 @ [text_bytes (t @ newline)]\<rparr>"
    obtain b where "waitReadAndCut 400 (text_bytes (t @ newline) @ [0]) ?d2 =
        Some (int 4 + 1, b, ?d2\<lparr>dv_rx := [Some (text_bytes (''q '' @ crc_text ?f @ newline)), Some (text_bytes (''u ok'' @ newline))]\<rparr>)"
      using wait_read_next [of ?d2 "''p ok''" "CHR 0x0A" _ 400 "text_bytes (t @ newline) @ [0]"]
      by (auto simp: dv_fault_def puts_def)
    then show ?thesis
      using send_plain [OF d1, of "t @ newline"] by (simp add: t_def dv_fault_def puts_def Let_def)
  qed
  then obtain d2 where d2: "send_lines ?f [0] ?d = Some (Inr d2)" "dv_plan d2 = (\<lambda>_. None)"
    "dv_rx d2 = [Some (text_bytes ((''q '' @ crc_text ?f) @ newline)), Some (text_bytes (''u ok'' @ newline))]" by blast
  moreover have "\<exists>d'. check_upload ?f d2 = Some (0, d')"
  proof -
    let ?d3 = "d2\<lparr>dv_ios := Suc (dv_ios d2), dv_tx := dv_tx d2 @ [text_bytes (''Q'' @ newline)]\<rparr>"
    obtain b where b: "waitReadAndCut 320 (dv_junk ?d3) ?d3 =
        Some (int (length (''q '' @ crc_text ?f)) + 1, b, ?d3\<lparr>dv_rx := [Some (text_bytes (''u ok'' @ newline))]\<rparr>)"
      "c_string b = ''q '' @ crc_text ?f"
      using wait_read_next [of ?d3 "''q '' @ crc_text ?f" "CHR 0x0A" _ 320 "dv_junk ?d3"] d2(3) crc_text_no_zero [of ?f]
      by (auto simp: length_crc_text)
    let ?d4 = "puts (c_string b) (?d3\<lparr>dv_rx := [Some (text_bytes (''u ok'' @ newline))]\<rparr>)"
    have d4: "dv_plan ?d4 = (\<lambda>_. None)" using d2(2) by (simp add: puts_def)
    let ?u = "''U '' @ crc_text ?f @ newline"
    let ?d5 = "?d4\<lparr>dv_ios := Suc (dv_ios ?d4), dv_tx := dv_tx ?d4 @ [text_bytes ?u]\<rparr>"
    obtain e where e: "waitReadAndCut 320 (text_bytes ?u @ [0]) ?d5 = Some (int (length ''u ok'') + 1, e, ?d5\<lparr>dv_rx := []\<rparr>)"
      "c_string e = ''u ok''"
      using wait_read_next [of ?d5 "''u ok''" "CHR 0x0A" "[]" 320 "text_bytes ?u @ [0]"] by (auto simp: puts_def)
    show ?thesis
      unfolding check_upload_def send_plain [OF d2(2)] prod.case bool.case b(1) option.case
      using e b(2) unfolding finish_upload_def send_plain [OF d4] by (simp add: strncmp_eq_def)
  qed
  ultimately have "\<exists>d'. dv_fwupload ''fwupload fw'' sample_dv = Some (0, d')"
    unfolding dv_fwupload_def s Let_def prod.case ta rd by (simp only: l option.case sum.case prod.case) simp
  then show ?thesis by (simp add: fwupload_dispatch starts_with_def strncmp_eq_def)
qed


end
