(* ===== verification/Spec2Isabelle.thy ===== *)
theory Spec2Isabelle
  imports System Log_Read Tool_Threads Dvmon
begin

text \<open>
  \<^bold>\<open>A verification of libdrbcc.\<close> libdrbcc is the host side of a serial link to a board controller
  (BCTRL), an embedded processor with a clock, inputs and outputs, a flash memory and a ring
  log. \<^verbatim>\<open>src/lib\<close> is the library and \<^verbatim>\<open>src/src\<close> the command line tool \<^verbatim>\<open>drbcc\<close>.

  \<^bold>\<open>The parts and how they interact.\<close> An application opens a handle (\<^verbatim>\<open>drbcc_ll.c\<close>),
  registers callbacks and calls request functions (\<^verbatim>\<open>drbcc_utils.c\<close>, \<^verbatim>\<open>drbcc_files.c\<close>),
  which put messages into two queues of the handle. It calls \<^verbatim>\<open>drbcc_trigger\<close>
  (\<^verbatim>\<open>drbcc.c\<close>) periodically: that reads bytes from the line, takes frames apart, acknowledges
  them, answers them by callbacks and by further messages, sends queued messages with an
  alternating toggle bit, repeats a message that is not acknowledged and gives it up after some
  repetitions. Files of the flash, the partition table and the log are read and written by
  sequences of flash messages, driven by the answers (\<^verbatim>\<open>drbcc_files.c\<close>). The tool
  (\<^verbatim>\<open>main.c\<close>) has two threads, one that reads command lines and one that runs the library,
  synchronised by a pipe (\<^verbatim>\<open>drbcc_sema.c\<close>). For a simpler controller it speaks a line
  protocol instead (\<^verbatim>\<open>dvmon.c\<close>).

  \<^bold>\<open>State.\<close> The record \<^typ>\<open>DRBCC_t\<close> of \<^theory_text>\<open>Handle\<close> has the members of the
  structure of the same name, and the environment the code acts on: what the line delivers
  (\<open>rx\<close>, one element per \<^verbatim>\<open>read\<close>) and what was written (\<open>tx\<close>), the files (\<open>fs\<close>), oracles
  indexed by call counters for \<^verbatim>\<open>malloc\<close> (\<open>heap\<close>), \<^verbatim>\<open>gettimeofday\<close> (\<open>clock\<close>) and the
  results of system calls (\<open>ioplan\<close>), the calls of callbacks (\<open>events\<close>), and a ghost \<open>fault\<close>
  that is set where the C code leaves an array or uses memory it does not have. Machine
  integers are words of their width; allocated memory has arbitrary contents.

  \<^bold>\<open>Theories of the library.\<close>
  \<^item> \<^theory_text>\<open>Prelude\<close>: lists, words, decimal and hexadecimal numerals.
  \<^item> \<^theory_text>\<open>Checksum\<close> (\<^verbatim>\<open>libdrbcc_crc_ccitt_update\<close>): equal to division by the CCITT
    polynomial; the locale of an appended checksum.
  \<^item> \<^theory_text>\<open>Handle\<close> (\<^verbatim>\<open>drbcc_ll.h\<close>, \<^verbatim>\<open>drbcc_com.h\<close>): codes, messages, the handle and
    the system calls.
  \<^item> \<^theory_text>\<open>Msg_Queue\<close> (\<^verbatim>\<open>libdrbcc_add_msg_*\<close>, \<^verbatim>\<open>libdrbcc_free_queue\<close>): the linked lists
    refine lists, and each message is freed once.
  \<^item> \<^theory_text>\<open>Framing\<close> (\<^verbatim>\<open>libdrbcc_send_message\<close>, \<^verbatim>\<open>libdrbcc_send_ack\<close>): the bytes of a
    frame, in the bounds of the buffer.
  \<^item> \<^theory_text>\<open>Rtc_Codec\<close>: a date through the registers of the clock and back.
  \<^item> \<^theory_text>\<open>Requests\<close>, \<^theory_text>\<open>Flash_Access\<close> (\<^verbatim>\<open>drbcc_utils.c\<close>): all request functions;
    one session at a time; a write reaches the flash in full.
  \<^item> \<^theory_text>\<open>Partition\<close>, \<^theory_text>\<open>Flash_Files\<close>, \<^theory_text>\<open>Ring_Log\<close> (\<^verbatim>\<open>drbcc_files.c\<close>): the table, its
    checksum, the choice of a free area, the file operations and the reading of the log.
  \<^item> \<^theory_text>\<open>Proc_Msg\<close>, \<^theory_text>\<open>Link\<close> (\<^verbatim>\<open>drbcc.c\<close>): \<^verbatim>\<open>libdrbcc_proc_msg\<close> case by case,
    \<^verbatim>\<open>libdrbcc_receive\<close> and \<^verbatim>\<open>drbcc_trigger\<close>. \<^theory_text>\<open>Lifecycle\<close>: \<^verbatim>\<open>drbcc_init\<close> to
    \<^verbatim>\<open>drbcc_close\<close>.
  \<^item> \<^theory_text>\<open>Proc_Frame\<close>, \<^theory_text>\<open>Proc_Inv\<close>, \<^theory_text>\<open>Link_Inv\<close>, \<^theory_text>\<open>Link_Receive\<close>: what each of these
    leaves unchanged, and the invariant of the handle; frames are received as sent, damaged
    ones dropped, overlong ones overrun the message.
  \<^item> \<^theory_text>\<open>Protocol\<close>, \<^theory_text>\<open>Delivery\<close>, \<^theory_text>\<open>System\<close>: termination of \<^verbatim>\<open>drbcc_trigger\<close>, bounded
    repetition, delivery exactly once, and the invariant in every reachable state.
  \<^item> \<^theory_text>\<open>Table_Update\<close>, \<^theory_text>\<open>Put_File\<close>, \<^theory_text>\<open>Get_File\<close>, \<^theory_text>\<open>Log_Read\<close>: whole operations
    against a device that carries out the flash messages: a table survives an interruption, a
    file that was put is in the flash and comes back, the log is read to its end.

  \<^bold>\<open>Theories of the tool.\<close>
  \<^item> \<^theory_text>\<open>Scan\<close>: what the tool uses of \<^verbatim>\<open>sscanf\<close>, \<^verbatim>\<open>printf\<close> and the string functions.
  \<^item> \<^theory_text>\<open>Callback_Text\<close>: the text each callback of \<^verbatim>\<open>main.c\<close> prints. \<^theory_text>\<open>Commands\<close>: the
    table of commands, the search in it and the help texts. \<^theory_text>\<open>Calendar\<close>: \<^verbatim>\<open>setrtc\<close> and
    what it uses of \<^verbatim>\<open>strptime\<close> and \<^verbatim>\<open>gmtime_r\<close>. \<^theory_text>\<open>Sema\<close>: \<^verbatim>\<open>drbcc_sema.c\<close>, which
    refines a counter.
  \<^item> \<^theory_text>\<open>Tool\<close>, \<^theory_text>\<open>Tool_Sessions\<close>, \<^theory_text>\<open>Tool_Commands\<close>, \<^theory_text>\<open>Tool_Threads\<close>: the state of
    the tool (the record \<^typ>\<open>cli\<close>, which contains a handle), its callbacks, the sessions it
    counts and those of the library, its commands, its options and its two threads as a step
    relation. Every line is answered once, and the prompt returns only when its command is done.
  \<^item> \<^theory_text>\<open>Tty_Lock\<close>: \<^verbatim>\<open>libdrbcc_open_tty\<close> of \<^verbatim>\<open>drbcc_ll.c\<close> and of \<^verbatim>\<open>dvmon.c\<close>; a
    second process is kept out. \<^theory_text>\<open>Dvmon\<close>: the commands of \<^verbatim>\<open>dvmon.c\<close>; an upload that is
    reported successful has been confirmed. This theory adds the end of \<^verbatim>\<open>main\<close>, where the
    latter two meet.

  \<^bold>\<open>Loops.\<close> Loops over data are structural or have a measure. The loop of
  \<^verbatim>\<open>libdrbcc_receive\<close> consumes one byte of its buffer per turn and so has as many turns as
  there are bytes in it. The loop of \<^verbatim>\<open>drbcc_trigger\<close> and those over linked lists are partial
  functions into options: \<open>Protocol.trigger_returns\<close> shows that the former always returns, the
  properties of \<^theory_text>\<open>Msg_Queue\<close> that the latter do on the lists the library builds. The
  waiting loops of \<^theory_text>\<open>Sema\<close>, \<^theory_text>\<open>Tty_Lock\<close> and \<^theory_text>\<open>Dvmon\<close> do wait for others, and
  \<^const>\<open>None\<close> stands for waiting for ever. There is no other bound or fuel.

  \<^bold>\<open>Not modelled.\<close> The contents of trace output. The variants of the build with liblockdev,
  libdrtrace or for Windows. The settings of the terminal (only whether the calls that make them
  succeed). \<^verbatim>\<open>getopt_long\<close>, \<^verbatim>\<open>readline\<close> and the external program \<^verbatim>\<open>hip-machinfo\<close>: the
  options, the lines and the kind of controller are given. Signals as steps of the threads
  (\<^const>\<open>sighandler\<close> is a definition, but no step calls it). Floating point arithmetic, where its
  results are printed, is an argument where it is not determined by integers. The steps of the
  worker thread are whole turns of its loop, in sequentially consistent memory. The board
  controller itself is not part of the sources: the theorems on whole operations state what is
  assumed of it.
\<close>

section \<open>The tool with the simpler controller\<close>

text \<open>The end of \<^verbatim>\<open>main\<close> when the controller is of the kind of \<^verbatim>\<open>dvmon.c\<close>: the exit status, the
  line, and the lock file. \<^const>\<open>None\<close>: it does not end. When the device cannot be opened the
  status is that of success.\<close>

definition main_dvmon :: "string \<Rightarrow> options \<Rightarrow> lock_world \<Rightarrow> tty_outcome \<Rightarrow> string option \<Rightarrow> dv \<Rightarrow>
    (int \<times> dv \<times> string option) option" where
  "main_dvmon progname op w outcome lock d =
     (if s_cmd_line op = []
      then Some (1, d\<lparr>dv_out := dv_out d @ print_dvmon_usage progname (s_speed op) True\<rparr>, lock)
      else (case dvmon_open_tty w outcome lock of
              None \<Rightarrow> None
            | Some (r, lock') \<Rightarrow>
                if dvmon_init (Some (r, lock')) = Some 0
                then map_option (\<lambda>(rc, d'). (rc, d', dvmon_term lock')) (dvmon (s_cmd_line op) d)
                else Some (0, d, lock')))"

text \<open>A process that got the device leaves no lock file behind, and its status is that of the
  command.\<close>

lemma main_dvmon_unlocks:
  assumes "dvmon_open_tty w (Tty_ok tty) lock = Some (tty, lock')" and "0 \<le> tty"
    and "main_dvmon progname op w (Tty_ok tty) lock d = Some (rc, d', end_lock)" and "s_cmd_line op \<noteq> []"
  shows "end_lock = None \<and> dvmon (s_cmd_line op) d = Some (rc, d')"
  using assms by (auto simp: main_dvmon_def dvmon_init_def dvmon_term_def split: if_splits)

end
